(* ===== verification/Prelude.thy ===== *)
theory Prelude
  imports Complex_Main "HOL-Library.Char_ord" "HOL-Library.List_Lexorder" "HOL-Library.Multiset"
begin

section \<open>Prelude: the JavaScript vocabulary the components share\<close>

text \<open>
  The parts of JavaScript that every component of the admin server uses, as HOL
  functions, with the lemmas the component theories rest on.

  A string is a list of characters whose codes are the UTF-16 code units 0 to 255, so the model
  speaks about strings over the Latin-1 range; \<open>trim\<close> and \<open>toLowerCase\<close> are the JavaScript
  operations on that range. A number that the code treats as an integer (a time, a count, an id)
  is an \<open>int\<close>; a quotient is a \<open>rat\<close>; a number that comes from outside and may be \<open>NaN\<close> or
  infinite is a \<open>jsnum\<close>. Arithmetic on numbers is exact.
\<close>

named_theorems strs "facts on trim, lower-casing and splitting"

subsection \<open>Strings\<close>

definition is_ws :: "char \<Rightarrow> bool" where
  "is_ws c = (let n = (of_char c :: nat) in (9 \<le> n \<and> n \<le> 13) \<or> n = 32 \<or> n = 160)"

definition js_trim :: "string \<Rightarrow> string" where
  "js_trim s = rev (dropWhile is_ws (rev (dropWhile is_ws s)))"

definition lower_char :: "char \<Rightarrow> char" where
  "lower_char c =
     (let n = (of_char c :: nat)
      in if (65 \<le> n \<and> n \<le> 90) \<or> (192 \<le> n \<and> n \<le> 222 \<and> n \<noteq> 215) then char_of (n + 32) else c)"

definition js_lower :: "string \<Rightarrow> string" where
  "js_lower s = map lower_char s"

text \<open>The ASCII-only folding of SQLite's \<open>NOCASE\<close> collation and of its \<open>LIKE\<close>.\<close>

definition nocase_char :: "char \<Rightarrow> char" where
  "nocase_char c = (let n = (of_char c :: nat) in if 65 \<le> n \<and> n \<le> 90 then char_of (n + 32) else c)"

definition nocase :: "string \<Rightarrow> string" where
  "nocase s = map nocase_char s"

definition is_digit :: "char \<Rightarrow> bool" where
  "is_digit c = (let n = (of_char c :: nat) in 48 \<le> n \<and> n \<le> 57)"

definition is_alnum :: "char \<Rightarrow> bool" where
  "is_alnum c = (let n = (of_char c :: nat)
     in (48 \<le> n \<and> n \<le> 57) \<or> (97 \<le> n \<and> n \<le> 122) \<or> (65 \<le> n \<and> n \<le> 90))"

definition starts_with :: "string \<Rightarrow> string \<Rightarrow> bool" where
  "starts_with p s = (take (length p) s = p)"

fun js_includes :: "string \<Rightarrow> string \<Rightarrow> bool" where
  "js_includes p [] = (p = [])"
| "js_includes p (c # cs) = (starts_with p (c # cs) \<or> js_includes p cs)"

fun split_on :: "char \<Rightarrow> string \<Rightarrow> string list" where
  "split_on d [] = [[]]"
| "split_on d (c # cs) =
     (if c = d then [] # split_on d cs
      else (case split_on d cs of [] \<Rightarrow> [[c]] | w # ws \<Rightarrow> (c # w) # ws))"

lemma of_char_less [simp]: "(of_char c :: nat) < 256"
  by (metis nat_of_char_less_256)

lemma is_ws_lower [simp, strs]: "is_ws (lower_char c) = is_ws c"
  by (auto simp: is_ws_def lower_char_def Let_def of_char_of)

lemma lower_char_idem [simp, strs]: "lower_char (lower_char c) = lower_char c"
  by (auto simp: lower_char_def Let_def of_char_of)

lemma js_lower_idem [simp, strs]: "js_lower (js_lower s) = js_lower s"
  by (simp add: js_lower_def)

lemma length_js_lower [simp, strs]: "length (js_lower s) = length s"
  by (simp add: js_lower_def)

lemma js_lower_Nil [simp]: "js_lower s = [] \<longleftrightarrow> s = []"
  by (simp add: js_lower_def)

lemma nocase_char_idem [simp, strs]: "nocase_char (nocase_char c) = nocase_char c"
  by (auto simp: nocase_char_def Let_def of_char_of)

lemma nocase_lower_char [simp]: "nocase_char (lower_char c) = lower_char c"
  by (auto simp: nocase_char_def lower_char_def Let_def of_char_of)

lemma lower_nocase_char [simp]: "lower_char (nocase_char c) = lower_char c"
  by (auto simp: nocase_char_def lower_char_def Let_def of_char_of)

lemma nocase_lower [simp, strs]: "nocase (js_lower s) = js_lower s"
  by (simp add: nocase_def js_lower_def)

lemma dropWhile_ws_lower: "dropWhile is_ws (map lower_char s) = map lower_char (dropWhile is_ws s)"
  by (simp add: dropWhile_map o_def)

lemma js_trim_lower [strs]: "js_trim (js_lower s) = js_lower (js_trim s)"
  by (simp add: js_trim_def js_lower_def dropWhile_ws_lower rev_map)

lemma dropWhile_rev_idem:
  "dropWhile P (rev (dropWhile P (rev (dropWhile P s)))) = rev (dropWhile P (rev (dropWhile P s)))"
proof (cases "dropWhile P s")
  case Nil
  show ?thesis unfolding Nil by simp
next
  case (Cons c cs)
  then have "\<not> P c" by (metis hd_dropWhile list.distinct(1) list.sel(1))
  then show ?thesis
    using Cons by (auto simp: dropWhile_append)
qed

lemma js_trim_idem [simp, strs]: "js_trim (js_trim s) = js_trim s"
  by (simp add: js_trim_def dropWhile_rev_idem)

lemma set_js_trim: "set (js_trim s) \<subseteq> set s"
  by (auto simp: js_trim_def dest!: set_dropWhileD)

lemma starts_with_Nil [simp]: "starts_with [] s"
  by (simp add: starts_with_def)

lemma starts_with_iff: "starts_with p s \<longleftrightarrow> (\<exists>r. s = p @ r)"
  by (metis append_eq_conv_conj append_take_drop_id starts_with_def)

lemma js_includes_iff: "js_includes p s \<longleftrightarrow> (\<exists>l r. s = l @ p @ r)"
proof (induction s)
  case Nil
  then show ?case by auto
next
  case (Cons c cs)
  have "(\<exists>l r. c # cs = l @ p @ r) \<longleftrightarrow> (\<exists>r. c # cs = p @ r) \<or> (\<exists>l r. cs = l @ p @ r)"
    by (auto simp: Cons_eq_append_conv)
  with Cons show ?case by (simp add: starts_with_iff)
qed

lemma split_on_nonempty [simp]: "split_on d s \<noteq> []"
  by (cases s) (auto split: list.splits)

subsection \<open>SQL pattern matching\<close>

text \<open>
  \<open>s LIKE p ESCAPE e\<close>: \<open>%\<close> stands for any sequence, \<open>_\<close> for one character, the escape
  character takes the next pattern character literally, and letters compare without ASCII case.
  \<open>None\<close> is a \<open>LIKE\<close> without an \<open>ESCAPE\<close> clause.
\<close>

fun sql_like :: "char option \<Rightarrow> string \<Rightarrow> string \<Rightarrow> bool" where
  "sql_like e [] s = (s = [])"
| "sql_like e (p # ps) s =
     (if e = Some p then
        (case ps of [] \<Rightarrow> False
         | q # qs \<Rightarrow> (case s of [] \<Rightarrow> False
             | c # cs \<Rightarrow> nocase_char c = nocase_char q \<and> sql_like e qs cs))
      else if p = CHR ''%'' then
        sql_like e ps s \<or> (case s of [] \<Rightarrow> False | c # cs \<Rightarrow> sql_like e (p # ps) cs)
      else if p = CHR ''_'' then
        (case s of [] \<Rightarrow> False | c # cs \<Rightarrow> sql_like e ps cs)
      else
        (case s of [] \<Rightarrow> False | c # cs \<Rightarrow> nocase_char c = nocase_char p \<and> sql_like e ps cs))"

text \<open>\<open>s.replace(/c/g, r)\<close> for a single character \<open>c\<close>.\<close>

definition replace_all :: "char \<Rightarrow> string \<Rightarrow> string \<Rightarrow> string" where
  "replace_all c r s = concat (map (\<lambda>x. if x = c then r else [x]) s)"

definition backslash :: char where
  "backslash = CHR 0x5C"

text \<open>
  \<open>escapeLike\<close>, which three files of the source repeat: the backslash first, then the two
  wildcards.
\<close>

definition escapeLike :: "string \<Rightarrow> string" where
  "escapeLike s =
     replace_all (CHR ''_'') [backslash, CHR ''_'']
      (replace_all (CHR ''%'') [backslash, CHR ''%'']
       (replace_all backslash [backslash, backslash] s))"

definition escape_char :: "char \<Rightarrow> string" where
  "escape_char x =
     (if x = backslash \<or> x = CHR ''%'' \<or> x = CHR ''_'' then [backslash, x] else [x])"

lemma escapeLike_concat: "escapeLike s = concat (map escape_char s)"
  by (induction s) (auto simp: escapeLike_def replace_all_def escape_char_def backslash_def)

lemma escapeLike_simps [simp]:
  "escapeLike [] = []"
  "escapeLike (x # xs) = escape_char x @ escapeLike xs"
  by (simp_all add: escapeLike_concat)

text \<open>An escaped text followed by \<open>%\<close> matches exactly the strings that start with it.\<close>

lemma like_percent_all: "sql_like (Some backslash) ''%'' s"
  by (induction s) (auto simp: backslash_def)

lemma like_escaped_prefix:
  "sql_like (Some backslash) (escapeLike q @ ''%'') s \<longleftrightarrow> starts_with (nocase q) (nocase s)"
proof (induction q arbitrary: s)
  case Nil
  show ?case by (simp add: like_percent_all nocase_def del: sql_like.simps)
next
  case (Cons x xs)
  show ?case
  proof (cases s)
    case Nil
    then show ?thesis
      by (auto simp: escape_char_def backslash_def nocase_def starts_with_def)
  next
    case (Cons c cs)
    then show ?thesis
      using Cons.IH[of cs]
      by (auto simp: escape_char_def backslash_def nocase_def starts_with_def)
  qed
qed

lemma sql_like_percent:
  "sql_like (Some backslash) (CHR ''%'' # ps) s \<longleftrightarrow>
     sql_like (Some backslash) ps s
       \<or> (case s of [] \<Rightarrow> False | c # cs \<Rightarrow> sql_like (Some backslash) (CHR ''%'' # ps) cs)"
  by (cases s) (simp_all add: backslash_def)

text \<open>
  The search pattern the code builds, \<open>%\<close> escaped text \<open>%\<close>, is a literal substring search
  without ASCII case: no character of the input acts as a wildcard.
\<close>

lemma like_escaped_includes:
  "sql_like (Some backslash) (CHR ''%'' # escapeLike q @ ''%'') s \<longleftrightarrow>
     js_includes (nocase q) (nocase s)"
proof (induction s)
  case Nil
  then show ?case
    by (subst sql_like_percent)
      (auto simp: like_escaped_prefix nocase_def starts_with_def)
next
  case (Cons c cs)
  then show ?case
    by (subst sql_like_percent) (simp add: like_escaped_prefix nocase_def del: sql_like.simps)
qed

subsection \<open>Numbers\<close>

datatype jsnum = Fin rat | PosInf | NegInf | NotANum

fun is_finite :: "jsnum \<Rightarrow> bool" where
  "is_finite (Fin x) = True"
| "is_finite x = False"

definition math_round :: "rat \<Rightarrow> int" where
  "math_round x = \<lfloor>x + 1 / 2\<rfloor>"

text \<open>The ratio the code writes as \<open>d > 0 ? n / d : 0\<close>.\<close>

definition ratio :: "int \<Rightarrow> int \<Rightarrow> rat" where
  "ratio n d = (if d > 0 then of_int n / of_int d else 0)"

lemma ratio_bounds: "0 \<le> n \<Longrightarrow> n \<le> d \<Longrightarrow> 0 \<le> ratio n d \<and> ratio n d \<le> 1"
  by (simp add: ratio_def)


subsection \<open>Dates\<close>

text \<open>
  \<open>Date.prototype.toISOString\<close> on a time in milliseconds: the proleptic Gregorian date of the day,
  and the time of day, each zero-padded. Years outside 0 to 9999 take a sign and six digits.
\<close>

fun digits_rev :: "nat \<Rightarrow> nat \<Rightarrow> string" where
  "digits_rev 0 n = []"
| "digits_rev (Suc w) n = char_of (48 + n mod 10) # digits_rev w (n div 10)"

definition padded :: "nat \<Rightarrow> nat \<Rightarrow> string" where
  "padded w n = rev (digits_rev w n)"

definition civil_of_days :: "int \<Rightarrow> int \<times> int \<times> int" where
  "civil_of_days days =
     (let z = days + 719468;
          era = z div 146097;
          doe = z mod 146097;
          yoe = (doe - doe div 1460 + doe div 36524 - doe div 146096) div 365;
          doy = doe - (365 * yoe + yoe div 4 - yoe div 100);
          mp = (5 * doy + 2) div 153;
          d = doy - (153 * mp + 2) div 5 + 1;
          m = (if mp < 10 then mp + 3 else mp - 9);
          y = yoe + era * 400 + (if m \<le> 2 then 1 else 0)
      in (y, m, d))"

definition iso_year :: "int \<Rightarrow> string" where
  "iso_year y =
     (if 0 \<le> y \<and> y \<le> 9999 then padded 4 (nat y)
      else (if y < 0 then CHR ''-'' else CHR ''+'') # padded 6 (nat \<bar>y\<bar>))"

definition toISOString :: "int \<Rightarrow> string" where
  "toISOString ms =
     (let days = ms div 86400000;
          rest = ms mod 86400000;
          (y, m, d) = civil_of_days days
      in iso_year y @ ''-'' @ padded 2 (nat m) @ ''-'' @ padded 2 (nat d) @ ''T''
         @ padded 2 (nat (rest div 3600000)) @ '':'' @ padded 2 (nat (rest div 60000 mod 60)) @ '':''
         @ padded 2 (nat (rest div 1000 mod 60)) @ ''.'' @ padded 3 (nat (rest mod 1000)) @ ''Z'')"

lemma toISOString_examples:
  "toISOString 0 = ''1970-01-01T00:00:00.000Z''"
  "toISOString 1709210096789 = ''2024-02-29T12:34:56.789Z''"
  "toISOString (- 1) = ''1969-12-31T23:59:59.999Z''"
  by code_simp+

end
