(* ===== verification/Tables.thy ===== *)
theory Tables
  imports Prelude
begin

section \<open>SQL tables as lists of rows\<close>

text \<open>
  An SQL table is the list of its rows in storage order. A statement of the source is translated
  to the list operation that SQL gives it: a \<open>WHERE\<close> clause is \<open>filter\<close>, an \<open>UPDATE\<close> is \<open>map\<close>,
  an \<open>INSERT\<close> appends, an \<open>ORDER BY\<close> is a stable insertion sort, \<open>LIMIT\<close>/\<open>OFFSET\<close> are
  \<open>take\<close>/\<open>drop\<close> and \<open>GROUP BY\<close> is \<open>group_by\<close>. The locales are the contracts the repositories
  give their clients: keyed rows, accumulating counters, and retention.
\<close>

named_theorems tbl "facts on tables: filtering, keyed update, keyed delete"

subsection \<open>Ordering, pagination\<close>

text \<open>
  \<open>ORDER BY\<close> and \<open>Array.prototype.sort\<close>: stable insertion by a comparison that says which of two
  rows may stand first.
\<close>

fun insert_by :: "('a \<Rightarrow> 'a \<Rightarrow> bool) \<Rightarrow> 'a \<Rightarrow> 'a list \<Rightarrow> 'a list" where
  "insert_by le x [] = [x]"
| "insert_by le x (y # ys) = (if le x y then x # y # ys else y # insert_by le x ys)"

definition order_by :: "('a \<Rightarrow> 'a \<Rightarrow> bool) \<Rightarrow> 'a list \<Rightarrow> 'a list" where
  "order_by le xs = foldr (insert_by le) xs []"

lemma mset_insert_by [simp, tbl]: "mset (insert_by le x xs) = add_mset x (mset xs)"
  by (induction xs) auto

lemma mset_order_by [simp, tbl]: "mset (order_by le xs) = mset xs"
  by (induction xs) (simp_all add: order_by_def)

lemma set_order_by [simp, tbl]: "set (order_by le xs) = set xs"
  by (metis mset_order_by set_mset_mset)

lemma set_insert_by [simp, tbl]: "set (insert_by le x xs) = insert x (set xs)"
  by (metis mset_insert_by set_mset_mset set_mset_add_mset_insert)

lemma length_order_by [simp, tbl]: "length (order_by le xs) = length xs"
  by (metis mset_order_by size_mset)

lemma distinct_order_by [simp, tbl]: "distinct (order_by le xs) = distinct xs"
  by (metis mset_eq_imp_distinct_iff mset_order_by)

lemma sorted_insert_by:
  assumes total: "\<And>a b. le a b \<or> le b a" and trans: "\<And>a b c. le a b \<Longrightarrow> le b c \<Longrightarrow> le a c"
  shows "sorted_wrt le xs \<Longrightarrow> sorted_wrt le (insert_by le x xs)"
proof (induction xs)
  case Nil
  then show ?case by simp
next
  case (Cons y ys)
  then show ?case
    using total[of x y] by (auto intro: trans)
qed

lemma sorted_order_by:
  assumes "\<And>a b. le a b \<or> le b a" and "\<And>a b c. le a b \<Longrightarrow> le b c \<Longrightarrow> le a c"
  shows "sorted_wrt le (order_by le xs)"
  by (induction xs) (simp_all add: order_by_def sorted_insert_by[of le, OF assms])

text \<open>\<open>LIMIT l OFFSET o\<close> with a missing limit meaning all rows.\<close>

definition sql_page :: "int option \<Rightarrow> int \<Rightarrow> 'a list \<Rightarrow> 'a list" where
  "sql_page l off xs =
     (let ys = drop (nat off) xs in case l of None \<Rightarrow> ys | Some n \<Rightarrow> take (nat n) ys)"

lemma sql_page_all [simp]: "sql_page None 0 xs = xs"
  by (simp add: sql_page_def)

lemma set_sql_page: "set (sql_page l off xs) \<subseteq> set xs"
  by (auto simp: sql_page_def Let_def split: option.splits dest: in_set_dropD in_set_takeD)

lemma length_sql_page: "0 \<le> n \<Longrightarrow> int (length (sql_page (Some n) off xs)) \<le> n"
  by (simp add: sql_page_def Let_def)

lemma sorted_sql_page: "sorted_wrt le xs \<Longrightarrow> sorted_wrt le (sql_page l off xs)"
  by (auto simp: sql_page_def Let_def split: option.splits intro: sorted_wrt_drop sorted_wrt_take)

subsection \<open>Lists\<close>

text \<open>\<open>Array.from(new Set(xs))\<close>: the first occurrence of every element, in order.\<close>

fun uniq :: "'a list \<Rightarrow> 'a list" where
  "uniq [] = []"
| "uniq (x # xs) = x # uniq (filter (\<lambda>y. y \<noteq> x) xs)"

lemma set_uniq [simp, tbl]: "set (uniq xs) = set xs"
proof (induction xs rule: uniq.induct)
  case (2 x xs)
  then show ?case by auto
qed simp

lemma distinct_uniq [simp, tbl]: "distinct (uniq xs)"
  by (induction xs rule: uniq.induct) auto

lemma uniq_distinct: "distinct xs \<Longrightarrow> uniq xs = xs"
proof (induction xs)
  case (Cons x xs)
  then have "filter (\<lambda>y. y \<noteq> x) xs = xs" by (auto intro: filter_True)
  with Cons show ?case by simp
qed simp

definition sum_of :: "('a \<Rightarrow> int) \<Rightarrow> 'a list \<Rightarrow> int" where
  "sum_of f xs = sum_list (map f xs)"

lemma sum_of_simps [simp]:
  "sum_of f [] = 0"
  "sum_of f (x # xs) = f x + sum_of f xs"
  "sum_of f (xs @ ys) = sum_of f xs + sum_of f ys"
  by (simp_all add: sum_of_def)

lemma sum_of_filter_split: "sum_of f xs = sum_of f (filter P xs) + sum_of f (filter (\<lambda>x. \<not> P x) xs)"
  by (induction xs) auto

lemma sum_of_mono: "(\<And>x. x \<in> set xs \<Longrightarrow> f x \<le> g x) \<Longrightarrow> sum_of f xs \<le> sum_of g xs"
  by (induction xs) (auto intro: add_mono)

lemma sum_of_nonneg: "(\<And>x. x \<in> set xs \<Longrightarrow> 0 \<le> f x) \<Longrightarrow> 0 \<le> sum_of f xs"
  by (induction xs) auto

lemma sum_of_add: "sum_of (\<lambda>x. f x + g x) xs = sum_of f xs + sum_of g xs"
  by (induction xs) auto

lemma sum_of_map [simp]: "sum_of f (map g xs) = sum_of (f \<circ> g) xs"
  by (simp add: sum_of_def)

lemma sum_of_cong: "(\<And>x. x \<in> set xs \<Longrightarrow> f x = g x) \<Longrightarrow> sum_of f xs = sum_of g xs"
  by (induction xs) auto

lemma sum_of_mset_eq: "mset xs = mset ys \<Longrightarrow> sum_of f xs = sum_of f ys"
  by (metis mset_map sum_mset_sum_list sum_of_def)

subsection \<open>Keyed tables\<close>

text \<open>\<open>x ?? d\<close>, and \<open>UPDATE ... SET ... WHERE\<close>.\<close>

definition or_else :: "'a option \<Rightarrow> 'a \<Rightarrow> 'a" where
  "or_else x d = (case x of None \<Rightarrow> d | Some y \<Rightarrow> y)"

definition update_where :: "('a \<Rightarrow> bool) \<Rightarrow> ('a \<Rightarrow> 'a) \<Rightarrow> 'a list \<Rightarrow> 'a list" where
  "update_where p f t = map (\<lambda>d. if p d then f d else d) t"

lemma or_else_simps [simp]: "or_else None d = d" "or_else (Some y) d = y"
  by (simp_all add: or_else_def)

lemma map_update_where [tbl]:
  "(\<And>r. key (f r) = key r) \<Longrightarrow> map key (update_where p f t) = map key t"
  by (simp add: update_where_def o_def if_distrib)

lemma length_update_where [simp, tbl]: "length (update_where p f t) = length t"
  by (simp add: update_where_def)

lemma set_update_where: "r \<in> set (update_where p f t) \<Longrightarrow> r \<in> set t \<or> (\<exists>r' \<in> set t. p r' \<and> r = f r')"
  by (auto simp: update_where_def split: if_splits)

lemma update_where_none [tbl]: "\<forall>r \<in> set t. \<not> p r \<Longrightarrow> update_where p f t = t"
  by (induction t) (auto simp: update_where_def)

lemma update_where_update_where:
  "(\<And>r. p (f r) = p r) \<Longrightarrow> update_where p g (update_where p f t) = update_where p (g \<circ> f) t"
  by (simp add: update_where_def)

lemma find_key_update_where [tbl]:
  "(\<And>r. key (f r) = key r) \<Longrightarrow>
     List.find (\<lambda>r. key r = k') (update_where (\<lambda>r. key r = k) f t) =
       (if k' = k then map_option f (List.find (\<lambda>r. key r = k) t)
        else List.find (\<lambda>r. key r = k') t)"
  by (induction t) (auto simp: update_where_def)

lemma find_key_None: "(List.find (\<lambda>r. key r = k) t = None) = (k \<notin> set (map key t))"
  by (auto simp: find_None_iff)

lemma find_key_Some: "List.find (\<lambda>r. key r = k) t = Some r \<Longrightarrow> r \<in> set t \<and> key r = k"
  by (auto simp: find_Some_iff)

lemma find_key_filter [tbl]:
  "List.find (\<lambda>r. key r = k') (filter (\<lambda>r. key r \<noteq> k) t) =
     (if k' = k then None else List.find (\<lambda>r. key r = k') t)"
  by (induction t) auto

lemma find_append [tbl]:
  "List.find P (xs @ ys) = (case List.find P xs of None \<Rightarrow> List.find P ys | Some r \<Rightarrow> Some r)"
  by (induction xs) auto

lemma find_key_mem:
  "distinct (map key t) \<Longrightarrow> r \<in> set t \<Longrightarrow> List.find (\<lambda>x. key x = key r) t = Some r"
  by (induction t) (auto simp: image_iff)

text \<open>
  What a route promises itself of a repository: a lookup by key, and how an insertion, a keyed
  update and a keyed delete change what is found.
\<close>

locale keyed_rows =
  fixes key :: "'row \<Rightarrow> 'k"
    and keys :: "'t \<Rightarrow> 'k list"
    and lookup :: "'t \<Rightarrow> 'k \<Rightarrow> 'row option"
    and modify :: "'k \<Rightarrow> ('row \<Rightarrow> 'row) \<Rightarrow> 't \<Rightarrow> 't"
    and add :: "'row \<Rightarrow> 't \<Rightarrow> 't"
  assumes lookup_key: "lookup t k = Some r \<Longrightarrow> key r = k"
    and lookup_None: "(lookup t k = None) = (k \<notin> set (keys t))"
    and keys_modify: "(\<And>r. key (f r) = key r) \<Longrightarrow> keys (modify k f t) = keys t"
    and lookup_modify: "(\<And>r. key (f r) = key r) \<Longrightarrow>
          lookup (modify k f t) k' = (if k' = k then map_option f (lookup t k) else lookup t k')"
    and keys_add: "keys (add r t) = keys t @ [key r]"
    and lookup_add: "lookup (add r t) k =
          (case lookup t k of None \<Rightarrow> if key r = k then Some r else None | Some x \<Rightarrow> Some x)"
begin

lemma lookup_Some_in: "lookup t k = Some r \<Longrightarrow> k \<in> set (keys t)"
  using lookup_None[of t k] by auto

lemma in_keys_lookup: "k \<in> set (keys t) \<Longrightarrow> \<exists>r. lookup t k = Some r \<and> key r = k"
  using lookup_None[of t k] lookup_key[of t k] by auto

lemma distinct_modify:
  "(\<And>r. key (f r) = key r) \<Longrightarrow> distinct (keys (modify k f t)) = distinct (keys t)"
  by (simp add: keys_modify)

lemma distinct_add: "distinct (keys t) \<Longrightarrow> lookup t (key r) = None \<Longrightarrow> distinct (keys (add r t))"
  by (simp add: keys_add lookup_None)

lemma modify_frame:
  "(\<And>r. key (f r) = key r) \<Longrightarrow> k' \<noteq> k \<Longrightarrow> lookup (modify k f t) k' = lookup t k'"
  by (simp add: lookup_modify)

lemma modify_undo:
  assumes "\<And>r. key (f r) = key r" and "\<And>r. key (g r) = key r"
    and "\<And>r. lookup t k = Some r \<Longrightarrow> obs (g (f r)) = obs r"
  shows "map_option obs (lookup (modify k g (modify k f t)) k') = map_option obs (lookup t k')"
  using assms by (cases "lookup t k") (auto simp: lookup_modify)

end

locale repository = keyed_rows key keys lookup modify add
  for key :: "'row \<Rightarrow> 'k"
    and keys :: "'t \<Rightarrow> 'k list"
    and lookup :: "'t \<Rightarrow> 'k \<Rightarrow> 'row option"
    and modify :: "'k \<Rightarrow> ('row \<Rightarrow> 'row) \<Rightarrow> 't \<Rightarrow> 't"
    and add :: "'row \<Rightarrow> 't \<Rightarrow> 't" +
  fixes erase :: "'k \<Rightarrow> 't \<Rightarrow> 't"
  assumes keys_erase: "keys (erase k t) = filter (\<lambda>x. x \<noteq> k) (keys t)"
    and lookup_erase: "lookup (erase k t) k' = (if k' = k then None else lookup t k')"
begin

lemma distinct_erase: "distinct (keys t) \<Longrightarrow> distinct (keys (erase k t))"
  by (simp add: keys_erase)

lemma erase_absent_keys: "lookup t k = None \<Longrightarrow> keys (erase k t) = keys t"
  by (simp add: keys_erase lookup_None filter_id_conv) (metis (full_types))

lemma erase_add:
  "lookup t (key r) = None \<Longrightarrow> lookup (erase (key r) (add r t)) k = lookup t k"
  by (simp add: lookup_erase lookup_add split: option.splits)

end

text \<open>
  Rows that carry a version, under operations that never remove a row nor lower a version: whoever
  holds an older version than the row once had is refused for good.
\<close>

locale versioned_rows =
  fixes lookup :: "'t \<Rightarrow> 'k \<Rightarrow> 'row option"
    and version :: "'row \<Rightarrow> int"
    and step :: "'t \<Rightarrow> 't \<Rightarrow> bool"
  assumes step_version: "step t t' \<Longrightarrow> lookup t k = Some r \<Longrightarrow>
      \<exists>r'. lookup t' k = Some r' \<and> version r \<le> version r'"
begin

lemma steps_version:
  "step\<^sup>*\<^sup>* t t' \<Longrightarrow> lookup t k = Some r \<Longrightarrow>
     \<exists>r'. lookup t' k = Some r' \<and> version r \<le> version r'"
proof (induction rule: rtranclp_induct)
  case base
  then show ?case by auto
next
  case (step u v)
  then obtain r' where "lookup u k = Some r'" "version r \<le> version r'" by auto
  with step_version[OF step(2)] show ?case by (meson order_trans)
qed

lemma stale_forever:
  "step\<^sup>*\<^sup>* t t' \<Longrightarrow> lookup t k = Some r \<Longrightarrow> v < version r \<Longrightarrow> lookup t' k = Some r' \<Longrightarrow> version r' \<noteq> v"
  using steps_version[of t t' k r] by auto

end

subsection \<open>Grouping\<close>

text \<open>
  \<open>GROUP BY\<close>: the keys in the order of their first rows (SQL leaves the order open), each with
  its rows.
\<close>

definition group_by :: "('a \<Rightarrow> 'k) \<Rightarrow> 'a list \<Rightarrow> ('k \<times> 'a list) list" where
  "group_by key xs = map (\<lambda>k. (k, filter (\<lambda>x. key x = k) xs)) (uniq (map key xs))"

definition avg_of :: "('a \<Rightarrow> rat) \<Rightarrow> 'a list \<Rightarrow> rat" where
  "avg_of f xs = (if xs = [] then 0 else sum_list (map f xs) / of_nat (length xs))"

text \<open>Integer division of SQL, which truncates toward zero.\<close>

definition sql_quot :: "int \<Rightarrow> int \<Rightarrow> int" where
  "sql_quot a b = (if a < 0 then - ((- a) div b) else a div b)"

lemma filter_uniq: "filter P (uniq xs) = uniq (filter P xs)"
proof (induction xs rule: uniq.induct)
  case (2 x xs)
  have "filter P (filter (\<lambda>y. y \<noteq> x) xs) = filter (\<lambda>y. y \<noteq> x) (filter P xs)"
    by (simp add: filter_filter conj_commute)
  moreover have "filter (\<lambda>y. y \<noteq> x) (filter P xs) = filter P xs" if "\<not> P x"
    using that by (auto intro!: filter_cong)
  ultimately show ?case using 2 by simp
qed simp

lemma keys_group_by [simp, tbl]: "map fst (group_by key xs) = uniq (map key xs)"
  by (simp add: group_by_def o_def)

lemma distinct_group_by [simp, tbl]: "distinct (map fst (group_by key xs))"
  by simp

lemma distinct_map_order_by [simp, tbl]: "distinct (map f (order_by le xs)) = distinct (map f xs)"
  by (metis mset_eq_imp_distinct_iff mset_map mset_order_by)

lemma sorted_groups:
  "sorted_wrt (\<lambda>x y. fst x < fst y) (order_by (\<lambda>x y. fst x \<le> fst y) (group_by key xs))"
  for key :: "'a \<Rightarrow> 'k :: linorder"
proof -
  let ?O = "order_by (\<lambda>x y. fst x \<le> fst y) (group_by key xs)"
  have "sorted_wrt (\<lambda>x y. fst x \<le> fst y) ?O" by (rule sorted_order_by) auto
  then have "sorted (map fst ?O)" by (simp add: sorted_map)
  moreover have "distinct (map fst ?O)" unfolding distinct_map_order_by by simp
  ultimately have "sorted_wrt (<) (map fst ?O)" unfolding strict_sorted_iff by blast
  then show ?thesis unfolding sorted_wrt_map .
qed

lemma group_by_in: "(k, g) \<in> set (group_by key xs) \<longleftrightarrow> k \<in> key ` set xs \<and> g = filter (\<lambda>x. key x = k) xs"
  by (auto simp: group_by_def)

lemma group_by_nonempty: "(k, g) \<in> set (group_by key xs) \<Longrightarrow> g \<noteq> []"
  by (auto simp: group_by_in filter_empty_conv)

lemma sum_of_partition:
  "distinct ks \<Longrightarrow> key ` set xs \<subseteq> set ks \<Longrightarrow>
     sum_of (\<lambda>k. sum_of f (filter (\<lambda>x. key x = k) xs)) ks = sum_of f xs"
proof (induction ks arbitrary: xs)
  case (Cons k ks)
  let ?ys = "filter (\<lambda>x. key x \<noteq> k) xs"
  have "sum_of (\<lambda>j. sum_of f (filter (\<lambda>x. key x = j) xs)) ks =
        sum_of (\<lambda>j. sum_of f (filter (\<lambda>x. key x = j) ?ys)) ks"
  proof (rule sum_of_cong)
    fix j assume "j \<in> set ks"
    with Cons.prems have "j \<noteq> k" by auto
    then show "sum_of f (filter (\<lambda>x. key x = j) xs) = sum_of f (filter (\<lambda>x. key x = j) ?ys)"
      by (auto intro!: arg_cong[where f = "sum_of f"] filter_cong simp: filter_filter)
  qed
  also have "\<dots> = sum_of f ?ys"
    using Cons.prems by (intro Cons.IH) auto
  finally show ?case
    using sum_of_filter_split[of f xs "\<lambda>x. key x = k"] by simp
qed simp

lemma sum_of_group_by: "sum_of (\<lambda>(k, g). sum_of f g) (group_by key xs) = sum_of f xs"
  using sum_of_partition[of "uniq (map key xs)" key xs f]
  by (simp add: group_by_def o_def)

lemma filter_group_by:
  assumes "\<And>x. P (key x) = Q x"
  shows "filter (\<lambda>kg. P (fst kg)) (group_by key xs) = group_by key (filter Q xs)"
proof -
  have u: "filter P (uniq (map key xs)) = uniq (map key (filter Q xs))"
    by (simp add: filter_uniq filter_map o_def assms)
  have "filter (\<lambda>kg. P (fst kg)) (group_by key xs) =
        map (\<lambda>k. (k, filter (\<lambda>x. key x = k) xs)) (filter P (uniq (map key xs)))"
    by (simp add: group_by_def filter_map o_def)
  also have "\<dots> = map (\<lambda>k. (k, filter (\<lambda>x. key x = k) (filter Q xs))) (filter P (uniq (map key xs)))"
    by (rule map_cong) (auto simp: assms[symmetric] intro!: filter_cong)
  finally show ?thesis by (simp add: u group_by_def)
qed

lemma filter_insert_by:
  assumes trans: "\<And>a b c. le a b \<Longrightarrow> le b c \<Longrightarrow> le a c"
  shows "sorted_wrt le ys \<Longrightarrow>
    filter P (insert_by le x ys) = (if P x then insert_by le x (filter P ys) else filter P ys)"
proof (induction ys)
  case (Cons y ys)
  have "insert_by le x (filter P ys) = x # filter P ys" if "le x y"
  proof (cases "filter P ys")
    case (Cons z zs)
    then have "z \<in> set ys" by (metis filter_set list.set_intros(1) mem_Collect_eq set_filter)
    then have "le y z" using Cons.prems by simp
    with that have "le x z" by (rule trans)
    with Cons show ?thesis by simp
  qed simp
  with Cons show ?case by auto
qed simp

lemma filter_order_by:
  assumes "\<And>a b. le a b \<or> le b a" and "\<And>a b c. le a b \<Longrightarrow> le b c \<Longrightarrow> le a c"
  shows "filter P (order_by le xs) = order_by le (filter P xs)"
proof (induction xs)
  case (Cons x xs)
  have s: "sorted_wrt le (foldr (insert_by le) xs [])"
    using sorted_order_by[of le xs, OF assms] by (simp add: order_by_def)
  show ?case
    using Cons filter_insert_by[of le, OF assms(2) s, where P = P and x = x]
    by (simp add: order_by_def)
qed (simp add: order_by_def)

lemma insert_by_cong:
  "(\<And>a b. a \<in> insert x (set ys) \<Longrightarrow> b \<in> insert x (set ys) \<Longrightarrow> le a b = le' a b) \<Longrightarrow>
     insert_by le x ys = insert_by le' x ys"
  by (induction ys) auto

lemma order_by_cong:
  "(\<And>a b. a \<in> set xs \<Longrightarrow> b \<in> set xs \<Longrightarrow> le a b = le' a b) \<Longrightarrow> order_by le xs = order_by le' xs"
proof (induction xs)
  case (Cons x xs)
  then have e: "foldr (insert_by le) xs [] = foldr (insert_by le') xs []"
    by (simp add: order_by_def)
  have "set (foldr (insert_by le') xs []) = set xs"
    using set_order_by[of le' xs] by (simp add: order_by_def)
  then show ?case
    using Cons.prems unfolding order_by_def by (simp add: e) (rule insert_by_cong, auto)
qed (simp add: order_by_def)

lemma map_insert_by:
  "(\<And>a b. le' (f a) (f b) = le a b) \<Longrightarrow> map f (insert_by le x ys) = insert_by le' (f x) (map f ys)"
  by (induction ys) auto

lemma map_order_by:
  "(\<And>a b. le' (f a) (f b) = le a b) \<Longrightarrow> map f (order_by le xs) = order_by le' (map f xs)"
  by (induction xs) (simp_all add: order_by_def map_insert_by[where le' = le'])

subsection \<open>Contracts of the stores\<close>

text \<open>
  A store of counters that accumulates: over any set of keys, a \<open>put\<close> adds exactly the amount of
  its row.
\<close>

locale counter_store =
  fixes key :: "'row \<Rightarrow> 'k"
    and amount :: "'c \<Rightarrow> 'row \<Rightarrow> int"
    and total :: "'c \<Rightarrow> ('k \<Rightarrow> bool) \<Rightarrow> 't \<Rightarrow> int"
    and put :: "'row \<Rightarrow> 't \<Rightarrow> 't"
    and ok :: "'t \<Rightarrow> 'row \<Rightarrow> bool"
  assumes total_put: "ok t r \<Longrightarrow> total c P (put r t) = total c P t + (if P (key r) then amount c r else 0)"
    and ok_put: "ok t r \<Longrightarrow> ok t r' \<Longrightarrow> ok (put r t) r'"
begin

lemma ok_fold: "\<forall>r \<in> set rs. ok t r \<Longrightarrow> ok t r' \<Longrightarrow> ok (foldl (\<lambda>t r. put r t) t rs) r'"
proof (induction rs arbitrary: t)
  case (Cons r rs)
  then show ?case by (simp add: ok_put)
qed simp

lemma total_fold:
  "\<forall>r \<in> set rs. ok t r \<Longrightarrow>
     total c P (foldl (\<lambda>t r. put r t) t rs) =
       total c P t + sum_of (amount c) (filter (\<lambda>r. P (key r)) rs)"
proof (induction rs arbitrary: t)
  case (Cons r rs)
  then have "\<forall>r' \<in> set rs. ok (put r t) r'" by (simp add: ok_put)
  then show ?case using Cons by (simp add: total_put)
qed simp

lemma total_fold_perm:
  assumes "\<forall>r \<in> set rs. ok t r" and "mset rs = mset rs'"
  shows "total c P (foldl (\<lambda>t r. put r t) t rs) = total c P (foldl (\<lambda>t r. put r t) t rs')"
proof -
  have "\<forall>r \<in> set rs'. ok t r" using assms by (metis set_mset_mset)
  moreover have "mset (filter (\<lambda>r. P (key r)) rs) = mset (filter (\<lambda>r. P (key r)) rs')"
    using assms(2) by simp
  ultimately show ?thesis
    using assms(1) by (simp add: total_fold sum_of_mset_eq[of "filter (\<lambda>r. P (key r)) rs"])
qed

end

text \<open>
  A store with retention: \<open>prune c\<close> removes the rows stamped before \<open>c\<close> and says how many.
\<close>

locale retention_store =
  fixes stamp :: "'row \<Rightarrow> int"
    and prune :: "int \<Rightarrow> 'row list \<Rightarrow> 'row list \<times> nat"
  assumes prune_rows: "fst (prune c t) = filter (\<lambda>r. c \<le> stamp r) t"
    and prune_count: "snd (prune c t) + length (fst (prune c t)) = length t"
begin

lemma prune_keeps: "r \<in> set (fst (prune c t)) \<longleftrightarrow> r \<in> set t \<and> c \<le> stamp r"
  by (simp add: prune_rows)

lemma prune_removed: "snd (prune c t) = length (filter (\<lambda>r. stamp r < c) t)"
  using prune_count[of c t] sum_length_filter_compl[of "\<lambda>r. stamp r < c" t]
  by (simp add: prune_rows not_less)

lemma prune_prune: "c \<le> c' \<Longrightarrow> fst (prune c' (fst (prune c t))) = fst (prune c' t)"
  by (auto simp: prune_rows filter_filter intro!: filter_cong)

lemma prune_idem: "snd (prune c (fst (prune c t))) = 0"
  by (simp add: prune_removed prune_rows filter_empty_conv)

lemma prune_window: "(\<And>r. W r \<Longrightarrow> c \<le> stamp r) \<Longrightarrow> filter W (fst (prune c t)) = filter W t"
  by (auto simp: prune_rows filter_filter intro!: filter_cong)

end

end
