(* ===== verification/Pagination.thy ===== *)
theory Pagination
  imports Tables
begin

section \<open>Numbers from outside, and the pagination clamps\<close>

text \<open>
  \<open>services/admin-server/src/db/pagination.ts\<close>: \<open>clampInt\<close>, \<open>clampOffset\<close> and \<open>clampOnly\<close>, on
  primitive JavaScript values, with the JavaScript \<open>Number\<close> conversion they and several routes
  call. The results are exact rationals.
\<close>

datatype jsprim = Undef | Null | Bool bool | Num jsnum | Str string

subsection \<open>The conversion \<open>Number\<close>\<close>

definition digit_val :: "char \<Rightarrow> nat" where
  "digit_val c =
     (let n = (of_char c :: nat)
      in if 48 \<le> n \<and> n \<le> 57 then n - 48
         else if 97 \<le> n \<and> n \<le> 102 then n - 87
         else if 65 \<le> n \<and> n \<le> 70 then n - 55
         else 16)"

definition digits_val :: "nat \<Rightarrow> string \<Rightarrow> nat" where
  "digits_val base s = foldl (\<lambda>a c. a * base + digit_val c) 0 s"

definition radix_literal :: "nat \<Rightarrow> string \<Rightarrow> jsnum" where
  "radix_literal base s =
     (if s \<noteq> [] \<and> list_all (\<lambda>c. digit_val c < base) s then Fin (of_nat (digits_val base s))
      else NotANum)"

definition pow10 :: "int \<Rightarrow> rat" where
  "pow10 k = (if 0 \<le> k then 10 ^ nat k else 1 / 10 ^ nat (- k))"

definition exponent_part :: "string \<Rightarrow> int option" where
  "exponent_part s =
     (case s of
        [] \<Rightarrow> Some 0
      | c # r \<Rightarrow>
          if c = CHR ''e'' \<or> c = CHR ''E'' then
            (let neg = (case r of d # _ \<Rightarrow> d = CHR ''-'' | [] \<Rightarrow> False);
                 ds = (case r of d # r' \<Rightarrow> if d = CHR ''-'' \<or> d = CHR ''+'' then r' else r | [] \<Rightarrow> [])
             in if ds \<noteq> [] \<and> list_all is_digit ds
                then Some ((if neg then - 1 else 1) * int (digits_val 10 ds)) else None)
          else None)"

definition decimal_literal :: "string \<Rightarrow> jsnum" where
  "decimal_literal s =
     (if s = ''Infinity'' then PosInf
      else
        (let ip = takeWhile is_digit s;
             r1 = dropWhile is_digit s;
             dot = (case r1 of c # _ \<Rightarrow> c = CHR ''.'' | [] \<Rightarrow> False);
             fp = (if dot then takeWhile is_digit (tl r1) else []);
             r2 = (if dot then dropWhile is_digit (tl r1) else r1)
         in if ip = [] \<and> fp = [] then NotANum
            else (case exponent_part r2 of
                    None \<Rightarrow> NotANum
                  | Some e \<Rightarrow>
                      Fin (of_nat (digits_val 10 (ip @ fp)) * pow10 (e - int (length fp))))))"

fun negate_num :: "jsnum \<Rightarrow> jsnum" where
  "negate_num (Fin x) = Fin (- x)"
| "negate_num PosInf = NegInf"
| "negate_num NegInf = PosInf"
| "negate_num NotANum = NotANum"

definition number_of_string :: "string \<Rightarrow> jsnum" where
  "number_of_string s =
     (let t = js_trim s
      in if t = [] then Fin 0
         else if starts_with ''0x'' t \<or> starts_with ''0X'' t then radix_literal 16 (drop 2 t)
         else if starts_with ''0o'' t \<or> starts_with ''0O'' t then radix_literal 8 (drop 2 t)
         else if starts_with ''0b'' t \<or> starts_with ''0B'' t then radix_literal 2 (drop 2 t)
         else if hd t = CHR ''-'' then negate_num (decimal_literal (tl t))
         else if hd t = CHR ''+'' then decimal_literal (tl t)
         else decimal_literal t)"

fun js_Number :: "jsprim \<Rightarrow> jsnum" where
  "js_Number Undef = NotANum"
| "js_Number Null = Fin 0"
| "js_Number (Bool b) = Fin (if b then 1 else 0)"
| "js_Number (Num x) = x"
| "js_Number (Str s) = number_of_string s"

subsection \<open>The clamps\<close>

record clamp_opts =
  co_min :: "int option"
  co_max :: int
  co_fallback :: int

definition clampOnly :: "int \<Rightarrow> int \<Rightarrow> int \<Rightarrow> int" where
  "clampOnly n mn mx = min (max n mn) mx"

definition clampInt :: "jsprim \<Rightarrow> clamp_opts \<Rightarrow> int" where
  "clampInt raw opts =
     (let mn = (case co_min opts of None \<Rightarrow> 1 | Some m \<Rightarrow> m)
      in if raw = Undef \<or> raw = Null then clampOnly (co_fallback opts) mn (co_max opts)
         else (case js_Number raw of
                 Fin x \<Rightarrow> clampOnly \<lfloor>x\<rfloor> mn (co_max opts)
               | _ \<Rightarrow> clampOnly (co_fallback opts) mn (co_max opts)))"

definition clampOffset :: "jsprim \<Rightarrow> int \<Rightarrow> int" where
  "clampOffset raw mx = clampInt raw \<lparr>co_min = Some 0, co_max = mx, co_fallback = 0\<rparr>"

lemma clampOnly_bounds: "mn \<le> mx \<Longrightarrow> mn \<le> clampOnly n mn mx \<and> clampOnly n mn mx \<le> mx"
  by (simp add: clampOnly_def)

lemma clampOnly_id: "mn \<le> n \<Longrightarrow> n \<le> mx \<Longrightarrow> clampOnly n mn mx = n"
  by (simp add: clampOnly_def)

lemma clampInt_is_clampOnly: "\<exists>n. clampInt raw opts =
    clampOnly n (case co_min opts of None \<Rightarrow> 1 | Some m \<Rightarrow> m) (co_max opts)"
  by (auto simp: clampInt_def Let_def split: jsnum.splits)

lemma clampInt_range:
  assumes "(case co_min opts of None \<Rightarrow> 1 | Some m \<Rightarrow> m) \<le> co_max opts"
  shows "(case co_min opts of None \<Rightarrow> 1 | Some m \<Rightarrow> m) \<le> clampInt raw opts"
    and "clampInt raw opts \<le> co_max opts"
  using clampInt_is_clampOnly[of raw opts] clampOnly_bounds[OF assms] by auto

lemma clampOffset_range: "0 \<le> mx \<Longrightarrow> 0 \<le> clampOffset raw mx \<and> clampOffset raw mx \<le> mx"
  using clampInt_range[of "\<lparr>co_min = Some 0, co_max = mx, co_fallback = 0\<rparr>" raw]
  by (simp add: clampOffset_def)

lemma number_of_string_examples:
  "number_of_string '' 42 '' = Fin 42"
  "number_of_string '''' = Fin 0"
  "number_of_string ''-1.5e1'' = Fin (-15)"
  "number_of_string ''0x1F'' = Fin 31"
  "number_of_string ''abc'' = NotANum"
  by code_simp+

end
