(* ===== verification/Domain_Repo.thy ===== *)
theory Domain_Repo
  imports Pagination
begin

section \<open>The domain repository\<close>

text \<open>
  \<open>services/admin-server/src/db/domain-repo.ts\<close>: the \<open>domains\<close> table and the operations of
  \<open>DomainRepository\<close>. The table is the list of its rows; \<open>now\<close> is the Unix time in seconds that
  SQLite's \<open>strftime('%s', 'now')\<close> yields during the statement.
\<close>

record domain =
  d_host :: string
  d_origin :: string
  d_enabled :: int
  d_description :: string
  d_created_at :: int
  d_updated_at :: int
  d_stale_if_error_secs :: "int option"
  d_coalesce_capacity :: "int option"

type_synonym domains = "domain list"

definition hosts_of :: "domains \<Rightarrow> string list" where
  "hosts_of t = map d_host t"

subsection \<open>Single rows\<close>

definition findByHost :: "domains \<Rightarrow> string \<Rightarrow> domain option" where
  "findByHost t h = List.find (\<lambda>d. d_host d = h) t"

text \<open>\<open>INSERT ... ON CONFLICT(host) DO UPDATE\<close>: the description of the conflicting row is
  overwritten too, with the empty string when the caller passes none.\<close>

definition new_domain :: "int \<Rightarrow> string \<Rightarrow> string \<Rightarrow> string \<Rightarrow> domain" where
  "new_domain now h orig desc =
     \<lparr>d_host = h, d_origin = orig, d_enabled = 1, d_description = desc,
      d_created_at = now, d_updated_at = now,
      d_stale_if_error_secs = None, d_coalesce_capacity = None\<rparr>"

definition upsert :: "int \<Rightarrow> string \<Rightarrow> string \<Rightarrow> string option \<Rightarrow> domains \<Rightarrow> domains" where
  "upsert now h orig desc t =
     (let de = (case desc of None \<Rightarrow> [] | Some x \<Rightarrow> x)
      in if h \<in> set (hosts_of t)
         then update_where (\<lambda>d. d_host d = h)
                (\<lambda>d. d\<lparr>d_origin := orig, d_description := de, d_updated_at := now\<rparr>) t
         else t @ [new_domain now h orig de])"

definition seedIfMissing :: "int \<Rightarrow> string \<Rightarrow> string \<Rightarrow> string option \<Rightarrow> domains \<Rightarrow> domains" where
  "seedIfMissing now h orig desc t =
     (if h \<in> set (hosts_of t) then t
      else t @ [new_domain now h orig (case desc of None \<Rightarrow> [] | Some x \<Rightarrow> x)])"

text \<open>\<open>update\<close> sets the fields that are present; a nullable field is present with value \<open>None\<close>
  when the caller passes \<open>null\<close>.\<close>

record domain_patch =
  p_origin :: "string option"
  p_enabled :: "int option"
  p_description :: "string option"
  p_stale_if_error_secs :: "int option option"
  p_coalesce_capacity :: "int option option"

definition empty_patch :: domain_patch where
  "empty_patch = \<lparr>p_origin = None, p_enabled = None, p_description = None,
     p_stale_if_error_secs = None, p_coalesce_capacity = None\<rparr>"

definition apply_patch :: "domain_patch \<Rightarrow> domain \<Rightarrow> domain" where
  "apply_patch p d =
     d\<lparr>d_origin := or_else (p_origin p) (d_origin d),
       d_enabled := or_else (p_enabled p) (d_enabled d),
       d_description := or_else (p_description p) (d_description d),
       d_stale_if_error_secs := or_else (p_stale_if_error_secs p) (d_stale_if_error_secs d),
       d_coalesce_capacity := or_else (p_coalesce_capacity p) (d_coalesce_capacity d)\<rparr>"

definition update :: "int \<Rightarrow> string \<Rightarrow> domain_patch \<Rightarrow> domains \<Rightarrow> domains \<times> domain option" where
  "update now h p t =
     (if p = empty_patch then (t, findByHost t h)
      else
        let t' = update_where (\<lambda>d. d_host d = h) (\<lambda>d. (apply_patch p d)\<lparr>d_updated_at := now\<rparr>) t
        in if h \<notin> set (hosts_of t) then (t', None) else (t', findByHost t' h))"

definition toggleEnabled :: "int \<Rightarrow> string \<Rightarrow> domains \<Rightarrow> domains \<times> domain option" where
  "toggleEnabled now h t =
     (let t' = update_where (\<lambda>d. d_host d = h)
                 (\<lambda>d. d\<lparr>d_enabled := (if d_enabled d = 1 then 0 else 1), d_updated_at := now\<rparr>) t
      in if h \<notin> set (hosts_of t) then (t', None) else (t', findByHost t' h))"

definition delete :: "string \<Rightarrow> domains \<Rightarrow> domains \<times> nat" where
  "delete h t = (filter (\<lambda>d. d_host d \<noteq> h) t, length (filter (\<lambda>d. d_host d = h) t))"

subsection \<open>Listing\<close>

record find_opts =
  f_q :: "string option"
  f_enabled :: "bool option"
  f_sort :: "string option"
  f_order :: "string option"
  f_limit :: "jsnum option"
  f_offset :: "jsnum option"

definition no_opts :: find_opts where
  "no_opts = \<lparr>f_q = None, f_enabled = None, f_sort = None, f_order = None,
     f_limit = None, f_offset = None\<rparr>"

definition SORT_WHITELIST :: "string list" where
  "SORT_WHITELIST = [''host'', ''created_at'', ''updated_at'']"

definition ORDER_WHITELIST :: "string list" where
  "ORDER_WHITELIST = [''asc'', ''desc'']"

definition sort_col :: "find_opts \<Rightarrow> string" where
  "sort_col fo = (case f_sort fo of
       Some s \<Rightarrow> if s \<noteq> [] \<and> s \<in> set SORT_WHITELIST then s else ''created_at''
     | None \<Rightarrow> ''created_at'')"

definition js_upper_ascii :: "string \<Rightarrow> string" where
  "js_upper_ascii s =
     map (\<lambda>c. let n = (of_char c :: nat) in if 97 \<le> n \<and> n \<le> 122 then char_of (n - 32) else c) s"

definition sort_dir :: "find_opts \<Rightarrow> string" where
  "sort_dir fo = (case f_order fo of
       Some s \<Rightarrow> if s \<noteq> [] \<and> js_lower s \<in> set ORDER_WHITELIST then js_upper_ascii s else ''DESC''
     | None \<Rightarrow> ''DESC'')"

text \<open>The order \<open>ORDER BY\<close> gives to a column and a direction; text compares by code.\<close>

definition col_le :: "string \<Rightarrow> domain \<Rightarrow> domain \<Rightarrow> bool" where
  "col_le col a b =
     (if col = ''host'' then d_host a \<le> d_host b
      else if col = ''updated_at'' then d_updated_at a \<le> d_updated_at b
      else d_created_at a \<le> d_created_at b)"

definition row_le :: "find_opts \<Rightarrow> domain \<Rightarrow> domain \<Rightarrow> bool" where
  "row_le fo a b =
     (if sort_dir fo = ''ASC'' then col_le (sort_col fo) a b else col_le (sort_col fo) b a)"

definition positive :: "jsnum option \<Rightarrow> int option" where
  "positive x = (case x of Some (Fin r) \<Rightarrow> if 0 < r then Some \<lfloor>r\<rfloor> else None | _ \<Rightarrow> None)"

definition matches :: "find_opts \<Rightarrow> domain \<Rightarrow> bool" where
  "matches fo d =
     ((case f_q fo of
         Some q \<Rightarrow> q = [] \<or>
           (let pat = CHR ''%'' # escapeLike q @ ''%''
            in sql_like (Some backslash) pat (d_host d) \<or> sql_like (Some backslash) pat (d_origin d))
       | None \<Rightarrow> True) \<and>
      (case f_enabled fo of
         Some b \<Rightarrow> d_enabled d = (if b then 1 else 0)
       | None \<Rightarrow> True))"

definition findAll :: "find_opts \<Rightarrow> domains \<Rightarrow> domains" where
  "findAll fo t =
     sql_page (positive (f_limit fo)) (or_else (positive (f_offset fo)) 0)
       (order_by (row_le fo) (filter (matches fo) t))"

subsection \<open>Bulk operations\<close>

record bulk_result =
  b_added :: int
  b_skipped :: "(string \<times> string) list"
  b_failed :: "(string \<times> string) list"

text \<open>
  \<open>err h o\<close> is the message when the driver refuses to run the \<open>INSERT\<close> for that row, \<open>None\<close> when
  it runs.
\<close>

fun bulk_loop ::
  "(string \<Rightarrow> string \<Rightarrow> string option) \<Rightarrow> int \<Rightarrow> (string \<times> string) list \<Rightarrow> domains \<Rightarrow> bulk_result \<Rightarrow>
     domains \<times> bulk_result" where
  "bulk_loop err now [] t r = (t, r)"
| "bulk_loop err now ((h, orig) # xs) t r =
     (case err h orig of
        Some e \<Rightarrow> bulk_loop err now xs t (r\<lparr>b_failed := b_failed r @ [(h, e)]\<rparr>)
      | None \<Rightarrow>
          if h \<in> set (hosts_of t) then
            bulk_loop err now xs t
              (r\<lparr>b_skipped := b_skipped r @
                   [(h, case findByHost t h of Some d \<Rightarrow> d_origin d | None \<Rightarrow> [])]\<rparr>)
          else
            bulk_loop err now xs (t @ [new_domain now h orig []])
              (r\<lparr>b_added := b_added r + 1\<rparr>))"

definition bulkInsert ::
  "(string \<Rightarrow> string \<Rightarrow> string option) \<Rightarrow> int \<Rightarrow> (string \<times> string) list \<Rightarrow> domains \<Rightarrow>
     domains \<times> bulk_result" where
  "bulkInsert err now xs t = bulk_loop err now xs t \<lparr>b_added = 0, b_skipped = [], b_failed = []\<rparr>"

definition bulkDelete :: "string list \<Rightarrow> domains \<Rightarrow> domains \<times> nat \<times> string list" where
  "bulkDelete hosts t =
     (if hosts = [] then (t, 0, [])
      else
        let u = uniq hosts;
            present = filter (\<lambda>h. h \<in> set u) (hosts_of t);
            missing = filter (\<lambda>h. h \<notin> set present) u
        in (filter (\<lambda>d. d_host d \<notin> set u) t, length (filter (\<lambda>d. d_host d \<in> set u) t), missing))"


subsection \<open>The laws of the repository\<close>

lemma d_host_apply_patch [simp, tbl]: "d_host (apply_patch p d) = d_host d"
  by (simp add: apply_patch_def)

lemma d_updated_at_apply_patch [simp]: "d_updated_at (apply_patch p d) = d_updated_at d"
  by (simp add: apply_patch_def)

lemma d_host_new_domain [simp, tbl]: "d_host (new_domain now h orig desc) = h"
  by (simp add: new_domain_def)

lemma hosts_of_simps [simp, tbl]:
  "hosts_of [] = []"
  "hosts_of (d # t) = d_host d # hosts_of t"
  "hosts_of (t @ u) = hosts_of t @ hosts_of u"
  by (simp_all add: hosts_of_def)

interpretation domain_rows: repository d_host hosts_of findByHost
    "\<lambda>h f t. update_where (\<lambda>d. d_host d = h) f t" "\<lambda>d t. t @ [d]" "\<lambda>h t. fst (delete h t)"
proof (unfold_locales, goal_cases)
  case (1 t k r) then show ?case by (auto simp: findByHost_def dest: find_key_Some)
next
  case (2 t k) then show ?case by (simp add: findByHost_def hosts_of_def find_key_None[of d_host])
next
  case (3 f k t) then show ?case by (simp add: hosts_of_def map_update_where[of d_host])
next
  case (4 f k t k') then show ?case by (simp add: findByHost_def find_key_update_where[of d_host])
next
  case (5 r t) then show ?case by simp
next
  case (6 r t k) then show ?case by (simp add: findByHost_def find_append split: option.splits)
next
  case (7 k t) then show ?case by (simp add: hosts_of_def delete_def filter_map o_def)
next
  case (8 k t k') then show ?case by (simp add: findByHost_def delete_def find_key_filter[of d_host])
qed

lemma findByHost_mem: "findByHost t h = Some d \<Longrightarrow> d \<in> set t \<and> d_host d = h"
  by (auto simp: findByHost_def dest: find_key_Some)

lemma findByHost_in: "distinct (hosts_of t) \<Longrightarrow> d \<in> set t \<Longrightarrow> findByHost t (d_host d) = Some d"
  by (simp add: findByHost_def hosts_of_def find_key_mem)

lemma mem_host: "d \<in> set t \<Longrightarrow> d_host d \<in> set (hosts_of t)"
  by (simp add: hosts_of_def)

lemma hosts_upsert [tbl]:
  "hosts_of (upsert now h orig desc t) =
     (if h \<in> set (hosts_of t) then hosts_of t else hosts_of t @ [h])"
  by (simp add: upsert_def Let_def domain_rows.keys_modify)

lemma findByHost_upsert:
  "findByHost (upsert now h orig desc t) h' =
     (if h' = h then
        Some (case findByHost t h of
                None \<Rightarrow> new_domain now h orig (or_else desc [])
              | Some d \<Rightarrow> d\<lparr>d_origin := orig, d_description := or_else desc [], d_updated_at := now\<rparr>)
      else findByHost t h')"
  using domain_rows.lookup_None[of t h]
  by (auto simp: upsert_def Let_def domain_rows.lookup_modify domain_rows.lookup_add or_else_def
      split: option.splits)

lemma distinct_upsert: "distinct (hosts_of t) \<Longrightarrow> distinct (hosts_of (upsert now h orig desc t))"
  by (simp add: hosts_upsert)

lemma set_upsert:
  "d \<in> set (upsert now h orig desc t) \<Longrightarrow>
     d \<in> set t \<or> d = new_domain now h orig (or_else desc [])
       \<or> (\<exists>d' \<in> set t. d_host d' = h \<and>
            d = d'\<lparr>d_origin := orig, d_description := or_else desc [], d_updated_at := now\<rparr>)"
  by (auto simp: upsert_def Let_def or_else_def split: if_splits option.splits dest!: set_update_where)

lemma hosts_update [tbl]: "hosts_of (fst (update now h p t)) = hosts_of t"
  by (simp add: update_def Let_def domain_rows.keys_modify)

lemma hosts_toggle [tbl]: "hosts_of (fst (toggleEnabled now h t)) = hosts_of t"
  by (simp add: toggleEnabled_def Let_def domain_rows.keys_modify)

lemma hosts_delete [tbl]: "hosts_of (fst (delete h t)) = filter (\<lambda>x. x \<noteq> h) (hosts_of t)"
  by (rule domain_rows.keys_erase)

lemma set_update:
  "d \<in> set (fst (update now h p t)) \<Longrightarrow>
     d \<in> set t \<or> (\<exists>d' \<in> set t. d = (apply_patch p d')\<lparr>d_updated_at := now\<rparr>)"
  by (auto simp: update_def Let_def split: if_splits dest!: set_update_where)

lemma set_toggle:
  "d \<in> set (fst (toggleEnabled now h t)) \<Longrightarrow>
     d \<in> set t \<or> (\<exists>d' \<in> set t.
        d = d'\<lparr>d_enabled := (if d_enabled d' = 1 then 0 else 1), d_updated_at := now\<rparr>)"
  by (auto simp: toggleEnabled_def Let_def split: if_splits dest!: set_update_where)

lemma findByHost_update:
  assumes "p \<noteq> empty_patch"
  shows "findByHost (fst (update now h p t)) h' =
     (if h' = h then map_option (\<lambda>d. (apply_patch p d)\<lparr>d_updated_at := now\<rparr>) (findByHost t h)
      else findByHost t h')"
  using assms by (simp add: update_def Let_def domain_rows.lookup_modify)

lemma update_result:
  "snd (update now h p t) = (if h \<in> set (hosts_of t) then findByHost (fst (update now h p t)) h else None)"
  using domain_rows.lookup_None[of t h] by (auto simp: update_def Let_def)

lemma findByHost_toggle:
  "findByHost (fst (toggleEnabled now h t)) h' =
     (if h' = h then map_option (\<lambda>d. d\<lparr>d_enabled := (if d_enabled d = 1 then 0 else 1),
                                      d_updated_at := now\<rparr>) (findByHost t h)
      else findByHost t h')"
  by (simp add: toggleEnabled_def Let_def domain_rows.lookup_modify)

lemma toggle_result:
  "snd (toggleEnabled now h t) =
     (if h \<in> set (hosts_of t) then findByHost (fst (toggleEnabled now h t)) h else None)"
  by (auto simp: toggleEnabled_def Let_def)

text \<open>A restoring update gives back every column but \<open>updated_at\<close>.\<close>

definition restore_patch :: "domain \<Rightarrow> domain_patch" where
  "restore_patch d = \<lparr>p_origin = Some (d_origin d), p_enabled = Some (d_enabled d),
     p_description = Some (d_description d),
     p_stale_if_error_secs = Some (d_stale_if_error_secs d),
     p_coalesce_capacity = Some (d_coalesce_capacity d)\<rparr>"

definition forget_time :: "domain \<Rightarrow> domain" where
  "forget_time d = d\<lparr>d_updated_at := 0\<rparr>"

lemma restore_patch_nonempty [simp]: "restore_patch d \<noteq> empty_patch"
  by (simp add: restore_patch_def empty_patch_def)

lemma apply_restore [simp]:
  "forget_time ((apply_patch (restore_patch d) ((apply_patch p d)\<lparr>d_updated_at := now\<rparr>))\<lparr>d_updated_at := now'\<rparr>) =
     forget_time d"
  by (simp add: forget_time_def apply_patch_def restore_patch_def)

subsection \<open>Listing\<close>

lemma col_le_total: "col_le c a b \<or> col_le c b a"
  by (auto simp: col_le_def)

lemma col_le_trans: "col_le c a b \<Longrightarrow> col_le c b d \<Longrightarrow> col_le c a d"
  by (auto simp: col_le_def split: if_splits)

lemma sorted_findAll: "sorted_wrt (row_le fo) (findAll fo t)"
  unfolding findAll_def
  by (intro sorted_sql_page sorted_order_by)
    (use col_le_total col_le_trans in \<open>auto simp: row_le_def\<close>)

lemma set_findAll: "set (findAll fo t) \<subseteq> {d \<in> set t. matches fo d}"
  using set_sql_page unfolding findAll_def by fastforce

lemma mset_findAll:
  "positive (f_limit fo) = None \<Longrightarrow> positive (f_offset fo) = None \<Longrightarrow>
     mset (findAll fo t) = filter_mset (matches fo) (mset t)"
  by (simp add: findAll_def)

lemma distinct_findAll: "distinct t \<Longrightarrow> distinct (findAll fo t)"
  by (auto simp: findAll_def sql_page_def Let_def split: option.splits)

lemma sort_col_safe: "sort_col fo \<in> set SORT_WHITELIST"
  by (auto simp: sort_col_def SORT_WHITELIST_def split: option.splits)

lemma upper_lower_char:
  assumes "(of_char (lower_char c) :: nat) < 128"
  shows "(let n = (of_char (lower_char c) :: nat) in if 97 \<le> n \<and> n \<le> 122 then char_of (n - 32) else lower_char c)
     = (let n = (of_char c :: nat) in if 97 \<le> n \<and> n \<le> 122 then char_of (n - 32) else c)"
proof -
  have "lower_char c = c" if "\<not> ((65::nat) \<le> of_char c \<and> of_char c \<le> (90::nat))"
  proof (rule ccontr)
    assume n: "lower_char c \<noteq> c"
    with that have r: "(192::nat) \<le> of_char c" "of_char c \<le> (222::nat)"
      by (auto simp: lower_char_def Let_def split: if_splits)
    then have "(of_char (lower_char c) :: nat) = of_char c + 32 \<or> lower_char c = c"
      by (auto simp: lower_char_def Let_def of_char_of)
    with r n assms show False by auto
  qed
  moreover have "(of_char (lower_char c) :: nat) = of_char c + 32"
    if "(65::nat) \<le> of_char c \<and> of_char c \<le> (90::nat)"
    using that by (simp add: lower_char_def Let_def of_char_of)
  ultimately show ?thesis
    by (cases "(65::nat) \<le> of_char c \<and> of_char c \<le> (90::nat)") (simp_all add: Let_def)
qed

lemma upper_of_asc_desc: "js_lower s \<in> set ORDER_WHITELIST \<Longrightarrow> js_upper_ascii s = js_upper_ascii (js_lower s)"
proof -
  assume a: "js_lower s \<in> set ORDER_WHITELIST"
  have "js_upper_ascii s = js_upper_ascii (js_lower s)" if "\<forall>c \<in> set s. (of_char (lower_char c) :: nat) < 128"
    using that by (simp add: js_upper_ascii_def js_lower_def upper_lower_char)
  moreover have "\<forall>c \<in> set (js_lower s). (of_char c :: nat) < 128"
    using a by (auto simp: ORDER_WHITELIST_def)
  ultimately show ?thesis by (simp add: js_lower_def)
qed

lemma sort_dir_safe: "sort_dir fo \<in> {''ASC'', ''DESC''}"
proof -
  have u: "js_upper_ascii ''asc'' = ''ASC''" "js_upper_ascii ''desc'' = ''DESC''"
    by code_simp+
  show ?thesis
  proof (cases "f_order fo")
    case None
    then show ?thesis by (simp add: sort_dir_def)
  next
    case (Some s)
    show ?thesis
    proof (cases "js_lower s \<in> set ORDER_WHITELIST")
      case True
      then have "js_upper_ascii s = ''ASC'' \<or> js_upper_ascii s = ''DESC''"
        using upper_of_asc_desc[OF True] u by (auto simp: ORDER_WHITELIST_def)
      with Some show ?thesis by (auto simp: sort_dir_def)
    next
      case False
      with Some show ?thesis by (simp add: sort_dir_def)
    qed
  qed
qed

lemma matches_search:
  "matches fo d \<longleftrightarrow>
     (case f_q fo of None \<Rightarrow> True
      | Some q \<Rightarrow> js_includes (nocase q) (nocase (d_host d)) \<or> js_includes (nocase q) (nocase (d_origin d)))
     \<and> (case f_enabled fo of None \<Rightarrow> True | Some b \<Rightarrow> d_enabled d = (if b then 1 else 0))"
proof -
  have "js_includes [] s" for s :: string by (cases s) auto
  then show ?thesis
    by (auto simp: matches_def like_escaped_includes[simplified] nocase_def split: option.splits)
qed

subsection \<open>Bulk operations\<close>

lemma bulk_loop_count:
  "bulk_loop err now xs t r = (t', r') \<Longrightarrow>
     b_added r' + int (length (b_skipped r')) + int (length (b_failed r')) =
       b_added r + int (length (b_skipped r)) + int (length (b_failed r)) + int (length xs)"
proof (induction err now xs t r rule: bulk_loop.induct)
  case (2 err now h orig xs t r)
  then show ?case by (cases "err h orig"; cases "h \<in> set (hosts_of t)") fastforce+
qed simp

lemma bulk_loop_extends:
  "bulk_loop err now xs t r = (t', r') \<Longrightarrow>
     \<exists>ys. t' = t @ ys \<and> b_added r' = b_added r + int (length ys) \<and>
          (\<forall>d \<in> set ys. \<exists>(h, orig) \<in> set xs. d = new_domain now h orig [] \<and> err h orig = None)"
proof (induction err now xs t r rule: bulk_loop.induct)
  case (1 err now t r)
  then show ?case by auto
next
  case (2 err now h orig xs t r)
  show ?case
  proof (cases "err h orig")
    case (Some e)
    with 2 show ?thesis by fastforce
  next
    case None
    show ?thesis
    proof (cases "h \<in> set (hosts_of t)")
      case True
      with 2 None show ?thesis by fastforce
    next
      case False
      with 2 None obtain ys where
        "t' = (t @ [new_domain now h orig []]) @ ys" "b_added r' = b_added r + 1 + int (length ys)"
        "\<forall>d \<in> set ys. \<exists>(h, orig) \<in> set xs. d = new_domain now h orig [] \<and> err h orig = None"
        by fastforce
      with None show ?thesis
        by (intro exI[of _ "new_domain now h orig [] # ys"]) auto
    qed
  qed
qed

lemma bulk_loop_distinct:
  "bulk_loop err now xs t r = (t', r') \<Longrightarrow> distinct (hosts_of t) \<Longrightarrow> distinct (hosts_of t')"
  by (induction err now xs t r rule: bulk_loop.induct) (auto split: option.splits if_splits)

lemma bulk_loop_keeps:
  "bulk_loop err now xs t r = (t', r') \<Longrightarrow> h \<in> set (hosts_of t) \<Longrightarrow> h \<in> set (hosts_of t')"
  using bulk_loop_extends[of err now xs t r t' r'] by auto

lemma bulk_loop_present:
  "bulk_loop err now xs t r = (t', r') \<Longrightarrow> (h, orig) \<in> set xs \<Longrightarrow> err h orig = None \<Longrightarrow>
     h \<in> set (hosts_of t')"
proof (induction err now xs t r rule: bulk_loop.induct)
  case (2 err now h' orig' xs t r)
  show ?case
  proof (cases "(h, orig) \<in> set xs")
    case True
    with 2 show ?thesis by (auto split: option.splits if_splits)
  next
    case False
    with 2 have [simp]: "h' = h" "orig' = orig" by auto
    show ?thesis
    proof (cases "h \<in> set (hosts_of t)")
      case True
      with 2 show ?thesis by (auto intro: bulk_loop_keeps)
    next
      case False
      with 2 show ?thesis by (auto intro: bulk_loop_keeps[where h = h])
    qed
  qed
qed simp

lemma bulkDelete_hosts [tbl]:
  "hosts_of (fst (bulkDelete hs t)) = filter (\<lambda>h. h \<notin> set hs) (hosts_of t)"
  by (simp add: bulkDelete_def Let_def hosts_of_def filter_map o_def)

lemma bulkDelete_rows: "fst (bulkDelete hs t) = filter (\<lambda>d. d_host d \<notin> set hs) t"
  by (simp add: bulkDelete_def Let_def)

lemma length_filter_card: "distinct xs \<Longrightarrow> length (filter (\<lambda>x. x \<in> A) xs) = card (set xs \<inter> A)"
proof -
  assume "distinct xs"
  then have "length (filter (\<lambda>x. x \<in> A) xs) = card (set (filter (\<lambda>x. x \<in> A) xs))"
    by (simp only: distinct_card distinct_filter)
  also have "set (filter (\<lambda>x. x \<in> A) xs) = set xs \<inter> A" by auto
  finally show ?thesis .
qed

lemma length_filter_mem:
  "distinct xs \<Longrightarrow> distinct ys \<Longrightarrow> length (filter (\<lambda>x. x \<in> set ys) xs) = length (filter (\<lambda>y. y \<in> set xs) ys)"
  by (simp add: length_filter_card Int_commute)

lemma bulkDelete_count:
  assumes "distinct (hosts_of t)" and "bulkDelete hs t = (t', n, missing)"
  shows "n + length missing = length (uniq hs)"
proof (cases "hs = []")
  case True
  then show ?thesis using assms by (simp add: bulkDelete_def)
next
  case False
  have n: "n = length (filter (\<lambda>h. h \<in> set hs) (hosts_of t))"
    using assms(2) False by (auto simp: bulkDelete_def Let_def hosts_of_def filter_map o_def)
  have m: "missing = filter (\<lambda>h. \<not> (h \<in> set (hosts_of t))) (uniq hs)"
    using assms(2) False by (auto simp: bulkDelete_def Let_def intro!: filter_cong)
  have "n = length (filter (\<lambda>h. h \<in> set (hosts_of t)) (uniq hs))"
    unfolding n using length_filter_mem[OF assms(1), of "uniq hs"] by simp
  then show ?thesis using m sum_length_filter_compl[of "\<lambda>h. h \<in> set (hosts_of t)" "uniq hs"] by simp
qed

end
