(* ===== verification/Stats_Repo.thy ===== *)
theory Stats_Repo
  imports Domain_Repo
begin

section \<open>The domain statistics\<close>

text \<open>
  \<open>db/domain-stats-repo.ts\<close>, \<open>stats-collector.ts\<close> and \<open>domain-stats-pruner.ts\<close> of the admin
  server: the \<open>domain_stats\<close> table with its primary key \<open>(host, timestamp)\<close> and its foreign key to
  \<open>domains\<close>, the accumulating insert, the period query, the two summaries, retention, and the
  poller that fills the table.

  SQL divides a column by a bound parameter; whether the driver binds a JavaScript number as an
  integer or as a real decides if that division truncates, so the bucketing of \<open>getStats\<close> is a
  function argument. Every lemma here holds for any such function.
\<close>

record stat_row =
  st_host :: string
  st_timestamp :: int
  st_requests :: int
  st_cache_hits :: int
  st_cache_misses :: int
  st_bandwidth :: int
  st_avg_response_time :: rat
  st_l1_hits :: int
  st_l2_hits :: int
  st_bypass_method :: int
  st_bypass_nocache :: int
  st_bypass_size :: int
  st_bypass_other :: int

type_synonym stats = "stat_row list"

definition st_key :: "stat_row \<Rightarrow> string \<times> int" where
  "st_key r = (st_host r, st_timestamp r)"

subsection \<open>Insert\<close>

definition merge_stat :: "stat_row \<Rightarrow> stat_row \<Rightarrow> stat_row" where
  "merge_stat x r =
     r\<lparr>st_requests := st_requests r + st_requests x,
       st_cache_hits := st_cache_hits r + st_cache_hits x,
       st_cache_misses := st_cache_misses r + st_cache_misses x,
       st_bandwidth := st_bandwidth r + st_bandwidth x,
       st_avg_response_time := st_avg_response_time x,
       st_l1_hits := st_l1_hits r + st_l1_hits x,
       st_l2_hits := st_l2_hits r + st_l2_hits x,
       st_bypass_method := st_bypass_method r + st_bypass_method x,
       st_bypass_nocache := st_bypass_nocache r + st_bypass_nocache x,
       st_bypass_size := st_bypass_size r + st_bypass_size x,
       st_bypass_other := st_bypass_other r + st_bypass_other x\<rparr>"

text \<open>The rows after the statement ran.\<close>

definition put_stat :: "stat_row \<Rightarrow> stats \<Rightarrow> stats" where
  "put_stat x t =
     (if st_key x \<in> set (map st_key t) then update_where (\<lambda>r. st_key r = st_key x) (merge_stat x) t
      else t @ [x])"

text \<open>\<open>None\<close> is the exception of a violated foreign key.\<close>

definition stats_insert :: "string list \<Rightarrow> stat_row \<Rightarrow> stats \<Rightarrow> stats option" where
  "stats_insert hosts x t =
     (if st_key x \<in> set (map st_key t) \<or> st_host x \<in> set hosts then Some (put_stat x t) else None)"

subsection \<open>The period query\<close>

datatype stats_period = P1h | P24h | P7d | P30d | PCustom

definition validateRange :: "stats_period \<Rightarrow> (rat \<times> rat) option \<Rightarrow> string option" where
  "validateRange p rng =
     (if p \<noteq> PCustom then None
      else (case rng of
              None \<Rightarrow> Some ''custom period requires range { from, to }''
            | Some (from, to) \<Rightarrow>
                if to \<le> from then Some ''custom period requires to > from'' else None))"

definition getDelta :: "rat \<Rightarrow> rat \<Rightarrow> rat" where
  "getDelta today yesterday =
     (if yesterday = 0 then 0
      else of_int (math_round (((today - yesterday) / yesterday) * 1000)) / 10)"

record ts_row =
  ts_timestamp :: rat
  ts_requests :: int
  ts_cache_hits :: int
  ts_cache_misses :: int
  ts_bandwidth :: int
  ts_avg_response_time :: rat
  ts_l1_hits :: int
  ts_l2_hits :: int
  ts_bypass_method :: int
  ts_bypass_nocache :: int
  ts_bypass_size :: int
  ts_bypass_other :: int

definition bucket_row :: "rat \<Rightarrow> stats \<Rightarrow> ts_row" where
  "bucket_row b g =
     \<lparr>ts_timestamp = b,
      ts_requests = sum_of st_requests g,
      ts_cache_hits = sum_of st_cache_hits g,
      ts_cache_misses = sum_of st_cache_misses g,
      ts_bandwidth = sum_of st_bandwidth g,
      ts_avg_response_time = avg_of st_avg_response_time g,
      ts_l1_hits = sum_of st_l1_hits g,
      ts_l2_hits = sum_of st_l2_hits g,
      ts_bypass_method = sum_of st_bypass_method g,
      ts_bypass_nocache = sum_of st_bypass_nocache g,
      ts_bypass_size = sum_of st_bypass_size g,
      ts_bypass_other = sum_of st_bypass_other g\<rparr>"

record stats_summary =
  ss_total_requests :: int
  ss_total_cache_hits :: int
  ss_total_cache_misses :: int
  ss_total_bandwidth :: int
  ss_avg_response_time :: int
  ss_hit_rate :: rat
  ss_requests_delta :: rat
  ss_hit_rate_delta :: rat
  ss_response_time_delta :: rat

definition in_window :: "string \<Rightarrow> rat \<Rightarrow> rat \<Rightarrow> stat_row \<Rightarrow> bool" where
  "in_window h since until r =
     (st_host r = h \<and> since \<le> of_int (st_timestamp r) \<and> of_int (st_timestamp r) < until)"

text \<open>The interval and the bucket size of a period.\<close>

definition stats_bounds :: "int \<Rightarrow> stats_period \<Rightarrow> rat \<times> rat \<Rightarrow> rat \<times> rat \<times> int" where
  "stats_bounds now p rng =
     (let n = (of_int now :: rat)
      in case p of
           PCustom \<Rightarrow>
             let span = snd rng - fst rng
             in (fst rng, snd rng, if span \<le> 3600 then 60 else if span \<le> 86400 then 3600 else 86400)
         | P1h \<Rightarrow> (n - 3600, n, 60)
         | P24h \<Rightarrow> (n - 86400, n, 3600)
         | P7d \<Rightarrow> (n - 604800, n, 86400)
         | P30d \<Rightarrow> (n - 2592000, n, 86400))"

definition stats_rows :: "(int \<Rightarrow> int \<Rightarrow> rat) \<Rightarrow> int \<Rightarrow> string \<Rightarrow> rat \<Rightarrow> rat \<Rightarrow> stats \<Rightarrow> ts_row list" where
  "stats_rows bucket bsz h since until t =
     map (\<lambda>(b, g). bucket_row b g)
       (order_by (\<lambda>x y. fst x \<le> fst y)
         (group_by (\<lambda>r. bucket bsz (st_timestamp r)) (filter (in_window h since until) t)))"

definition stats_summary_of :: "ts_row list \<Rightarrow> stats \<Rightarrow> stats_summary" where
  "stats_summary_of rows prev =
     (let totalRequests = sum_of ts_requests rows;
          totalCacheHits = sum_of ts_cache_hits rows;
          avgResponseTime = (if rows = [] then 0 else math_round (avg_of ts_avg_response_time rows));
          hitRate = ratio totalCacheHits totalRequests;
          prevRequests = sum_of st_requests prev;
          prevHitRate = ratio (sum_of st_cache_hits prev) prevRequests;
          prevResponseTime = avg_of st_avg_response_time prev
      in \<lparr>ss_total_requests = totalRequests,
          ss_total_cache_hits = totalCacheHits,
          ss_total_cache_misses = sum_of ts_cache_misses rows,
          ss_total_bandwidth = sum_of ts_bandwidth rows,
          ss_avg_response_time = avgResponseTime,
          ss_hit_rate = hitRate,
          ss_requests_delta = getDelta (of_int totalRequests) (of_int prevRequests),
          ss_hit_rate_delta = getDelta hitRate prevHitRate,
          ss_response_time_delta = getDelta (of_int avgResponseTime) prevResponseTime\<rparr>)"

definition getStats ::
  "(int \<Rightarrow> int \<Rightarrow> rat) \<Rightarrow> int \<Rightarrow> string \<Rightarrow> stats_period \<Rightarrow> (rat \<times> rat) option \<Rightarrow> stats \<Rightarrow>
     string + (stats_summary \<times> ts_row list)" where
  "getStats bucket now h p rng t =
     (case validateRange p rng of
        Some e \<Rightarrow> Inl e
      | None \<Rightarrow>
          let (since, until, bsz) = stats_bounds now p (or_else rng (0, 0));
              rows = stats_rows bucket bsz h since until t;
              duration = until - since;
              prev = filter (in_window h (since - duration) since) t
          in Inr (stats_summary_of rows prev,
                  map (\<lambda>r. r\<lparr>ts_avg_response_time := of_int (math_round (ts_avg_response_time r))\<rparr>) rows))"


subsection \<open>The summaries\<close>

record summary =
  su_host :: string
  su_today_requests :: int
  su_today_cache_hits :: int
  su_today_bandwidth :: int
  su_hit_rate :: rat
  su_hourly :: "int list"
  su_hourly_cache_hits :: "int list"
  su_hourly_bandwidth :: "int list"
  su_today_requests_delta :: rat
  su_hit_rate_delta :: rat
  su_today_l1_hit_rate :: rat
  su_today_edge_hit_rate :: rat
  su_today_bypass_rate :: rat

definition bypass_total :: "stat_row \<Rightarrow> int" where
  "bypass_total r = st_bypass_method r + st_bypass_nocache r + st_bypass_size r + st_bypass_other r"

definition todayStart :: "int \<Rightarrow> int" where
  "todayStart now = now - now mod 86400"

definition hour_bucket :: "stat_row \<Rightarrow> int" where
  "hour_bucket r = sql_quot (st_timestamp r) 3600 * 3600"

text \<open>The rows of the hourly query: one per host and hour, ordered by both.\<close>

record hourly_row =
  hr_host :: string
  hr_bucket :: int
  hr_requests :: int
  hr_cache_hits :: int
  hr_bandwidth :: int

definition mk_hourly :: "string \<Rightarrow> int \<Rightarrow> stats \<Rightarrow> hourly_row" where
  "mk_hourly h b g = \<lparr>hr_host = h, hr_bucket = b, hr_requests = sum_of st_requests g,
     hr_cache_hits = sum_of st_cache_hits g, hr_bandwidth = sum_of st_bandwidth g\<rparr>"

definition hourly_all :: "int \<Rightarrow> stats \<Rightarrow> hourly_row list" where
  "hourly_all now t =
     map (\<lambda>(k, g). mk_hourly (fst k) (snd k) g)
       (order_by (\<lambda>x y. fst (fst x) < fst (fst y) \<or> fst (fst x) = fst (fst y) \<and> snd (fst x) \<le> snd (fst y))
         (group_by (\<lambda>r. (st_host r, hour_bucket r)) (filter (\<lambda>r. now - 86400 \<le> st_timestamp r) t)))"

text \<open>The maps the loop over these rows builds, by appending to the list of the row's host.\<close>

definition push_hourly :: "(hourly_row \<Rightarrow> int) \<Rightarrow> hourly_row list \<Rightarrow> string \<rightharpoonup> int list" where
  "push_hourly f rows =
     foldl (\<lambda>m r. m(hr_host r \<mapsto> or_else (m (hr_host r)) [] @ [f r])) Map.empty rows"

text \<open>The summary of one host from its rows of today, of yesterday, and its hourly lists.\<close>

definition mk_summary ::
  "string \<Rightarrow> stats \<Rightarrow> stats \<Rightarrow> int list \<Rightarrow> int list \<Rightarrow> int list \<Rightarrow> summary" where
  "mk_summary h tod yes hourly hits bw =
     (let todayReq = sum_of st_requests tod;
          yesterdayReq = sum_of st_requests yes;
          yesterdayHitRate = ratio (sum_of st_cache_hits yes) yesterdayReq;
          todayHitRate = ratio (sum_of st_cache_hits tod) todayReq
      in \<lparr>su_host = h,
          su_today_requests = todayReq,
          su_today_cache_hits = sum_of st_cache_hits tod,
          su_today_bandwidth = sum_of st_bandwidth tod,
          su_hit_rate = todayHitRate,
          su_hourly = hourly,
          su_hourly_cache_hits = hits,
          su_hourly_bandwidth = bw,
          su_today_requests_delta = getDelta (of_int todayReq) (of_int yesterdayReq),
          su_hit_rate_delta = getDelta todayHitRate yesterdayHitRate,
          su_today_l1_hit_rate = ratio (sum_of st_l1_hits tod) todayReq,
          su_today_edge_hit_rate = ratio (sum_of st_l1_hits tod + sum_of st_l2_hits tod) todayReq,
          su_today_bypass_rate = ratio (sum_of bypass_total tod) todayReq\<rparr>)"

definition getSummaryAll :: "int \<Rightarrow> stats \<Rightarrow> summary list" where
  "getSummaryAll now t =
     (let ts = todayStart now;
          todayRows = group_by st_host (filter (\<lambda>r. ts \<le> st_timestamp r) t);
          yesterdayMap = map_of (group_by st_host
             (filter (\<lambda>r. ts - 86400 \<le> st_timestamp r \<and> st_timestamp r < ts) t));
          hourly = hourly_all now t
      in map (\<lambda>(h, g).
            mk_summary h g (or_else (yesterdayMap h) [])
              (or_else (push_hourly hr_requests hourly h) [])
              (or_else (push_hourly hr_cache_hits hourly h) [])
              (or_else (push_hourly hr_bandwidth hourly h) [])) todayRows)"

definition hourly_host :: "int \<Rightarrow> string \<Rightarrow> stats \<Rightarrow> hourly_row list" where
  "hourly_host now h t =
     map (\<lambda>(b, g). mk_hourly h b g)
       (order_by (\<lambda>x y. fst x \<le> fst y)
         (group_by hour_bucket (filter (\<lambda>r. st_host r = h \<and> now - 86400 \<le> st_timestamp r) t)))"

definition getSummaryForHost :: "int \<Rightarrow> string \<Rightarrow> stats \<Rightarrow> summary option" where
  "getSummaryForHost now h t =
     (let ts = todayStart now;
          tod = filter (\<lambda>r. st_host r = h \<and> ts \<le> st_timestamp r) t
      in if length tod = 0 then None
         else
           let yes = filter (\<lambda>r. st_host r = h \<and> ts - 86400 \<le> st_timestamp r \<and> st_timestamp r < ts) t;
               hourly = hourly_host now h t
           in Some (mk_summary h tod yes (map hr_requests hourly) (map hr_cache_hits hourly)
                (map hr_bandwidth hourly)))"

subsection \<open>Retention\<close>

definition pruneBefore :: "int \<Rightarrow> stats \<Rightarrow> stats \<times> nat" where
  "pruneBefore cutoff t =
     (filter (\<lambda>r. \<not> st_timestamp r < cutoff) t, length (filter (\<lambda>r. st_timestamp r < cutoff) t))"

definition cleanup :: "int \<Rightarrow> stats \<Rightarrow> stats \<times> nat" where
  "cleanup now t = pruneBefore (now - 2592000) t"

text \<open>A retention variable of the environment: a positive integer, anything else is ignored.\<close>

definition readRetentionDaysEnv :: "string option \<Rightarrow> int option" where
  "readRetentionDaysEnv raw =
     (case raw of
        None \<Rightarrow> None
      | Some s \<Rightarrow>
          if s = [] then None
          else (case number_of_string s of
                  Fin x \<Rightarrow> if x \<le> 0 \<or> of_int \<lfloor>x\<rfloor> \<noteq> x then None else Some \<lfloor>x\<rfloor>
                | _ \<Rightarrow> None))"

text \<open>\<open>retentionDays ?? env ?? 30\<close>, in days.\<close>

definition retention_days :: "int option \<Rightarrow> string option \<Rightarrow> int" where
  "retention_days given env = or_else given (or_else (readRetentionDaysEnv env) 30)"

definition stats_pruner_tick :: "int \<Rightarrow> int \<Rightarrow> stats \<Rightarrow> stats \<times> nat" where
  "stats_pruner_tick now_ms days t = pruneBefore (now_ms div 1000 - days * 24 * 60 * 60) t"

subsection \<open>The collector\<close>

record proxy_stat =
  px_host :: string
  px_requests :: int
  px_cache_hits :: int
  px_cache_misses :: int
  px_bandwidth :: int
  px_avg_response_time :: rat
  px_l1_hits :: "int option"
  px_l2_hits :: "int option"
  px_bypass_method :: "int option"
  px_bypass_nocache :: "int option"
  px_bypass_size :: "int option"
  px_bypass_other :: "int option"

definition stat_of_proxy :: "int \<Rightarrow> proxy_stat \<Rightarrow> stat_row" where
  "stat_of_proxy now s =
     \<lparr>st_host = px_host s, st_timestamp = now, st_requests = px_requests s,
      st_cache_hits = px_cache_hits s, st_cache_misses = px_cache_misses s,
      st_bandwidth = px_bandwidth s, st_avg_response_time = px_avg_response_time s,
      st_l1_hits = or_else (px_l1_hits s) 0, st_l2_hits = or_else (px_l2_hits s) 0,
      st_bypass_method = or_else (px_bypass_method s) 0,
      st_bypass_nocache = or_else (px_bypass_nocache s) 0,
      st_bypass_size = or_else (px_bypass_size s) 0,
      st_bypass_other = or_else (px_bypass_other s) 0\<rparr>"

text \<open>
  The loop of \<open>collect\<close>: the first insert that throws leaves the loop, the rows before it stay. The
  second result says whether the warning is logged.
\<close>

fun collect_loop :: "string list \<Rightarrow> int \<Rightarrow> proxy_stat list \<Rightarrow> stats \<Rightarrow> stats \<times> bool" where
  "collect_loop hosts now [] t = (t, False)"
| "collect_loop hosts now (s # ss) t =
     (if px_requests s = 0 then collect_loop hosts now ss t
      else (case stats_insert hosts (stat_of_proxy now s) t of
              None \<Rightarrow> (t, True)
            | Some t' \<Rightarrow> collect_loop hosts now ss t'))"

text \<open>\<open>None\<close> is a failed request to the proxy.\<close>

definition collect :: "string list \<Rightarrow> int \<Rightarrow> proxy_stat list option \<Rightarrow> stats \<Rightarrow> stats \<times> bool" where
  "collect hosts now data t =
     (case data of None \<Rightarrow> (t, True) | Some ss \<Rightarrow> collect_loop hosts now ss t)"


subsection \<open>Keys, counters, retention\<close>

lemma st_key_merge [simp, tbl]: "st_key (merge_stat x r) = st_key r"
  by (simp add: merge_stat_def st_key_def)

lemma merge_stat_host [simp]:
  "st_host (merge_stat x r) = st_host r" "st_timestamp (merge_stat x r) = st_timestamp r"
  by (simp_all add: merge_stat_def)

lemma keys_put_stat [tbl]:
  "map st_key (put_stat x t) =
     (if st_key x \<in> set (map st_key t) then map st_key t else map st_key t @ [st_key x])"
  by (simp add: put_stat_def map_update_where[where key = st_key])

lemma distinct_put_stat: "distinct (map st_key t) \<Longrightarrow> distinct (map st_key (put_stat x t))"
  by (simp add: keys_put_stat)

lemma hosts_put_stat: "st_host ` set (put_stat x t) \<subseteq> insert (st_host x) (st_host ` set t)"
  by (auto simp: put_stat_def dest!: set_update_where)

datatype stat_counter =
  CRequests | CHits | CMisses | CBandwidth | CL1 | CL2 | CBMethod | CBNocache | CBSize | CBOther

fun counter_of :: "stat_counter \<Rightarrow> stat_row \<Rightarrow> int" where
  "counter_of CRequests r = st_requests r"
| "counter_of CHits r = st_cache_hits r"
| "counter_of CMisses r = st_cache_misses r"
| "counter_of CBandwidth r = st_bandwidth r"
| "counter_of CL1 r = st_l1_hits r"
| "counter_of CL2 r = st_l2_hits r"
| "counter_of CBMethod r = st_bypass_method r"
| "counter_of CBNocache r = st_bypass_nocache r"
| "counter_of CBSize r = st_bypass_size r"
| "counter_of CBOther r = st_bypass_other r"

definition stat_total :: "stat_counter \<Rightarrow> (string \<times> int \<Rightarrow> bool) \<Rightarrow> stats \<Rightarrow> int" where
  "stat_total c P t = sum_of (counter_of c) (filter (\<lambda>r. P (st_key r)) t)"

lemma counter_merge: "counter_of c (merge_stat x r) = counter_of c r + counter_of c x"
  by (cases c) (simp_all add: merge_stat_def)

lemma stat_total_update:
  "distinct (map st_key t) \<Longrightarrow> st_key x \<in> set (map st_key t) \<Longrightarrow>
     stat_total c P (update_where (\<lambda>r. st_key r = st_key x) (merge_stat x) t) =
       stat_total c P t + (if P (st_key x) then counter_of c x else 0)"
proof (induction t)
  case (Cons r t)
  show ?case
  proof (cases "st_key r = st_key x")
    case True
    with Cons.prems have "\<forall>r' \<in> set t. \<not> st_key r' = st_key x" by (force simp: image_iff)
    then have "update_where (\<lambda>r. st_key r = st_key x) (merge_stat x) t = t"
      by (rule update_where_none)
    with True show ?thesis
      by (simp add: stat_total_def update_where_def counter_merge)
  next
    case False
    with Cons show ?thesis by (simp add: stat_total_def update_where_def)
  qed
qed simp

interpretation stat_counters: counter_store st_key counter_of stat_total put_stat
    "\<lambda>t r. distinct (map st_key t)"
proof (unfold_locales, goal_cases)
  case (1 t r c P)
  then show ?case
    by (cases "st_key r \<in> set (map st_key t)")
      (simp_all only: put_stat_def if_True if_False stat_total_update,
       simp add: stat_total_def)
next
  case (2 t r r') then show ?case by (simp only: distinct_put_stat)
qed

interpretation stat_retention: retention_store st_timestamp pruneBefore
proof (unfold_locales, goal_cases)
  case (1 c t) then show ?case by (simp add: pruneBefore_def not_less)
next
  case (2 c t) then show ?case
    using sum_length_filter_compl[of "\<lambda>r. st_timestamp r < c" t] by (simp add: pruneBefore_def)
qed

definition stats_ok :: "string list \<Rightarrow> stats \<Rightarrow> bool" where
  "stats_ok hosts t = (distinct (map st_key t) \<and> (\<forall>r \<in> set t. st_host r \<in> set hosts))"

lemma stats_ok_insert: "stats_ok hosts t \<Longrightarrow> stats_insert hosts x t = Some t' \<Longrightarrow> stats_ok hosts t'"
  using hosts_put_stat[of x t]
  by (auto simp: stats_ok_def stats_insert_def distinct_put_stat st_key_def split: if_splits)

lemma stats_ok_prune: "stats_ok hosts t \<Longrightarrow> stats_ok hosts (fst (pruneBefore c t))"
  by (auto simp: stats_ok_def stat_retention.prune_rows distinct_map_filter)

lemma stats_ok_collect_loop: "stats_ok hosts t \<Longrightarrow> stats_ok hosts (fst (collect_loop hosts now ss t))"
proof (induction hosts now ss t rule: collect_loop.induct)
  case (2 hosts now s ss t)
  then show ?case by (auto split: option.splits intro: stats_ok_insert)
qed simp

lemma stats_ok_collect: "stats_ok hosts t \<Longrightarrow> stats_ok hosts (fst (collect hosts now data t))"
  by (auto simp: collect_def stats_ok_collect_loop split: option.splits)

lemma st_host_stat_of_proxy [simp]: "st_host (stat_of_proxy now s) = px_host s"
  by (simp add: stat_of_proxy_def)

lemma collect_loop_all:
  "\<forall>s \<in> set ss. px_host s \<in> set hosts \<Longrightarrow>
     collect_loop hosts now ss t =
       (foldl (\<lambda>t r. put_stat r t) t
          (map (stat_of_proxy now) (filter (\<lambda>s. px_requests s \<noteq> 0) ss)), False)"
  by (induction hosts now ss t rule: collect_loop.induct) (auto simp: stats_insert_def)

text \<open>The first statistic of an unregistered host ends the loop; those behind it are lost.\<close>

lemma collect_loop_abort:
  assumes "\<forall>s \<in> set ss. px_host s \<in> set hosts" and "px_host s \<notin> set hosts"
    and "px_requests s \<noteq> 0" and "stats_ok hosts t"
  shows "collect_loop hosts now (ss @ s # rest) t = (fst (collect_loop hosts now ss t), True)"
  using assms(1,4)
proof (induction ss arbitrary: t)
  case Nil
  then have "st_key (stat_of_proxy now s) \<notin> set (map st_key t)"
    using assms(2) by (auto simp: stats_ok_def st_key_def stat_of_proxy_def)
  with assms show ?case by (simp add: stats_insert_def)
next
  case (Cons x xs)
  moreover have "stats_ok hosts (put_stat (stat_of_proxy now x) t)"
    using Cons.prems stats_ok_insert[where x = "stat_of_proxy now x" and t = t and hosts = hosts]
    by (simp add: stats_insert_def)
  ultimately show ?case by (simp add: stats_insert_def)
qed

subsection \<open>The period query\<close>

lemma stats_rows_sum:
  "sum_of (\<lambda>r. f r) (stats_rows bucket n h since until t) =
     sum_of g (filter (in_window h since until) t)"
  if "\<And>b rs. f (bucket_row b rs) = sum_of g rs"
proof -
  let ?G = "group_by (\<lambda>r. bucket n (st_timestamp r)) (filter (in_window h since until) t)"
  have "sum_of f (stats_rows bucket n h since until t) = sum_of (\<lambda>(b, rs). sum_of g rs) (order_by (\<lambda>x y. fst x \<le> fst y) ?G)"
    unfolding stats_rows_def by (simp add: o_def case_prod_unfold that)
  also have "\<dots> = sum_of (\<lambda>(b, rs). sum_of g rs) ?G"
    by (rule sum_of_mset_eq) simp
  finally show ?thesis by (simp only: sum_of_group_by)
qed

lemma stats_rows_sorted:
  "sorted_wrt (\<lambda>x y. ts_timestamp x < ts_timestamp y) (stats_rows bucket n h since until t)"
  unfolding stats_rows_def sorted_wrt_map
  by (rule sorted_wrt_mono_rel[OF _ sorted_groups]) (auto simp: bucket_row_def)

lemma stats_bounds_custom: "stats_bounds now PCustom (a, b) = (since, until, n) \<Longrightarrow> since = a \<and> until = b"
  by (simp add: stats_bounds_def Let_def)


subsection \<open>The summary of one host\<close>

lemma push_hourly_get:
  "push_hourly f rows h =
     (let hs = filter (\<lambda>r. hr_host r = h) rows in if hs = [] then None else Some (map f hs))"
proof (induction rows rule: rev_induct)
  case Nil
  then show ?case by (simp add: push_hourly_def)
next
  case (snoc r rs)
  have "push_hourly f (rs @ [r]) =
      (push_hourly f rs)(hr_host r \<mapsto> or_else (push_hourly f rs (hr_host r)) [] @ [f r])"
    by (simp add: push_hourly_def)
  with snoc show ?case by (auto simp: Let_def)
qed

lemma push_hourly_list: "or_else (push_hourly f rows h) [] = map f (filter (\<lambda>r. hr_host r = h) rows)"
  by (simp add: push_hourly_get Let_def)

lemma group_by_pair:
  "\<forall>r \<in> set ys. p r = h \<Longrightarrow>
     group_by (\<lambda>r. (p r, q r)) ys = map (\<lambda>(b, g). ((h, b), g)) (group_by q ys)"
proof -
  assume a: "\<forall>r \<in> set ys. p r = h"
  have u: "uniq (map (Pair h) zs) = map (Pair h) (uniq zs)" for zs
    by (induction zs rule: uniq.induct) (simp_all add: filter_map o_def)
  have "map (\<lambda>r. (p r, q r)) ys = map (Pair h) (map q ys)" using a by auto
  then have "uniq (map (\<lambda>r. (p r, q r)) ys) = map (Pair h) (uniq (map q ys))" by (simp only: u)
  moreover have "filter (\<lambda>r. (p r, q r) = (h, b)) ys = filter (\<lambda>r. q r = b) ys" for b
    using a by (auto intro!: filter_cong)
  ultimately show ?thesis by (simp add: group_by_def)
qed

lemma hourly_all_host: "filter (\<lambda>r. hr_host r = h) (hourly_all now t) = hourly_host now h t"
proof -
  let ?L = "\<lambda>x y :: (string \<times> int) \<times> stats.
     fst (fst x) < fst (fst y) \<or> fst (fst x) = fst (fst y) \<and> snd (fst x) \<le> snd (fst y)"
  let ?K = "\<lambda>r. (st_host r, hour_bucket r)"
  let ?xs = "filter (\<lambda>r. now - 86400 \<le> st_timestamp r) t"
  let ?ys = "filter (\<lambda>r. st_host r = h) ?xs"
  let ?f = "\<lambda>(b, g). ((h, b), g)"
  have f: "filter (\<lambda>x. fst (fst x) = h) (order_by ?L (group_by ?K ?xs)) =
        order_by ?L (filter (\<lambda>x. fst (fst x) = h) (group_by ?K ?xs))"
    by (rule filter_order_by) auto
  have g: "filter (\<lambda>x. fst (fst x) = h) (group_by ?K ?xs) = group_by ?K ?ys"
    by (rule filter_group_by) simp
  have p: "group_by ?K ?ys = map ?f (group_by hour_bucket ?ys)"
    by (rule group_by_pair) simp
  have s: "order_by ?L (map ?f (group_by hour_bucket ?ys)) =
        map ?f (order_by (\<lambda>x y. fst x \<le> fst y) (group_by hour_bucket ?ys))"
    by (rule map_order_by[symmetric]) (simp add: case_prod_unfold)
  have "filter (\<lambda>r. hr_host r = h) (hourly_all now t) =
        map (\<lambda>(k, g). mk_hourly (fst k) (snd k) g)
          (filter (\<lambda>x. fst (fst x) = h) (order_by ?L (group_by ?K ?xs)))"
    by (simp add: hourly_all_def filter_map o_def case_prod_unfold mk_hourly_def)
  then show ?thesis
    unfolding f g p s hourly_host_def
    by (simp add: o_def case_prod_unfold filter_filter conj_commute)
qed

lemma map_of_group_by: "or_else (map_of (group_by key xs) k) [] = filter (\<lambda>x. key x = k) xs"
proof (cases "k \<in> key ` set xs")
  case True
  then have "map_of (group_by key xs) k = Some (filter (\<lambda>x. key x = k) xs)"
    by (intro map_of_is_SomeI) (auto simp: group_by_in)
  then show ?thesis by simp
next
  case False
  then have "map_of (group_by key xs) k = None"
    by (auto simp: map_of_eq_None_iff group_by_in)
  moreover have "filter (\<lambda>x. key x = k) xs = []"
    using False by (auto simp: filter_empty_conv)
  ultimately show ?thesis by simp
qed

lemma find_group_by:
  "List.find (\<lambda>(k, g). k = h) (group_by key xs) =
     (if h \<in> key ` set xs then Some (h, filter (\<lambda>x. key x = h) xs) else None)"
proof (cases "h \<in> key ` set xs")
  case True
  then have "(h, filter (\<lambda>x. key x = h) xs) \<in> set (group_by key xs)"
    by (auto simp: group_by_in)
  then show ?thesis
    using True find_key_mem[of fst "group_by key xs" "(h, filter (\<lambda>x. key x = h) xs)"]
    by (simp add: case_prod_unfold)
next
  case False
  then show ?thesis by (auto simp: find_None_iff group_by_in)
qed

lemma find_map: "List.find P (map f xs) = map_option f (List.find (P \<circ> f) xs)"
  by (induction xs) auto

lemma filter_conj_comm: "filter (\<lambda>r. P r \<and> Q r) t = filter Q (filter P t)"
  by (simp add: filter_filter conj_commute)

lemma summary_host_eq:
  "getSummaryForHost now h t = List.find (\<lambda>s. su_host s = h) (getSummaryAll now t)"
proof -
  let ?ts = "todayStart now"
  let ?today = "filter (\<lambda>r. ?ts \<le> st_timestamp r) t"
  let ?yes = "filter (\<lambda>r. ?ts - 86400 \<le> st_timestamp r \<and> st_timestamp r < ?ts) t"
  let ?mk = "\<lambda>h g. mk_summary h g (filter (\<lambda>r. st_host r = h) ?yes)
     (map hr_requests (hourly_host now h t)) (map hr_cache_hits (hourly_host now h t))
     (map hr_bandwidth (hourly_host now h t))"
  have all: "getSummaryAll now t = map (\<lambda>(h, g). ?mk h g) (group_by st_host ?today)"
    by (simp add: getSummaryAll_def Let_def push_hourly_list hourly_all_host map_of_group_by)
  have host: "su_host (mk_summary a b c d e f) = a" for a b c d e f
    by (simp add: mk_summary_def Let_def)
  have c: "(\<lambda>s. su_host s = h) \<circ> (\<lambda>(h, g). ?mk h g) = (\<lambda>(k, g). k = h)"
    by (auto simp: fun_eq_iff host)
  have "List.find (\<lambda>s. su_host s = h) (getSummaryAll now t) =
      (if h \<in> st_host ` set ?today then Some (?mk h (filter (\<lambda>r. st_host r = h) ?today)) else None)"
    unfolding all find_map c find_group_by by simp
  moreover have "getSummaryForHost now h t =
      (if h \<in> st_host ` set ?today then Some (?mk h (filter (\<lambda>r. st_host r = h) ?today)) else None)"
    by (auto simp: getSummaryForHost_def Let_def filter_filter filter_empty_conv conj_ac)
  ultimately show ?thesis by simp
qed

subsection \<open>Totals of the collector and of the period query\<close>

lemma collect_total:
  "distinct (map st_key t) \<Longrightarrow>
     stat_total c P (foldl (\<lambda>t r. put_stat r t) t (map (stat_of_proxy now) ss)) =
       stat_total c P t +
       sum_of (\<lambda>s. counter_of c (stat_of_proxy now s)) (filter (\<lambda>s. P (px_host s, now)) ss)"
  by (simp add: stat_counters.total_fold filter_map o_def)
    (simp add: st_key_def stat_of_proxy_def)

lemma getStats_totals:
  assumes "getStats bucket now h p rng t = Inr (sm, rows)"
    and "stats_bounds now p (or_else rng (0, 0)) = (since, until, bsz)"
  shows "ss_total_requests sm = sum_of st_requests (filter (in_window h since until) t) \<and>
     ss_total_cache_hits sm = sum_of st_cache_hits (filter (in_window h since until) t) \<and>
     ss_total_cache_misses sm = sum_of st_cache_misses (filter (in_window h since until) t) \<and>
     ss_total_bandwidth sm = sum_of st_bandwidth (filter (in_window h since until) t) \<and>
     sum_of ts_requests rows = ss_total_requests sm \<and>
     sorted_wrt (\<lambda>x y. ts_timestamp x < ts_timestamp y) rows"
proof -
  let ?r = "stats_rows bucket bsz h since until t"
  note sums = stats_rows_sum[where bucket = bucket and n = bsz and h = h and since = since and until = until and t = t]
  have r: "rows = map (\<lambda>r. r\<lparr>ts_avg_response_time := of_int (math_round (ts_avg_response_time r))\<rparr>) ?r"
    and s: "sm = stats_summary_of ?r (filter (in_window h (since - (until - since)) since) t)"
    using assms by (auto simp: getStats_def Let_def split: option.splits)
  have q: "sum_of ts_requests rows = sum_of ts_requests ?r" by (simp add: r o_def)
  show ?thesis
    using stats_rows_sorted[of bucket bsz h since until t]
      sums[of ts_requests st_requests] sums[of ts_cache_hits st_cache_hits]
      sums[of ts_cache_misses st_cache_misses] sums[of ts_bandwidth st_bandwidth]
    by (simp add: q s stats_summary_of_def Let_def bucket_row_def) (simp add: r sorted_wrt_map)
qed

end
