(* ===== verification/Events_Repo.thy ===== *)
theory Events_Repo
  imports Stats_Repo
begin

section \<open>The optimization events\<close>

text \<open>
  \<open>db/optimization-events-repo.ts\<close> and \<open>optimization-events-pruner.ts\<close> of the admin server: the
  \<open>optimization_events\<close> table, its inserts, queries and aggregates, and its retention. The table has
  no foreign key. \<open>hash\<close> stands for the SHA-256 prefix of \<open>hashUrl\<close>, and \<open>parse\<close> for \<open>Date.parse\<close>,
  whose result (milliseconds, \<open>None\<close> for \<open>NaN\<close>) the language leaves open for most strings.
\<close>

record event =
  e_id :: int
  e_ts :: int
  e_event_type :: string
  e_host :: string
  e_url_hash :: string
  e_url :: string
  e_decision :: string
  e_orig_size :: "int option"
  e_out_size :: "int option"
  e_range_header :: "string option"
  e_content_type :: "string option"
  e_elapsed_ms :: int

record events =
  ev_rows :: "event list"
  ev_seq :: int

record event_input =
  ei_ts :: "string option"
  ei_event_type :: string
  ei_host :: string
  ei_url :: string
  ei_decision :: string
  ei_orig_size :: "int option"
  ei_out_size :: "int option"
  ei_range_header :: "string option"
  ei_content_type :: "string option"
  ei_elapsed_ms :: int

definition toUnixSecInput :: "(string \<Rightarrow> int option) \<Rightarrow> int \<Rightarrow> string option \<Rightarrow> int" where
  "toUnixSecInput parse now inp =
     (case inp of
        None \<Rightarrow> now
      | Some s \<Rightarrow> (case parse s of None \<Rightarrow> 0 | Some ms \<Rightarrow> ms div 1000))"

definition unixSecToIso :: "int \<Rightarrow> string" where
  "unixSecToIso sec = toISOString (sec * 1000)"

definition event_row ::
  "(string \<Rightarrow> string) \<Rightarrow> (string \<Rightarrow> int option) \<Rightarrow> int \<Rightarrow> int \<Rightarrow> event_input \<Rightarrow> event" where
  "event_row hash parse now i ev =
     \<lparr>e_id = i, e_ts = toUnixSecInput parse now (ei_ts ev), e_event_type = ei_event_type ev,
      e_host = ei_host ev, e_url_hash = hash (ei_url ev), e_url = ei_url ev,
      e_decision = ei_decision ev, e_orig_size = ei_orig_size ev, e_out_size = ei_out_size ev,
      e_range_header = ei_range_header ev, e_content_type = ei_content_type ev,
      e_elapsed_ms = ei_elapsed_ms ev\<rparr>"

definition event_insert ::
  "(string \<Rightarrow> string) \<Rightarrow> (string \<Rightarrow> int option) \<Rightarrow> int \<Rightarrow> event_input \<Rightarrow> events \<Rightarrow> events" where
  "event_insert hash parse now ev s =
     \<lparr>ev_rows = ev_rows s @ [event_row hash parse now (ev_seq s + 1) ev], ev_seq = ev_seq s + 1\<rparr>"

fun insertBatch ::
  "(string \<Rightarrow> string) \<Rightarrow> (string \<Rightarrow> int option) \<Rightarrow> int \<Rightarrow> event_input list \<Rightarrow> events \<Rightarrow> events" where
  "insertBatch hash parse now [] s = s"
| "insertBatch hash parse now (ev # evs) s =
     insertBatch hash parse now evs (event_insert hash parse now ev s)"

subsection \<open>Queries\<close>

text \<open>A filter of the source is active when its value is truthy: present and not empty.\<close>

definition opt_eq :: "string option \<Rightarrow> string \<Rightarrow> bool" where
  "opt_eq q x = (case q of None \<Rightarrow> True | Some s \<Rightarrow> s = [] \<or> x = s)"

record events_query =
  eq_event_type :: "string option"
  eq_host :: "string option"
  eq_decision :: "string option"
  eq_since :: "string option"
  eq_limit :: jsprim

definition event_query_matches ::
  "(string \<Rightarrow> int option) \<Rightarrow> int \<Rightarrow> events_query \<Rightarrow> event \<Rightarrow> bool" where
  "event_query_matches parse now q e =
     (opt_eq (eq_event_type q) (e_event_type e) \<and> opt_eq (eq_host q) (e_host e) \<and>
      opt_eq (eq_decision q) (e_decision e) \<and>
      (case eq_since q of
         None \<Rightarrow> True
       | Some s \<Rightarrow> s = [] \<or> toUnixSecInput parse now (Some s) \<le> e_ts e))"

definition query_limit :: "jsprim \<Rightarrow> int" where
  "query_limit raw = clampInt raw \<lparr>co_min = Some 1, co_max = 1000, co_fallback = 100\<rparr>"

definition query ::
  "(string \<Rightarrow> int option) \<Rightarrow> int \<Rightarrow> events_query \<Rightarrow> events \<Rightarrow> (event \<times> string) list" where
  "query parse now q s =
     map (\<lambda>e. (e, unixSecToIso (e_ts e)))
       (sql_page (Some (query_limit (eq_limit q))) 0
         (order_by (\<lambda>a b. e_ts b \<le> e_ts a) (filter (event_query_matches parse now q) (ev_rows s))))"

record stats_query =
  sq_event_type :: "string option"
  sq_host :: "string option"
  sq_period_sec :: "int option"

record decision_stats =
  ds_decision :: string
  ds_count :: int
  ds_total_orig :: int
  ds_total_out :: int
  ds_avg_elapsed_ms :: int

definition stats_query_matches :: "int \<Rightarrow> stats_query \<Rightarrow> event \<Rightarrow> bool" where
  "stats_query_matches now q e =
     (now - or_else (sq_period_sec q) 86400 \<le> e_ts e \<and>
      opt_eq (sq_event_type q) (e_event_type e) \<and> opt_eq (sq_host q) (e_host e))"

text \<open>\<open>COALESCE(SUM(column), 0)\<close>: missing values do not count.\<close>

definition sum_opt :: "('a \<Rightarrow> int option) \<Rightarrow> 'a list \<Rightarrow> int" where
  "sum_opt f xs = sum_of (\<lambda>x. or_else (f x) 0) xs"

definition decision_row :: "string \<Rightarrow> event list \<Rightarrow> decision_stats" where
  "decision_row d g =
     \<lparr>ds_decision = d, ds_count = int (length g), ds_total_orig = sum_opt e_orig_size g,
      ds_total_out = sum_opt e_out_size g,
      ds_avg_elapsed_ms = math_round (avg_of (\<lambda>e. of_int (e_elapsed_ms e)) g)\<rparr>"

definition statsByDecision :: "int \<Rightarrow> stats_query \<Rightarrow> events \<Rightarrow> decision_stats list" where
  "statsByDecision now q s =
     order_by (\<lambda>a b. ds_count b \<le> ds_count a)
       (map (\<lambda>(d, g). decision_row d g)
         (group_by e_decision (filter (stats_query_matches now q) (ev_rows s))))"

subsection \<open>Deletion\<close>

definition prune_events :: "int \<Rightarrow> event list \<Rightarrow> event list \<times> nat" where
  "prune_events cutoff t =
     (filter (\<lambda>e. \<not> e_ts e < cutoff) t, length (filter (\<lambda>e. e_ts e < cutoff) t))"

definition event_prune ::
  "(string \<Rightarrow> int option) \<Rightarrow> int \<Rightarrow> string \<Rightarrow> events \<Rightarrow> events \<times> nat" where
  "event_prune parse now beforeIso s =
     (let (rows, n) = prune_events (toUnixSecInput parse now (Some beforeIso)) (ev_rows s)
      in (s\<lparr>ev_rows := rows\<rparr>, n))"

definition delete_events :: "(event \<Rightarrow> bool) \<Rightarrow> events \<Rightarrow> events \<times> nat" where
  "delete_events P s =
     (s\<lparr>ev_rows := filter (\<lambda>e. \<not> P e) (ev_rows s)\<rparr>, length (filter P (ev_rows s)))"

definition reconcileOrphans :: "string list \<Rightarrow> events \<Rightarrow> events \<times> nat" where
  "reconcileOrphans hosts s = delete_events (\<lambda>e. e_host e \<notin> set hosts) s"

definition deleteByHost :: "string \<Rightarrow> events \<Rightarrow> events \<times> nat" where
  "deleteByHost h s = delete_events (\<lambda>e. e_host e = h) s"

definition deleteByHosts :: "string list \<Rightarrow> events \<Rightarrow> events \<times> nat" where
  "deleteByHosts hs s = (if hs = [] then (s, 0) else delete_events (\<lambda>e. e_host e \<in> set hs) s)"

definition findHostsWithRecentDecision :: "string \<Rightarrow> int \<Rightarrow> events \<Rightarrow> string list" where
  "findHostsWithRecentDecision decision since s =
     order_by (\<lambda>a b. a \<le> b)
       (uniq (map e_host (filter (\<lambda>e. e_decision e = decision \<and> since \<le> e_ts e) (ev_rows s))))"

subsection \<open>The pruner\<close>

text \<open>One \<open>tick\<close>: retention, then the events of hosts that are no longer registered.\<close>

definition events_pruner_tick ::
  "(string \<Rightarrow> int option) \<Rightarrow> int \<Rightarrow> int \<Rightarrow> string list \<Rightarrow> events \<Rightarrow> events \<times> nat" where
  "events_pruner_tick parse now_ms days hosts s =
     (let beforeIso = toISOString (now_ms - days * 24 * 60 * 60 * 1000);
          (s1, r) = event_prune parse (now_ms div 1000) beforeIso s;
          (s2, orphan) = reconcileOrphans hosts s1
      in (s2, r + orphan))"


subsection \<open>The aggregate of one URL\<close>

record diagnose_row =
  dg_sample_count :: int
  dg_hit_ratio_pct :: "int option"
  dg_bypass_count :: int
  dg_error_5xx :: int
  dg_timeout_count :: int
  dg_origin_sample_count :: int
  dg_avg_origin_rtt_ms :: "int option"
  dg_range_single_count :: int
  dg_range_multi_count :: int
  dg_range_none_count :: int

text \<open>The pattern \<open>bytes=*[0-9]-*[0-9]\<close> of the \<open>GLOB\<close> test, as a list of tokens.\<close>

datatype glob_tok = GChar char | GStar | GDigit

fun glob :: "glob_tok list \<Rightarrow> string \<Rightarrow> bool" where
  "glob [] s = (s = [])"
| "glob (GChar c # ps) s = (case s of [] \<Rightarrow> False | x # xs \<Rightarrow> x = c \<and> glob ps xs)"
| "glob (GDigit # ps) s = (case s of [] \<Rightarrow> False | x # xs \<Rightarrow> is_digit x \<and> glob ps xs)"
| "glob (GStar # ps) s = (glob ps s \<or> (case s of [] \<Rightarrow> False | x # xs \<Rightarrow> glob (GStar # ps) xs))"

definition range_glob :: "glob_tok list" where
  "range_glob = map GChar ''bytes='' @ [GStar, GDigit, GChar (CHR ''-''), GStar, GDigit]"

definition is_hit :: "event \<Rightarrow> bool" where
  "is_hit e = (e_decision e \<in> set [''served_200'', ''served_206'', ''l1_hit'', ''l2_hit''])"

definition is_origin :: "event \<Rightarrow> bool" where
  "is_origin e = (e_decision e = ''stored_new'' \<or> sql_like None ''origin_%'' (e_decision e))"

definition is_bypass :: "event \<Rightarrow> bool" where
  "is_bypass e = sql_like None ''bypass_%'' (e_decision e)"

definition range_multi :: "event \<Rightarrow> bool" where
  "range_multi e = (case e_range_header e of None \<Rightarrow> False | Some r \<Rightarrow> sql_like None ''%,%'' r)"

definition range_single :: "event \<Rightarrow> bool" where
  "range_single e = (case e_range_header e of None \<Rightarrow> False
     | Some r \<Rightarrow> glob range_glob r \<and> \<not> sql_like None ''%,%'' r)"

definition count_if :: "('a \<Rightarrow> bool) \<Rightarrow> 'a list \<Rightarrow> int" where
  "count_if P xs = int (length (filter P xs))"

definition diagnoseAggregate ::
  "(string \<Rightarrow> string) \<Rightarrow> int \<Rightarrow> string \<Rightarrow> string \<Rightarrow> int \<Rightarrow> events \<Rightarrow> diagnose_row" where
  "diagnoseAggregate hash now host url periodSec s =
     (let rows = filter (\<lambda>e. e_host e = host \<and> e_url_hash e = hash url \<and> now - periodSec \<le> e_ts e)
                   (ev_rows s);
          hit = count_if is_hit rows;
          miss = count_if is_origin rows;
          sample = hit + miss;
          origin = filter is_origin rows
      in \<lparr>dg_sample_count = sample,
          dg_hit_ratio_pct =
            (if sample = 0 then None else Some (math_round (of_int hit / of_int sample * 100))),
          dg_bypass_count = count_if is_bypass rows,
          dg_error_5xx = count_if (\<lambda>e. e_decision e = ''origin_error_5xx'') rows,
          dg_timeout_count = count_if (\<lambda>e. e_decision e = ''origin_timeout'') rows,
          dg_origin_sample_count = miss,
          dg_avg_origin_rtt_ms =
            (if origin = [] then None
             else Some (math_round (avg_of (\<lambda>e. of_int (e_elapsed_ms e)) origin))),
          dg_range_single_count = count_if range_single rows,
          dg_range_multi_count = count_if range_multi rows,
          dg_range_none_count = count_if (\<lambda>e. e_range_header e = None) rows\<rparr>)"

subsection \<open>The breakdown by URL\<close>

record breakdown_query =
  bq_host :: string
  bq_period_sec :: "int option"
  bq_sort :: "string option"
  bq_decision :: "string option"
  bq_search :: "string option"
  bq_limit :: jsprim
  bq_offset :: jsprim

record breakdown_item =
  bi_url :: string
  bi_events :: int
  bi_total_orig :: int
  bi_total_out :: int
  bi_savings_ratio :: rat
  bi_decisions :: string

definition breakdown_matches :: "int \<Rightarrow> breakdown_query \<Rightarrow> event \<Rightarrow> bool" where
  "breakdown_matches now q e =
     (e_host e = bq_host q \<and> now - or_else (bq_period_sec q) 86400 \<le> e_ts e \<and>
      opt_eq (bq_decision q) (e_decision e) \<and>
      (case bq_search q of
         None \<Rightarrow> True
       | Some w \<Rightarrow> w = [] \<or> sql_like (Some backslash) (CHR ''%'' # escapeLike w @ ''%'') (e_url e)))"

text \<open>\<open>COALESCE(out_size, orig_size)\<close>: an event without an output counts as delivered unchanged.\<close>

definition effectiveOut :: "event \<Rightarrow> int option" where
  "effectiveOut e = (case e_out_size e of None \<Rightarrow> e_orig_size e | Some n \<Rightarrow> Some n)"

definition join_comma :: "string list \<Rightarrow> string" where
  "join_comma ws = (case ws of [] \<Rightarrow> [] | v # vs \<Rightarrow> v @ concat (map (\<lambda>x. CHR '','' # x) vs))"

definition url_item :: "string \<Rightarrow> event list \<Rightarrow> breakdown_item" where
  "url_item url g =
     (let tot = sum_opt e_orig_size g; out = sum_opt effectiveOut g
      in \<lparr>bi_url = url, bi_events = int (length g), bi_total_orig = tot, bi_total_out = out,
          bi_savings_ratio = (if 0 < tot then 1 - of_int out / of_int tot else 0),
          bi_decisions = join_comma (uniq (map e_decision g))\<rparr>)"

text \<open>
  The sort expressions. A sum over no value is \<open>NULL\<close>, as is a quotient by zero, and \<open>NULL\<close> comes
  last when the order is descending.
\<close>

definition sum_null :: "('a \<Rightarrow> int option) \<Rightarrow> 'a list \<Rightarrow> int option" where
  "sum_null f g = (if \<forall>x \<in> set g. f x = None then None else Some (sum_opt f g))"

definition savings_key :: "event list \<Rightarrow> rat option" where
  "savings_key g =
     (case sum_null e_orig_size g of
        None \<Rightarrow> None
      | Some tot \<Rightarrow> if tot = 0 then None else Some (1 - of_int (sum_opt effectiveOut g) / of_int tot))"

definition breakdown_key :: "string option \<Rightarrow> event list \<Rightarrow> rat option" where
  "breakdown_key srt g =
     (if srt = Some ''orig_size'' then map_option of_int (sum_null e_orig_size g)
      else if srt = Some ''events'' then Some (of_nat (length g))
      else savings_key g)"

definition null_last_ge :: "rat option \<Rightarrow> rat option \<Rightarrow> bool" where
  "null_last_ge a b = (case b of None \<Rightarrow> True | Some y \<Rightarrow> (case a of None \<Rightarrow> False | Some x \<Rightarrow> y \<le> x))"

definition urlBreakdown :: "int \<Rightarrow> breakdown_query \<Rightarrow> events \<Rightarrow> nat \<times> breakdown_item list" where
  "urlBreakdown now q s =
     (let groups = group_by e_url (filter (breakdown_matches now q) (ev_rows s));
          lim = clampInt (bq_limit q) \<lparr>co_min = Some 1, co_max = 500, co_fallback = 50\<rparr>;
          off = clampOffset (bq_offset q) 1000000
      in (length groups,
          map (\<lambda>(u, g). url_item u g)
            (sql_page (Some lim) off
              (order_by (\<lambda>a b. null_last_ge (breakdown_key (bq_sort q) (snd a)) (breakdown_key (bq_sort q) (snd b)))
                groups))))"

subsection \<open>Laws\<close>

lemma insertBatch_append:
  "\<exists>new. ev_rows (insertBatch hash parse now evs s) = ev_rows s @ new \<and>
     list_all2 (\<lambda>e ev. e = event_row hash parse now (e_id e) ev) new evs"
proof (induction evs arbitrary: s)
  case (Cons ev evs)
  let ?s = "event_insert hash parse now ev s" and ?e = "event_row hash parse now (ev_seq s + 1) ev"
  obtain new where "ev_rows (insertBatch hash parse now evs ?s) = ev_rows ?s @ new"
    "list_all2 (\<lambda>e ev. e = event_row hash parse now (e_id e) ev) new evs"
    using Cons by blast
  then show ?case
    by (intro exI[of _ "?e # new"]) (simp add: event_insert_def event_row_def)
qed simp

lemma set_insertBatch:
  "e \<in> set (ev_rows (insertBatch hash parse now evs s)) \<Longrightarrow>
     e \<in> set (ev_rows s) \<or> (\<exists>ev \<in> set evs. \<exists>i. e = event_row hash parse now i ev)"
proof (induction evs arbitrary: s)
  case (Cons ev evs)
  then have "e \<in> set (ev_rows (event_insert hash parse now ev s)) \<or>
      (\<exists>v \<in> set evs. \<exists>i. e = event_row hash parse now i v)" by simp
  then show ?case by (auto simp: event_insert_def)
qed simp

interpretation event_retention: retention_store e_ts prune_events
proof (unfold_locales, goal_cases)
  case (1 c t) then show ?case by (simp add: prune_events_def not_less)
next
  case (2 c t) then show ?case
    using sum_length_filter_compl[of "\<lambda>e. e_ts e < c" t] by (simp add: prune_events_def)
qed

lemma delete_events_count:
  "snd (delete_events P s) + length (ev_rows (fst (delete_events P s))) = length (ev_rows s)"
  using sum_length_filter_compl[of P "ev_rows s"] by (simp add: delete_events_def)

lemma query_limit_range: "1 \<le> query_limit raw \<and> query_limit raw \<le> 1000"
  using clampInt_range[of "\<lparr>co_min = Some 1, co_max = 1000, co_fallback = 100\<rparr>" raw]
  by (simp add: query_limit_def)

lemma length_query: "int (length (query parse now q s)) \<le> 1000"
proof -
  have l: "0 \<le> query_limit (eq_limit q)" "query_limit (eq_limit q) \<le> 1000"
    using query_limit_range[of "eq_limit q"] by auto
  show ?thesis
    unfolding query_def length_map using order_trans[OF length_sql_page[OF l(1)] l(2)] .
qed

lemma statsByDecision_total:
  "sum_of ds_count (statsByDecision now q s) =
     int (length (filter (stats_query_matches now q) (ev_rows s)))"
proof -
  let ?r = "filter (stats_query_matches now q) (ev_rows s)"
  have one: "sum_of (\<lambda>_. 1) xs = int (length xs)" for xs :: "event list"
    by (induction xs) auto
  have "sum_of ds_count (statsByDecision now q s) =
      sum_of ds_count (map (\<lambda>(d, g). decision_row d g) (group_by e_decision ?r))"
    unfolding statsByDecision_def by (rule sum_of_mset_eq) simp
  also have "\<dots> = sum_of (\<lambda>(d, g). sum_of (\<lambda>_. 1) g) (group_by e_decision ?r)"
    by (simp add: o_def case_prod_unfold decision_row_def one)
  also have "\<dots> = sum_of (\<lambda>_. 1) ?r" by (rule sum_of_group_by)
  also have "\<dots> = int (length ?r)" by (rule one)
  finally show ?thesis .
qed

lemma statsByDecision_distinct: "distinct (map ds_decision (statsByDecision now q s))"
proof -
  let ?r = "filter (stats_query_matches now q) (ev_rows s)"
  have "mset (map ds_decision (statsByDecision now q s)) =
      mset (map ds_decision (map (\<lambda>(d, g). decision_row d g) (group_by e_decision ?r)))"
    unfolding statsByDecision_def by (simp only: mset_map mset_order_by)
  also have "map ds_decision (map (\<lambda>(d, g). decision_row d g) (group_by e_decision ?r)) =
      map fst (group_by e_decision ?r)"
    by (auto simp: case_prod_unfold decision_row_def simp del: keys_group_by)
  finally show ?thesis by (metis distinct_group_by mset_eq_imp_distinct_iff)
qed

lemma events_pruner_result:
  assumes "parse (toISOString (now_ms - days * 24 * 60 * 60 * 1000)) = Some (now_ms - days * 24 * 60 * 60 * 1000)"
    and "events_pruner_tick parse now_ms days hosts s = (s', n)"
  shows "ev_rows s' = filter (\<lambda>e. (now_ms - days * 86400000) div 1000 \<le> e_ts e \<and> e_host e \<in> set hosts) (ev_rows s) \<and>
     n + length (ev_rows s') = length (ev_rows s) \<and> ev_seq s' = ev_seq s"
proof -
  let ?c = "(now_ms - days * 24 * 60 * 60 * 1000) div 1000"
  obtain rows k where p: "prune_events ?c (ev_rows s) = (rows, k)" by fastforce
  have pr: "event_prune parse (now_ms div 1000) (toISOString (now_ms - days * 24 * 60 * 60 * 1000)) s =
     (s\<lparr>ev_rows := rows\<rparr>, k)"
    using p assms(1) by (simp add: event_prune_def toUnixSecInput_def)
  obtain s2 m where r: "reconcileOrphans hosts (s\<lparr>ev_rows := rows\<rparr>) = (s2, m)" by fastforce
  have e: "s' = s2" "n = k + m" using assms(2) pr r by (simp_all add: events_pruner_tick_def)
  have rows: "rows = filter (\<lambda>e. ?c \<le> e_ts e) (ev_rows s)" "k + length rows = length (ev_rows s)"
    using event_retention.prune_rows[of ?c "ev_rows s"] event_retention.prune_count[of ?c "ev_rows s"] p by simp_all
  have s2: "ev_rows s2 = filter (\<lambda>e. e_host e \<in> set hosts) rows" "m + length (ev_rows s2) = length rows"
    "ev_seq s2 = ev_seq s"
    using r delete_events_count[of "\<lambda>e. e_host e \<notin> set hosts" "s\<lparr>ev_rows := rows\<rparr>"]
    by (auto simp: reconcileOrphans_def delete_events_def)
  have "?c = (now_ms - days * 86400000) div 1000" by simp
  with e rows s2 show ?thesis by (auto simp: conj_commute intro!: filter_cong)
qed

end
