(* ===== verification/Audit_Dns.thy ===== *)
theory Audit_Dns
  imports Events_Repo
begin

section \<open>The audit log and the DNS metrics\<close>

text \<open>
  \<open>db/audit-repo.ts\<close>, \<open>db/dns-metrics-repo.ts\<close> and \<open>dns-metrics-collector.ts\<close> of the admin server.
\<close>

subsection \<open>The audit log\<close>

text \<open>\<open>before\<close> and \<open>after\<close> are the objects before \<open>JSON.stringify\<close>, as lists of members.\<close>

datatype audit_value = AStr string | ABool bool | ANum jsnum | ANull

type_synonym audit_obj = "(string \<times> audit_value) list"

record audit_input =
  ai_actor_user_id :: "jsnum option"
  ai_actor_ip :: "string option"
  ai_action :: string
  ai_target_type :: string
  ai_target_id :: "string option"
  ai_before :: "audit_obj option"
  ai_after :: "audit_obj option"

record audit_row =
  al_id :: int
  al_actor_user_id :: "jsnum option"
  al_actor_ip :: "string option"
  al_action :: string
  al_target_type :: string
  al_target_id :: "string option"
  al_before :: "audit_obj option"
  al_after :: "audit_obj option"
  al_created_at :: int

record audit_log =
  au_rows :: "audit_row list"
  au_seq :: int

text \<open>\<open>ok\<close> says whether the driver runs the statement; an exception is swallowed.\<close>

definition audit_insert :: "bool \<Rightarrow> int \<Rightarrow> audit_input \<Rightarrow> audit_log \<Rightarrow> audit_log" where
  "audit_insert ok now inp s =
     (if ok then
        \<lparr>au_rows = au_rows s @
           [\<lparr>al_id = au_seq s + 1, al_actor_user_id = ai_actor_user_id inp,
             al_actor_ip = ai_actor_ip inp, al_action = ai_action inp,
             al_target_type = ai_target_type inp, al_target_id = ai_target_id inp,
             al_before = ai_before inp, al_after = ai_after inp, al_created_at = now\<rparr>],
         au_seq = au_seq s + 1\<rparr>
      else s)"

record audit_query =
  aq_action :: "string option"
  aq_actor_user_id :: "jsnum option"
  aq_target_type :: "string option"
  aq_target_id :: "string option"
  aq_from :: "rat option"
  aq_to :: "rat option"
  aq_limit :: "jsnum option"
  aq_offset :: "jsnum option"

definition opt_eq_null :: "string option \<Rightarrow> string option \<Rightarrow> bool" where
  "opt_eq_null q x = (case q of None \<Rightarrow> True | Some s \<Rightarrow> s = [] \<or> x = Some s)"

definition audit_matches :: "audit_query \<Rightarrow> audit_row \<Rightarrow> bool" where
  "audit_matches q r =
     (opt_eq (aq_action q) (al_action r) \<and>
      (case aq_actor_user_id q of None \<Rightarrow> True | Some i \<Rightarrow> al_actor_user_id r = Some i) \<and>
      opt_eq (aq_target_type q) (al_target_type r) \<and>
      opt_eq_null (aq_target_id q) (al_target_id r) \<and>
      (case aq_from q of None \<Rightarrow> True | Some x \<Rightarrow> x \<le> of_int (al_created_at r)) \<and>
      (case aq_to q of None \<Rightarrow> True | Some x \<Rightarrow> of_int (al_created_at r) \<le> x))"

definition audit_limit :: "jsnum option \<Rightarrow> int" where
  "audit_limit l = (case l of Some (Fin x) \<Rightarrow> if 0 < x then min 1000 \<lfloor>x\<rfloor> else 50 | _ \<Rightarrow> 50)"

definition audit_offset :: "jsnum option \<Rightarrow> int" where
  "audit_offset l = (case l of Some (Fin x) \<Rightarrow> if 0 \<le> x then \<lfloor>x\<rfloor> else 0 | _ \<Rightarrow> 0)"

definition audit_row_le :: "audit_row \<Rightarrow> audit_row \<Rightarrow> bool" where
  "audit_row_le a b =
     (al_created_at b < al_created_at a \<or> al_created_at b = al_created_at a \<and> al_id b \<le> al_id a)"

definition audit_list :: "audit_query \<Rightarrow> audit_log \<Rightarrow> audit_row list \<times> nat" where
  "audit_list q s =
     (let hits = filter (audit_matches q) (au_rows s)
      in (sql_page (Some (audit_limit (aq_limit q))) (audit_offset (aq_offset q)) (order_by audit_row_le hits),
          length hits))"

lemma audit_insert_append: "\<exists>new. au_rows (audit_insert ok now inp s) = au_rows s @ new \<and> length new \<le> 1"
  by (simp add: audit_insert_def)

lemma audit_limit_range: "0 \<le> audit_limit l \<and> audit_limit l \<le> 1000"
  by (auto simp: audit_limit_def split: option.splits jsnum.splits)

lemma sorted_audit_list: "sorted_wrt audit_row_le (fst (audit_list q s))"
  unfolding audit_list_def Let_def fst_conv
  by (intro sorted_sql_page sorted_order_by) (auto simp: audit_row_le_def)

lemma length_audit_list: "int (length (fst (audit_list q s))) \<le> 1000"
proof -
  have l: "0 \<le> audit_limit (aq_limit q)" "audit_limit (aq_limit q) \<le> 1000"
    using audit_limit_range[of "aq_limit q"] by auto
  show ?thesis
    unfolding audit_list_def Let_def fst_conv using order_trans[OF length_sql_page[OF l(1)] l(2)] .
qed

subsection \<open>The DNS metrics\<close>

record metric =
  mt_total :: int
  mt_matched :: int
  mt_nxdomain :: int
  mt_forwarded :: int

type_synonym metrics = "(int \<times> metric) list"

definition add_metric :: "metric \<Rightarrow> metric \<Rightarrow> metric" where
  "add_metric a b = \<lparr>mt_total = mt_total a + mt_total b, mt_matched = mt_matched a + mt_matched b,
     mt_nxdomain = mt_nxdomain a + mt_nxdomain b, mt_forwarded = mt_forwarded a + mt_forwarded b\<rparr>"

definition upsertDelta :: "int \<times> metric \<Rightarrow> metrics \<Rightarrow> metrics" where
  "upsertDelta bd t =
     (if fst bd \<in> set (map fst t)
      then update_where (\<lambda>r. fst r = fst bd) (\<lambda>r. (fst r, add_metric (snd r) (snd bd))) t
      else t @ [bd])"

definition metrics_range :: "int \<Rightarrow> int \<Rightarrow> metrics \<Rightarrow> metrics" where
  "metrics_range from to t =
     order_by (\<lambda>a b. fst a \<le> fst b) (filter (\<lambda>r. from \<le> fst r \<and> fst r \<le> to) t)"

definition prune_metrics :: "int \<Rightarrow> metrics \<Rightarrow> metrics \<times> nat" where
  "prune_metrics before t =
     (filter (\<lambda>r. \<not> fst r < before) t, length (filter (\<lambda>r. fst r < before) t))"

text \<open>The collector: the last snapshot and the table.\<close>

record collector =
  cl_last :: "metric option"
  cl_table :: metrics

definition computeDelta :: "metric \<Rightarrow> metric \<Rightarrow> metric" where
  "computeDelta prev cur =
     (if mt_total cur < mt_total prev then cur
      else \<lparr>mt_total = mt_total cur - mt_total prev, mt_matched = mt_matched cur - mt_matched prev,
            mt_nxdomain = mt_nxdomain cur - mt_nxdomain prev,
            mt_forwarded = mt_forwarded cur - mt_forwarded prev\<rparr>)"

definition bucket_of :: "int \<Rightarrow> int" where
  "bucket_of now = now div 60000 * 60000"

definition RETENTION_MS :: int where
  "RETENTION_MS = 24 * 60 * 60 * 1000"

text \<open>\<open>None\<close> is a failed call of the DNS service.\<close>

definition dns_tick :: "int \<Rightarrow> metric option \<Rightarrow> collector \<Rightarrow> collector" where
  "dns_tick now snap c =
     (case snap of
        None \<Rightarrow> c
      | Some current \<Rightarrow>
          (case cl_last c of
             None \<Rightarrow> \<lparr>cl_last = Some current, cl_table = fst (prune_metrics (now - RETENTION_MS) (cl_table c))\<rparr>
           | Some lst \<Rightarrow>
               let delta = computeDelta lst current;
                   t = (if mt_total delta > 0 \<or> mt_matched delta > 0 \<or> mt_nxdomain delta > 0 \<or> mt_forwarded delta > 0
                        then upsertDelta (bucket_of now, delta) (cl_table c) else cl_table c)
               in \<lparr>cl_last = Some current, cl_table = fst (prune_metrics (now - RETENTION_MS) t)\<rparr>))"

datatype metric_counter = MTotal | MMatched | MNxdomain | MForwarded

fun metric_of :: "metric_counter \<Rightarrow> metric \<Rightarrow> int" where
  "metric_of MTotal m = mt_total m"
| "metric_of MMatched m = mt_matched m"
| "metric_of MNxdomain m = mt_nxdomain m"
| "metric_of MForwarded m = mt_forwarded m"

definition metric_total :: "metric_counter \<Rightarrow> (int \<Rightarrow> bool) \<Rightarrow> metrics \<Rightarrow> int" where
  "metric_total c P t = sum_of (\<lambda>r. metric_of c (snd r)) (filter (\<lambda>r. P (fst r)) t)"

lemma metric_of_add: "metric_of c (add_metric a b) = metric_of c a + metric_of c b"
  by (cases c) (simp_all add: add_metric_def)

lemma keys_upsertDelta [tbl]:
  "map fst (upsertDelta bd t) = (if fst bd \<in> set (map fst t) then map fst t else map fst t @ [fst bd])"
  by (simp add: upsertDelta_def map_update_where[where key = fst])

lemma metric_total_update:
  "distinct (map fst t) \<Longrightarrow> k \<in> set (map fst t) \<Longrightarrow>
     metric_total c P (update_where (\<lambda>r. fst r = k) (\<lambda>r. (fst r, add_metric (snd r) m)) t) =
       metric_total c P t + (if P k then metric_of c m else 0)"
proof (induction t)
  case (Cons r t)
  show ?case
  proof (cases "fst r = k")
    case True
    with Cons.prems have "\<forall>r' \<in> set t. \<not> fst r' = k" by (force simp: image_iff)
    then have "update_where (\<lambda>r. fst r = k) (\<lambda>r. (fst r, add_metric (snd r) m)) t = t"
      by (rule update_where_none)
    with True show ?thesis
      by (simp add: metric_total_def update_where_def metric_of_add)
  next
    case False
    with Cons show ?thesis by (simp add: metric_total_def update_where_def)
  qed
qed simp

interpretation metric_counters: counter_store fst "\<lambda>c r. metric_of c (snd r)" metric_total upsertDelta
    "\<lambda>t r. distinct (map fst t)"
proof (unfold_locales, goal_cases)
  case (1 t r c P)
  then show ?case
    by (cases "fst r \<in> set (map fst t)")
      (simp_all only: upsertDelta_def if_True if_False metric_total_update,
       simp add: metric_total_def)
next
  case (2 t r r') then show ?case by (simp only: keys_upsertDelta split: if_splits) simp
qed

interpretation metric_retention: retention_store fst prune_metrics
proof (unfold_locales, goal_cases)
  case (1 c t) then show ?case by (simp add: prune_metrics_def not_less)
next
  case (2 c t) then show ?case
    using sum_length_filter_compl[of "\<lambda>r. fst r < c" t] by (simp add: prune_metrics_def)
qed

subsection \<open>Ticks of the collector\<close>

lemma bucket_in_window: "now - RETENTION_MS \<le> bucket_of now"
proof -
  have "now mod 60000 < 60000" by simp
  moreover have "bucket_of now = now - now mod 60000"
    unfolding bucket_of_def by (metis minus_mod_eq_div_mult)
  ultimately show ?thesis by (simp add: RETENTION_MS_def)
qed

lemma computeDelta_of:
  "mt_total prev \<le> mt_total cur \<Longrightarrow> metric_of c (computeDelta prev cur) = metric_of c cur - metric_of c prev"
  by (cases c) (simp_all add: computeDelta_def)

lemma metric_total_prune:
  "(\<And>b. P b \<Longrightarrow> before \<le> b) \<Longrightarrow> metric_total c P (fst (prune_metrics before t)) = metric_total c P t"
  unfolding metric_total_def by (subst metric_retention.prune_window) auto

lemma distinct_prune_metrics: "distinct (map fst t) \<Longrightarrow> distinct (map fst (fst (prune_metrics b t)))"
  by (simp add: prune_metrics_def distinct_map_filter)

lemma dns_tick_total:
  assumes "distinct (map fst (cl_table s))" and "cl_last s = Some prev" and "\<And>c. metric_of c prev \<le> metric_of c cur"
    and "\<And>b. P b \<Longrightarrow> now - RETENTION_MS \<le> b"
  shows "metric_total c P (cl_table (dns_tick now (Some cur) s)) =
     metric_total c P (cl_table s) +
       (if P (bucket_of now) then metric_of c cur - metric_of c prev else 0)"
proof -
  let ?d = "computeDelta prev cur"
  have t: "mt_total prev \<le> mt_total cur" using assms(3)[of MTotal] by simp
  have d: "metric_of c ?d = metric_of c cur - metric_of c prev" for c by (rule computeDelta_of[OF t])
  show ?thesis
  proof (cases "mt_total ?d > 0 \<or> mt_matched ?d > 0 \<or> mt_nxdomain ?d > 0 \<or> mt_forwarded ?d > 0")
    case True
    have "metric_total c P (upsertDelta (bucket_of now, ?d) (cl_table s)) =
       metric_total c P (cl_table s) + (if P (bucket_of now) then metric_of c ?d else 0)"
      using metric_counters.total_put[OF assms(1), of c P "(bucket_of now, ?d)"] by simp
    with True show ?thesis using assms(2) metric_total_prune[OF assms(4)] by (simp add: dns_tick_def d)
  next
    case False
    have "0 \<le> metric_of c ?d" for c using assms(3)[of c] by (simp add: d)
    from this[of MTotal] this[of MMatched] this[of MNxdomain] this[of MForwarded] False
    have "mt_total ?d = 0" "mt_matched ?d = 0" "mt_nxdomain ?d = 0" "mt_forwarded ?d = 0" by auto
    then have "metric_of c ?d = 0" by (cases c) simp_all
    with False show ?thesis using assms(2) metric_total_prune[OF assms(4)] by (simp add: dns_tick_def d)
  qed
qed

lemma dns_tick_distinct: "distinct (map fst (cl_table s)) \<Longrightarrow> distinct (map fst (cl_table (dns_tick now snap s)))"
  by (auto simp: dns_tick_def Let_def keys_upsertDelta intro!: distinct_prune_metrics split: option.splits)

lemma dns_tick_last: "cl_last (dns_tick now (Some cur) s) = Some cur"
  by (auto simp: dns_tick_def Let_def split: option.splits)

text \<open>A run of ticks: the times and the answers of the DNS service.\<close>

definition dns_run :: "(int \<times> metric option) list \<Rightarrow> collector \<Rightarrow> collector" where
  "dns_run ticks s = foldl (\<lambda>s (now, snap). dns_tick now snap s) s ticks"

text \<open>The counters of a service that does not restart: each answer at least the one before.\<close>

fun rising_from :: "metric \<Rightarrow> (int \<times> metric option) list \<Rightarrow> bool" where
  "rising_from m [] = True"
| "rising_from m ((now, None) # ts) = rising_from m ts"
| "rising_from m ((now, Some c) # ts) =
     (mt_total m \<le> mt_total c \<and> mt_matched m \<le> mt_matched c \<and> mt_nxdomain m \<le> mt_nxdomain c \<and>
      mt_forwarded m \<le> mt_forwarded c \<and> rising_from c ts)"

definition last_snapshot :: "metric \<Rightarrow> (int \<times> metric option) list \<Rightarrow> metric" where
  "last_snapshot m ts = foldl (\<lambda>m (now, snap). or_else snap m) m ts"

lemma dns_run_total:
  "distinct (map fst (cl_table s)) \<Longrightarrow> cl_last s = Some m \<Longrightarrow> rising_from m ts \<Longrightarrow>
     (\<And>now snap b. (now, snap) \<in> set ts \<Longrightarrow> P b \<Longrightarrow> now - RETENTION_MS \<le> b) \<Longrightarrow>
     (\<And>now snap. (now, snap) \<in> set ts \<Longrightarrow> P (bucket_of now)) \<Longrightarrow>
     metric_total c P (cl_table (dns_run ts s)) =
       metric_total c P (cl_table s) + (metric_of c (last_snapshot m ts) - metric_of c m)"
proof (induction m ts arbitrary: s rule: rising_from.induct)
  case (1 m)
  then show ?case by (simp add: dns_run_def last_snapshot_def)
next
  case (2 m now ts)
  have "dns_tick now None s = s" by (simp add: dns_tick_def)
  moreover have "metric_total c P (cl_table (dns_run ts s)) =
     metric_total c P (cl_table s) + (metric_of c (last_snapshot m ts) - metric_of c m)"
    by (rule 2(1)[OF 2(2,3)]) (use 2(4) in simp, (meson 2(5,6) list.set_intros(2))+)
  ultimately show ?case by (simp add: dns_run_def last_snapshot_def)
next
  case (3 m now cur ts)
  have r: "metric_of c m \<le> metric_of c cur" for c using 3(4) by (cases c) simp_all
  have w: "P b \<Longrightarrow> now - RETENTION_MS \<le> b" for b using 3(5)[of now "Some cur" b] by simp
  have "P (bucket_of now)" by (rule 3(6)[of now "Some cur"]) simp
  with dns_tick_total[where c = c, OF 3(2,3) r w]
  have t: "metric_total c P (cl_table (dns_tick now (Some cur) s)) =
     metric_total c P (cl_table s) + (metric_of c cur - metric_of c m)" by simp
  have "metric_total c P (cl_table (dns_run ts (dns_tick now (Some cur) s))) =
     metric_total c P (cl_table (dns_tick now (Some cur) s)) + (metric_of c (last_snapshot cur ts) - metric_of c cur)"
    by (rule 3(1)[OF dns_tick_distinct[OF 3(2)] dns_tick_last])
      (use 3(4) in simp, (meson 3(5,6) list.set_intros(2))+)
  then show ?case by (simp add: dns_run_def last_snapshot_def t)
qed

end
