(* ===== verification/User_Repo.thy ===== *)
theory User_Repo
  imports Domain_Repo
begin

section \<open>The user repository\<close>

text \<open>
  \<open>services/admin-server/src/db/user-repo.ts\<close>: the \<open>users\<close> table, whose \<open>username\<close> column is
  unique without ASCII case, and the operations of \<open>UserRepository\<close>. Rows whose name starts with
  \<open>__dup_\<close> are archives of the duplicate migration; counting, listing and the lookup by name pass
  over them. \<open>AUTOINCREMENT\<close> hands out ids above every id ever used, which the state keeps beside the
  rows.
\<close>

record user =
  u_id :: int
  u_username :: string
  u_password_hash :: string
  u_created_at :: int
  u_updated_at :: int
  u_disabled_at :: "int option"
  u_last_login_at :: "int option"
  u_token_version :: int

record users =
  us_rows :: "user list"
  us_seq :: int

definition dup_pattern :: string where
  "dup_pattern = [backslash, CHR ''_'', backslash, CHR ''_'', CHR ''d'', CHR ''u'', CHR ''p'', backslash,
     CHR ''_'', CHR ''%'']"

definition is_archive :: "string \<Rightarrow> bool" where
  "is_archive name = sql_like (Some backslash) dup_pattern name"

text \<open>The \<open>username\<close> column compares with \<open>NOCASE\<close>.\<close>

definition same_name :: "string \<Rightarrow> string \<Rightarrow> bool" where
  "same_name a b = (nocase a = nocase b)"

definition count_users :: "users \<Rightarrow> nat" where
  "count_users s = length (filter (\<lambda>u. \<not> is_archive (u_username u)) (us_rows s))"

definition findById :: "users \<Rightarrow> int \<Rightarrow> user option" where
  "findById s i = List.find (\<lambda>u. u_id u = i) (us_rows s)"

definition findByUsername :: "users \<Rightarrow> string \<Rightarrow> user option" where
  "findByUsername s name =
     List.find (\<lambda>u. same_name (u_username u) name \<and> \<not> is_archive (u_username u)) (us_rows s)"

text \<open>\<open>None\<close> is the exception of the violated \<open>UNIQUE\<close> constraint.\<close>

definition create :: "int \<Rightarrow> string \<Rightarrow> string \<Rightarrow> users \<Rightarrow> (users \<times> user) option" where
  "create now name hash s =
     (if \<exists>u \<in> set (us_rows s). same_name (u_username u) name then None
      else
        let u = \<lparr>u_id = us_seq s + 1, u_username = name, u_password_hash = hash,
                 u_created_at = now, u_updated_at = now, u_disabled_at = None,
                 u_last_login_at = None, u_token_version = 0\<rparr>
        in Some (\<lparr>us_rows = us_rows s @ [u], us_seq = us_seq s + 1\<rparr>, u))"

definition on_user :: "int \<Rightarrow> (user \<Rightarrow> user) \<Rightarrow> users \<Rightarrow> users" where
  "on_user i f s = s\<lparr>us_rows := update_where (\<lambda>u. u_id u = i) f (us_rows s)\<rparr>"

definition updatePassword :: "int \<Rightarrow> int \<Rightarrow> string \<Rightarrow> users \<Rightarrow> users" where
  "updatePassword now i hash s = on_user i (\<lambda>u. u\<lparr>u_password_hash := hash, u_updated_at := now\<rparr>) s"

definition updateLastLogin :: "int \<Rightarrow> int \<Rightarrow> users \<Rightarrow> users" where
  "updateLastLogin now i s = on_user i (\<lambda>u. u\<lparr>u_last_login_at := Some now, u_updated_at := now\<rparr>) s"

definition disable :: "int \<Rightarrow> int \<Rightarrow> users \<Rightarrow> users" where
  "disable now i s = on_user i (\<lambda>u. u\<lparr>u_disabled_at := Some now, u_updated_at := now\<rparr>) s"

definition bumpTokenVersion :: "int \<Rightarrow> int \<Rightarrow> users \<Rightarrow> users" where
  "bumpTokenVersion now i s =
     on_user i (\<lambda>u. u\<lparr>u_token_version := u_token_version u + 1, u_updated_at := now\<rparr>) s"

definition enable :: "int \<Rightarrow> int \<Rightarrow> users \<Rightarrow> users" where
  "enable now i s = on_user i (\<lambda>u. u\<lparr>u_disabled_at := None, u_updated_at := now\<rparr>) s"

subsection \<open>Listing\<close>

record user_list_opts =
  ul_sort :: "string option"
  ul_order :: "string option"
  ul_q :: "string option"
  ul_enabled :: "bool option"
  ul_limit :: "jsnum option"
  ul_offset :: "jsnum option"

definition USER_SORT_WHITELIST :: "string list" where
  "USER_SORT_WHITELIST = [''id'', ''username'', ''created_at'', ''updated_at'', ''last_login_at'']"

definition USER_ORDER_WHITELIST :: "string list" where
  "USER_ORDER_WHITELIST = [''asc'', ''desc'']"

definition user_sort_col :: "user_list_opts \<Rightarrow> string" where
  "user_sort_col uo = (case ul_sort uo of
       Some s \<Rightarrow> if s \<noteq> [] \<and> s \<in> set USER_SORT_WHITELIST then s else ''created_at''
     | None \<Rightarrow> ''created_at'')"

definition user_sort_dir :: "user_list_opts \<Rightarrow> string" where
  "user_sort_dir uo = (case ul_order uo of
       Some s \<Rightarrow> if s \<noteq> [] \<and> js_lower s \<in> set USER_ORDER_WHITELIST then js_upper_ascii s else ''DESC''
     | None \<Rightarrow> ''DESC'')"

text \<open>The sort key of a row; a missing login sorts before every time, as \<open>NULL\<close> does.\<close>

datatype sort_key = KInt int | KStr string | KNull

fun key_le :: "sort_key \<Rightarrow> sort_key \<Rightarrow> bool" where
  "key_le KNull b = True"
| "key_le (KInt x) (KInt y) = (x \<le> y)"
| "key_le (KInt x) (KStr y) = True"
| "key_le (KInt x) KNull = False"
| "key_le (KStr x) (KStr y) = (x \<le> y)"
| "key_le (KStr x) (KInt y) = False"
| "key_le (KStr x) KNull = False"

definition user_key :: "string \<Rightarrow> user \<Rightarrow> sort_key" where
  "user_key col u =
     (if col = ''id'' then KInt (u_id u)
      else if col = ''username'' then KStr (nocase (u_username u))
      else if col = ''updated_at'' then KInt (u_updated_at u)
      else if col = ''last_login_at'' then (case u_last_login_at u of None \<Rightarrow> KNull | Some x \<Rightarrow> KInt x)
      else KInt (u_created_at u))"

text \<open>
  The \<open>ORDER BY\<close> list: \<open>last_login_at IS NULL\<close> when that column sorts downwards, the column, and the
  id in the same direction.
\<close>

definition lex_le :: "('a \<Rightarrow> 'a \<Rightarrow> bool) \<Rightarrow> ('a \<Rightarrow> 'a \<Rightarrow> bool) \<Rightarrow> 'a \<Rightarrow> 'a \<Rightarrow> bool" where
  "lex_le le1 le2 a b = (le1 a b \<and> (le1 b a \<longrightarrow> le2 a b))"

definition dir_le :: "string \<Rightarrow> ('a \<Rightarrow> 'a \<Rightarrow> bool) \<Rightarrow> 'a \<Rightarrow> 'a \<Rightarrow> bool" where
  "dir_le dir le a b = (if dir = ''DESC'' then le b a else le a b)"

definition user_row_le :: "user_list_opts \<Rightarrow> user \<Rightarrow> user \<Rightarrow> bool" where
  "user_row_le uo =
     (let col = user_sort_col uo; dir = user_sort_dir uo;
          main = lex_le (dir_le dir (\<lambda>a b. key_le (user_key col a) (user_key col b)))
                        (dir_le dir (\<lambda>a b. u_id a \<le> u_id b))
      in if col = ''last_login_at'' \<and> dir = ''DESC''
         then lex_le (\<lambda>a b. u_last_login_at a = None \<longrightarrow> u_last_login_at b = None) main
         else main)"

definition user_matches :: "user_list_opts \<Rightarrow> user \<Rightarrow> bool" where
  "user_matches uo u =
     (\<not> is_archive (u_username u) \<and>
      (case ul_q uo of
         None \<Rightarrow> True
       | Some q0 \<Rightarrow> let q = js_trim q0
           in q = [] \<or> sql_like (Some backslash) (CHR ''%'' # escapeLike q @ ''%'') (u_username u)) \<and>
      (case ul_enabled uo of
         None \<Rightarrow> True
       | Some b \<Rightarrow> (u_disabled_at u = None) = b))"

definition user_limit :: "user_list_opts \<Rightarrow> int option" where
  "user_limit uo = (case ul_limit uo of
       Some (Fin x) \<Rightarrow> if 0 < x then Some (min 1000 \<lfloor>x\<rfloor>) else None
     | _ \<Rightarrow> None)"

definition user_offset :: "user_list_opts \<Rightarrow> int" where
  "user_offset uo = (case ul_offset uo of
       Some (Fin x) \<Rightarrow> if 0 \<le> x then \<lfloor>x\<rfloor> else 0
     | _ \<Rightarrow> 0)"

text \<open>Without a limit there is no \<open>LIMIT\<close> clause and the offset is dropped with it.\<close>

definition listWithTotal :: "user_list_opts \<Rightarrow> users \<Rightarrow> user list \<times> nat" where
  "listWithTotal uo s =
     (let hits = filter (user_matches uo) (us_rows s);
          sorted_rows = order_by (user_row_le uo) hits
      in (case user_limit uo of
            None \<Rightarrow> sorted_rows
          | Some n \<Rightarrow> sql_page (Some n) (user_offset uo) sorted_rows,
          length hits))"


subsection \<open>Laws\<close>

definition ids_of :: "users \<Rightarrow> int list" where
  "ids_of s = map u_id (us_rows s)"

interpretation user_rows: keyed_rows u_id ids_of findById on_user
    "\<lambda>u s. s\<lparr>us_rows := us_rows s @ [u]\<rparr>"
proof (unfold_locales, goal_cases)
  case (1 t k r) then show ?case by (auto simp: findById_def dest: find_key_Some)
next
  case (2 t k) then show ?case by (simp add: findById_def ids_of_def find_key_None[of u_id])
next
  case (3 f k t) then show ?case by (simp add: ids_of_def on_user_def map_update_where[of u_id])
next
  case (4 f k t k') then show ?case by (simp add: findById_def on_user_def find_key_update_where[of u_id])
next
  case (5 r t) then show ?case by (simp add: ids_of_def)
next
  case (6 r t k) then show ?case by (simp add: findById_def find_append split: option.splits)
qed

lemma findById_mem: "findById s i = Some u \<Longrightarrow> u \<in> set (us_rows s) \<and> u_id u = i"
  by (auto simp: findById_def dest: find_key_Some)

lemmas user_ops = updatePassword_def updateLastLogin_def disable_def bumpTokenVersion_def enable_def

lemma findById_on_user:
  "(\<And>u. u_id (f u) = u_id u) \<Longrightarrow>
     findById (on_user i f s) j = (if j = i then map_option f (findById s i) else findById s j)"
  by (rule user_rows.lookup_modify)

lemma findById_updates [simp]:
  "findById (updatePassword now i h s) j =
     (if j = i then map_option (\<lambda>u. u\<lparr>u_password_hash := h, u_updated_at := now\<rparr>) (findById s i)
      else findById s j)"
  "findById (updateLastLogin now i s) j =
     (if j = i then map_option (\<lambda>u. u\<lparr>u_last_login_at := Some now, u_updated_at := now\<rparr>) (findById s i)
      else findById s j)"
  "findById (disable now i s) j =
     (if j = i then map_option (\<lambda>u. u\<lparr>u_disabled_at := Some now, u_updated_at := now\<rparr>) (findById s i)
      else findById s j)"
  "findById (bumpTokenVersion now i s) j =
     (if j = i then map_option (\<lambda>u. u\<lparr>u_token_version := u_token_version u + 1, u_updated_at := now\<rparr>) (findById s i)
      else findById s j)"
  "findById (enable now i s) j =
     (if j = i then map_option (\<lambda>u. u\<lparr>u_disabled_at := None, u_updated_at := now\<rparr>) (findById s i)
      else findById s j)"
  by (simp_all add: user_ops findById_on_user)

lemma us_seq_ops [simp]:
  "us_seq (on_user i f s) = us_seq s"
  by (simp add: on_user_def)

definition users_ok :: "users \<Rightarrow> bool" where
  "users_ok s =
     (distinct (ids_of s) \<and> (\<forall>i \<in> set (ids_of s). 1 \<le> i \<and> i \<le> us_seq s) \<and>
      distinct (map (\<lambda>u. nocase (u_username u)) (us_rows s)) \<and> 0 \<le> us_seq s)"

lemma users_ok_on_user:
  assumes "\<And>u. u_id (f u) = u_id u" and "\<And>u. u_username (f u) = u_username u" and "users_ok s"
  shows "users_ok (on_user i f s)"
proof -
  have "map (\<lambda>u. nocase (u_username u)) (us_rows (on_user i f s)) =
        map (\<lambda>u. nocase (u_username u)) (us_rows s)"
    using assms(2) by (simp add: on_user_def map_update_where[where key = "\<lambda>u. nocase (u_username u)"])
  then show ?thesis
    using assms(3) by (simp add: users_ok_def user_rows.keys_modify[OF assms(1)])
qed

lemma users_ok_updates [intro]:
  "users_ok s \<Longrightarrow> users_ok (updatePassword now i h s)"
  "users_ok s \<Longrightarrow> users_ok (updateLastLogin now i s)"
  "users_ok s \<Longrightarrow> users_ok (disable now i s)"
  "users_ok s \<Longrightarrow> users_ok (bumpTokenVersion now i s)"
  "users_ok s \<Longrightarrow> users_ok (enable now i s)"
  by (simp_all add: user_ops users_ok_on_user)

lemma users_ok_create: "users_ok s \<Longrightarrow> create now name hash s = Some (s', u) \<Longrightarrow> users_ok s'"
  by (fastforce simp: users_ok_def create_def Let_def ids_of_def same_name_def split: if_splits)

lemma create_result:
  assumes "users_ok s" and "create now name hash s = Some (s', u)"
  shows "findById s' (u_id u) = Some u" and "findById s (u_id u) = None"
    and "u_username u = name" and "u_disabled_at u = None" and "u_token_version u = 0"
    and "j \<noteq> u_id u \<Longrightarrow> findById s' j = findById s j" and "u_password_hash u = hash"
    and "u_last_login_at u = None"
proof -
  have n: "findById s (us_seq s + 1) = None"
    using assms(1) by (force simp: user_rows.lookup_None users_ok_def)
  have s': "us_rows s' = us_rows s @ [u]" "u_id u = us_seq s + 1"
    using assms(2) by (auto simp: create_def Let_def split: if_splits)
  then have f: "findById s' k = (case findById s k of None \<Rightarrow> if u_id u = k then Some u else None | Some x \<Rightarrow> Some x)" for k
    by (simp add: findById_def find_append split: option.splits)
  from f n s' show "findById s' (u_id u) = Some u" "findById s (u_id u) = None"
    "j \<noteq> u_id u \<Longrightarrow> findById s' j = findById s j" by (auto split: option.splits)
  show "u_username u = name" "u_disabled_at u = None" "u_token_version u = 0" "u_password_hash u = hash"
    "u_last_login_at u = None"
    using assms(2) by (auto simp: create_def Let_def split: if_splits)
qed

subsection \<open>Every operation of the repository as a step\<close>

inductive user_step :: "users \<Rightarrow> users \<Rightarrow> bool" where
  Create: "create now name hash s = Some (s', u) \<Longrightarrow> user_step s s'"
| UpdatePassword: "user_step s (updatePassword now i hash s)"
| UpdateLastLogin: "user_step s (updateLastLogin now i s)"
| Disable: "user_step s (disable now i s)"
| Bump: "user_step s (bumpTokenVersion now i s)"
| Enable: "user_step s (enable now i s)"

inductive_cases user_stepE: "user_step s s'"

lemma user_step_version:
  "user_step s s' \<Longrightarrow> findById s i = Some u \<Longrightarrow>
     \<exists>u'. findById s' i = Some u' \<and> u_token_version u \<le> u_token_version u'"
proof (erule user_step.cases, goal_cases)
  case (1 now name hash s0 s1 v)
  then have "us_rows s1 = us_rows s0 @ [v]"
    by (auto simp: create_def Let_def split: if_splits)
  with 1 show ?case by (simp add: findById_def find_append)
qed auto

interpretation sessions: versioned_rows findById u_token_version user_step
  by unfold_locales (rule user_step_version)

lemma users_ok_step: "user_step s s' \<Longrightarrow> users_ok s \<Longrightarrow> users_ok s'"
  by (erule user_stepE) (auto intro: users_ok_create)

lemma users_ok_steps: "user_step\<^sup>*\<^sup>* s s' \<Longrightarrow> users_ok s \<Longrightarrow> users_ok s'"
  by (induction rule: rtranclp_induct) (auto intro: users_ok_step)

subsection \<open>Names\<close>

lemma is_archive_prefix: "is_archive name \<longleftrightarrow> starts_with (''__dup_'') (nocase name)"
proof -
  have p: "dup_pattern = escapeLike ''__dup_'' @ ''%''"
    by (simp add: dup_pattern_def escape_char_def backslash_def)
  have n: "nocase ''__dup_'' = ''__dup_''" by (simp add: nocase_def nocase_char_def)
  show ?thesis unfolding is_archive_def p like_escaped_prefix n ..
qed

lemma findByUsername_Some:
  "findByUsername s name = Some u \<Longrightarrow>
     u \<in> set (us_rows s) \<and> nocase (u_username u) = nocase name \<and> \<not> is_archive (u_username u)"
  by (auto simp: findByUsername_def same_name_def find_Some_iff)

lemma findByUsername_None:
  "findByUsername s name = None \<longleftrightarrow>
     (\<forall>u \<in> set (us_rows s). nocase (u_username u) = nocase name \<longrightarrow> is_archive (u_username u))"
  by (auto simp: findByUsername_def same_name_def find_None_iff)

subsection \<open>The order of the list\<close>

definition preorder :: "('a \<Rightarrow> 'a \<Rightarrow> bool) \<Rightarrow> bool" where
  "preorder le = ((\<forall>a b. le a b \<or> le b a) \<and> (\<forall>a b c. le a b \<longrightarrow> le b c \<longrightarrow> le a c))"

lemma preorder_lex: "preorder le1 \<Longrightarrow> preorder le2 \<Longrightarrow> preorder (lex_le le1 le2)"
  unfolding preorder_def lex_le_def by meson

lemma preorder_dir: "preorder le \<Longrightarrow> preorder (dir_le d le)"
  unfolding preorder_def dir_le_def by meson

lemma key_le_total: "key_le a b \<or> key_le b a"
  by (cases a; cases b) auto

lemma key_le_trans: "key_le a b \<Longrightarrow> key_le b c \<Longrightarrow> key_le a c"
  by (cases a; cases b; cases c) auto

lemma preorder_key: "preorder (\<lambda>a b. key_le (f a) (f b))"
  using key_le_total key_le_trans unfolding preorder_def by blast

lemma preorder_user_row_le: "preorder (user_row_le uo)"
proof -
  have i: "preorder (\<lambda>a b. u_id a \<le> u_id b)" by (auto simp: preorder_def)
  have n: "preorder (\<lambda>a b. u_last_login_at a = None \<longrightarrow> u_last_login_at b = None)"
    by (auto simp: preorder_def)
  show ?thesis
    by (simp add: user_row_le_def Let_def preorder_lex preorder_dir preorder_key i n)
qed

lemma sorted_listWithTotal: "sorted_wrt (user_row_le uo) (fst (listWithTotal uo s))"
proof -
  have "sorted_wrt (user_row_le uo) (order_by (user_row_le uo) (filter (user_matches uo) (us_rows s)))"
    using preorder_user_row_le[of uo] by (intro sorted_order_by) (auto simp: preorder_def)
  then show ?thesis
    by (auto simp: listWithTotal_def Let_def split: option.splits intro: sorted_sql_page)
qed

lemma set_listWithTotal: "set (fst (listWithTotal uo s)) \<subseteq> {u \<in> set (us_rows s). user_matches uo u}"
  using set_sql_page by (fastforce simp: listWithTotal_def Let_def split: option.splits)

lemma length_listWithTotal:
  "length (fst (listWithTotal uo s)) \<le> snd (listWithTotal uo s)"
  by (auto simp: listWithTotal_def Let_def sql_page_def split: option.splits)

end
