(* ===== verification/Database.thy ===== *)
theory Database
  imports Audit_Dns User_Repo
begin

section \<open>The database, its transactions, and HTTP replies\<close>

text \<open>
  The admin server opens one SQLite connection and gives it to every repository. Its state is the
  content of the tables, and, while a transaction is open, the content when it began. Deleting a row
  of \<open>domains\<close> deletes its rows of \<open>domain_stats\<close> (\<open>ON DELETE CASCADE\<close>); the events have no foreign
  key. \<open>runInTransactionAsync\<close> of \<open>db/domain-repo.ts\<close> is modelled by its two halves, since it awaits
  its callback in between.
\<close>

record db =
  t_domains :: domains
  t_stats :: stats
  t_events :: events
  t_users :: users
  t_audit :: audit_log

record conn =
  c_db :: db
  c_saved :: "db option"

definition db_delete_domains :: "(string \<Rightarrow> bool) \<Rightarrow> db \<Rightarrow> db" where
  "db_delete_domains P s =
     s\<lparr>t_domains := filter (\<lambda>d. \<not> P (d_host d)) (t_domains s),
       t_stats := filter (\<lambda>r. \<not> P (st_host r)) (t_stats s)\<rparr>"

definition on_domains :: "(domains \<Rightarrow> domains) \<Rightarrow> conn \<Rightarrow> conn" where
  "on_domains f c = c\<lparr>c_db := (c_db c)\<lparr>t_domains := f (t_domains (c_db c))\<rparr>\<rparr>"

subsection \<open>Transactions\<close>

text \<open>\<open>BEGIN IMMEDIATE\<close> throws inside a transaction; \<open>COMMIT\<close> and \<open>ROLLBACK\<close> throw outside one.\<close>

definition begin_tx :: "conn \<Rightarrow> conn option" where
  "begin_tx c = (case c_saved c of None \<Rightarrow> Some (c\<lparr>c_saved := Some (c_db c)\<rparr>) | Some _ \<Rightarrow> None)"

definition end_tx :: "bool \<Rightarrow> conn \<Rightarrow> conn option" where
  "end_tx commit c =
     (case c_saved c of
        None \<Rightarrow> None
      | Some s \<Rightarrow> Some (if commit then c\<lparr>c_saved := None\<rparr> else c\<lparr>c_db := s, c_saved := None\<rparr>))"

lemma begin_tx_fresh: "c_saved c = None \<Longrightarrow> begin_tx c = Some (c\<lparr>c_saved := Some (c_db c)\<rparr>)"
  by (simp add: begin_tx_def)

lemma begin_tx_db: "begin_tx c = Some c' \<Longrightarrow> c_db c' = c_db c \<and> c_saved c' = Some (c_db c) \<and> c_saved c = None"
  by (auto simp: begin_tx_def split: option.splits)

text \<open>What a transaction promises: a rollback gives back the content it began with.\<close>

locale transactional =
  fixes content :: "'c \<Rightarrow> 'd"
    and saved :: "'c \<Rightarrow> 'd option"
    and start :: "'c \<Rightarrow> 'c option"
    and finish :: "bool \<Rightarrow> 'c \<Rightarrow> 'c option"
  assumes start_saves: "start c = Some c' \<Longrightarrow> content c' = content c \<and> saved c' = Some (content c)"
    and start_iff: "(start c = None) = (saved c \<noteq> None)"
    and rollback: "saved c = Some d \<Longrightarrow> \<exists>c'. finish False c = Some c' \<and> content c' = d \<and> saved c' = None"
    and commit: "saved c = Some d \<Longrightarrow>
        \<exists>c'. finish True c = Some c' \<and> content c' = content c \<and> saved c' = None"
begin

lemma undone:
  assumes "start c = Some c1" and "saved c2 = saved c1"
  shows "\<exists>c'. finish False c2 = Some c' \<and> content c' = content c \<and> saved c' = None"
  using start_saves[OF assms(1)] rollback[of c2 "content c"] assms(2) by simp

lemma kept:
  assumes "start c = Some c1" and "saved c2 = saved c1"
  shows "\<exists>c'. finish True c2 = Some c' \<and> content c' = content c2 \<and> saved c' = None"
  using start_saves[OF assms(1)] commit[of c2 "content c"] assms(2) by simp

lemma nested_fails: "start c = Some c1 \<Longrightarrow> saved c2 = saved c1 \<Longrightarrow> start c2 = None"
  using start_saves[of c c1] start_iff[of c2] by simp

end

interpretation tx: transactional c_db c_saved begin_tx end_tx
  by unfold_locales (auto simp: begin_tx_def end_tx_def split: option.splits)

subsection \<open>Replies\<close>

text \<open>
  A reply carries a status and a body, or an error code. \<open>Throw\<close> and \<open>UriError\<close> reach the error handler
  of \<open>error-handlers.ts\<close>, which answers 500, or 400 for the exception of \<open>decodeURIComponent\<close>.
\<close>

datatype 'a reply = Ok int 'a | Reject int string | Throw | UriError

fun status_of :: "'a reply \<Rightarrow> int" where
  "status_of (Ok n b) = n"
| "status_of (Reject n e) = n"
| "status_of Throw = 500"
| "status_of UriError = 400"

subsection \<open>Effects on the other services\<close>

record proxy_domain =
  pd_host :: string
  pd_origin :: string
  pd_stale_if_error_secs :: "int option"
  pd_coalesce_capacity :: "int option"

datatype effect =
    ProxySync "proxy_domain list" bool
  | TlsSync "(string \<times> string) list" bool
  | DnsSync "(string \<times> string) list" bool
  | SetProfile string bool
  | RemoveProfile string bool
  | ProxyPurge string bool

end
