(* ===== verification/Domain_Input.thy ===== *)
theory Domain_Input
  imports Database
begin

section \<open>Domain names and origins from outside\<close>

text \<open>
  The input checks of \<open>routes/domains.ts\<close>: \<open>normalizeHost\<close>, \<open>DOMAIN_RE\<close>, \<open>isValidOrigin\<close> and
  \<open>normalizeOrigin\<close>, and \<open>decodeURIComponent\<close> of the path parameter. The WHATWG parser behind
  \<open>new URL\<close> is a function argument; \<open>None\<close> is its exception.
\<close>

definition normalizeHost :: "string \<Rightarrow> string" where
  "normalizeHost s = js_lower (js_trim s)"

text \<open>
  \<open>[a-z0-9]([a-z0-9-]{0,61}[a-z0-9])?\<close> without case: 1 to 63 letters, digits and hyphens, the first
  and the last no hyphen.
\<close>

definition is_label :: "string \<Rightarrow> bool" where
  "is_label w =
     (w \<noteq> [] \<and> length w \<le> 63 \<and> is_alnum (hd w) \<and> is_alnum (last w) \<and>
      list_all (\<lambda>c. is_alnum c \<or> c = CHR ''-'') w)"

definition DOMAIN_RE :: "string \<Rightarrow> bool" where
  "DOMAIN_RE s =
     (let ws = split_on (CHR ''.'') (if starts_with ''*.'' s then drop 2 s else s)
      in 2 \<le> length ws \<and> list_all is_label ws)"

record url =
  url_protocol :: string
  url_hostname :: string
  url_pathname :: string
  url_search :: string
  url_hash :: string
  url_origin :: string

type_synonym url_parser = "string \<Rightarrow> url option"

definition ORIGIN_MAX_LENGTH :: nat where
  "ORIGIN_MAX_LENGTH = 2083"

definition isValidOrigin :: "url_parser \<Rightarrow> jsprim \<Rightarrow> bool" where
  "isValidOrigin parse v =
     (case v of
        Str s \<Rightarrow>
          length s \<noteq> 0 \<and> length s \<le> ORIGIN_MAX_LENGTH \<and> \<not> list_ex is_ws s \<and>
          (case parse s of
             None \<Rightarrow> False
           | Some u \<Rightarrow>
               (url_protocol u = ''http:'' \<or> url_protocol u = ''https:'') \<and>
               url_hostname u \<noteq> [] \<and>
               (url_pathname u = [] \<or> url_pathname u = ''/'') \<and>
               url_search u = [] \<and> url_hash u = [])
      | _ \<Rightarrow> False)"

text \<open>\<open>None\<close> is the exception of \<open>new URL\<close>, which the checked inputs do not raise.\<close>

definition normalizeOrigin :: "url_parser \<Rightarrow> string \<Rightarrow> string option" where
  "normalizeOrigin parse s = map_option url_origin (parse s)"

subsection \<open>Path parameters\<close>

text \<open>
  \<open>decodeURIComponent\<close>: \<open>%XX\<close> sequences are UTF-8 bytes. \<open>None\<close> is the \<open>URIError\<close>. A valid sequence
  for a code point above 255 is outside the strings of the model and stands with the errors.
\<close>

definition hex_pair :: "string \<Rightarrow> (nat \<times> string) option" where
  "hex_pair s =
     (case s of
        p # a # b # r \<Rightarrow>
          if p = CHR ''%'' \<and> digit_val a < 16 \<and> digit_val b < 16
          then Some (16 * digit_val a + digit_val b, r) else None
      | _ \<Rightarrow> None)"

lemma hex_pair_length: "hex_pair s = Some (n, r) \<Longrightarrow> length r < length s"
  by (auto simp: hex_pair_def split: list.splits if_splits)

function decodeURIComponent :: "string \<Rightarrow> string option" where
  "decodeURIComponent s =
     (case s of
        [] \<Rightarrow> Some []
      | c # cs \<Rightarrow>
          if c \<noteq> CHR ''%'' then map_option ((#) c) (decodeURIComponent cs)
          else
            (case hex_pair s of
               None \<Rightarrow> None
             | Some (b, r) \<Rightarrow>
                 if b < 128 then map_option ((#) (char_of b)) (decodeURIComponent r)
                 else if 194 \<le> b \<and> b \<le> 195 then
                   (case hex_pair r of
                      None \<Rightarrow> None
                    | Some (b2, r2) \<Rightarrow>
                        if 128 \<le> b2 \<and> b2 < 192
                        then map_option ((#) (char_of ((b - 192) * 64 + (b2 - 128)))) (decodeURIComponent r2)
                        else None)
                 else None))"
  by pat_completeness auto

termination
  by (relation "measure length") (auto dest!: hex_pair_length)

declare decodeURIComponent.simps [simp del]

text \<open>\<open>normalizeHost(decodeURIComponent(request.params.host))\<close>.\<close>

definition host_param :: "string \<Rightarrow> string option" where
  "host_param raw = map_option normalizeHost (decodeURIComponent raw)"

lemma decodeURIComponent_plain: "CHR ''%'' \<notin> set s \<Longrightarrow> decodeURIComponent s = Some s"
  by (induction s) (auto simp: decodeURIComponent.simps)

lemma decodeURIComponent_wildcard: "decodeURIComponent ''%2A.textbook.com'' = Some ''*.textbook.com''"
  by code_simp

subsection \<open>Laws\<close>

lemma normalizeHost_idem [simp, strs]: "normalizeHost (normalizeHost s) = normalizeHost s"
  by (simp add: normalizeHost_def js_trim_lower)

lemma is_alnum_lower [simp]: "is_alnum (lower_char c) = is_alnum c"
  by (auto simp: is_alnum_def lower_char_def Let_def of_char_of)

lemma is_alnum_not_ws: "is_alnum c \<Longrightarrow> \<not> is_ws c"
  by (auto simp: is_alnum_def is_ws_def Let_def)

lemma label_not_ws: "is_label w \<Longrightarrow> c \<in> set w \<Longrightarrow> \<not> is_ws c"
proof -
  assume a: "is_label w" "c \<in> set w"
  have "\<not> is_ws (CHR ''-'')" by (simp add: is_ws_def)
  with a show ?thesis by (auto simp: is_label_def list_all_iff is_alnum_not_ws)
qed

lemma set_split_on: "set s \<subseteq> insert d (\<Union>w \<in> set (split_on d s). set w)"
proof (induction s)
  case (Cons c cs)
  then show ?case by (cases "split_on d cs") auto
qed simp

lemma domain_not_ws:
  assumes "DOMAIN_RE s" and "c \<in> set s"
  shows "\<not> is_ws c"
proof -
  let ?r = "if starts_with ''*.'' s then drop 2 s else s"
  have l: "\<forall>w \<in> set (split_on (CHR ''.'') ?r). is_label w"
    using assms(1) by (simp add: DOMAIN_RE_def Let_def list_all_iff)
  have dot: "\<not> is_ws (CHR ''.'')" "\<not> is_ws (CHR ''*'')" by (simp_all add: is_ws_def)
  have r: "\<not> is_ws x" if "x \<in> set ?r" for x
    using set_split_on[of ?r "CHR ''.''"] that l dot label_not_ws by blast
  show ?thesis
  proof (cases "starts_with ''*.'' s")
    case True
    then have "s = ''*.'' @ drop 2 s" by (auto simp: starts_with_iff)
    then have "c = CHR ''*'' \<or> c = CHR ''.'' \<or> c \<in> set (drop 2 s)"
      using assms(2) by (metis Un_iff empty_iff insert_iff list.set(1) list.set(2) set_append)
    with r dot True show ?thesis by auto
  next
    case False
    with r assms(2) show ?thesis by auto
  qed
qed

lemma dropWhile_none: "\<forall>c \<in> set s. \<not> P c \<Longrightarrow> dropWhile P s = s"
  by (cases s) auto

lemma domain_trim: "DOMAIN_RE s \<Longrightarrow> js_trim s = s"
  using domain_not_ws[of s] by (simp add: js_trim_def dropWhile_none)

text \<open>A host as the table stores it: normalized, and of the form the expression accepts.\<close>

definition good_host :: "string \<Rightarrow> bool" where
  "good_host h = (DOMAIN_RE h \<and> normalizeHost h = h)"

lemma good_host_normalized: "DOMAIN_RE (normalizeHost s) \<Longrightarrow> good_host (normalizeHost s)"
  by (simp add: good_host_def)

lemma good_host_lower: "DOMAIN_RE h \<Longrightarrow> js_lower h = h \<Longrightarrow> good_host h"
  by (simp add: good_host_def normalizeHost_def domain_trim)

lemma good_host_lowerD: "good_host h \<Longrightarrow> js_lower h = h"
  by (metis good_host_def js_lower_idem normalizeHost_def)

lemma good_host_examples:
  "DOMAIN_RE ''example.com''" "DOMAIN_RE ''*.Textbook.com''"
  "\<not> DOMAIN_RE ''localhost''" "\<not> DOMAIN_RE ''-a.com''" "\<not> DOMAIN_RE ''a..b''" "\<not> DOMAIN_RE ''<script>.com''"
  by code_simp+

end
