(* ===== verification/Domain_Write.thy ===== *)
theory Domain_Write
  imports Domain_Input
begin

section \<open>The handlers that change domains\<close>

text \<open>
  The write routes of \<open>routes/domains.ts\<close>. Every handler of this file awaits the proxy once,
  in \<open>syncToProxy\<close>, between its change of the database and its decision to keep it, so each is given in
  two parts: \<open>begin\<close> runs up to that call and yields a reply or what the handler still holds (a
  \<open>pending\<close>); \<open>finish\<close> runs from its outcome. \<open>run\<close> puts the two together for a request that runs
  alone; the interleaving of several is the subject of \<open>Domain_Concurrency\<close>.

  What the request and the world bring is in \<open>world\<close>: the times of the statements before and after the
  call, the outcomes of the calls to other services, and the functions of the libraries. A JSON value in
  a scalar position of a body is a \<open>jsprim\<close>.
\<close>

record world =
  w_now :: int
  w_later :: int
  w_proxy_ok :: bool
  w_tls_ok :: bool
  w_dns_ok :: bool
  w_profile_ok :: "string \<Rightarrow> bool"
  w_remove_ok :: "string \<Rightarrow> bool"
  w_purge_ok :: "string \<Rightarrow> bool"
  w_audit_ok :: bool
  w_url :: url_parser
  w_insert_err :: "string \<Rightarrow> string \<Rightarrow> string option"
  w_num_text :: "jsnum \<Rightarrow> string"
  w_sub :: "string option"
  w_ip :: string

subsection \<open>Pushing the table to the other services\<close>

definition enabled_opts :: find_opts where
  "enabled_opts = no_opts\<lparr>f_enabled := Some True\<rparr>"

definition proxy_payload :: "conn \<Rightarrow> proxy_domain list" where
  "proxy_payload c =
     map (\<lambda>d. \<lparr>pd_host = d_host d, pd_origin = d_origin d,
               pd_stale_if_error_secs = d_stale_if_error_secs d,
               pd_coalesce_capacity = d_coalesce_capacity d\<rparr>)
       (findAll enabled_opts (t_domains (c_db c)))"

definition syncToProxy :: "world \<Rightarrow> conn \<Rightarrow> effect \<times> bool" where
  "syncToProxy w c = (ProxySync (proxy_payload c) (w_proxy_ok w), w_proxy_ok w)"

definition host_origin :: "domain \<Rightarrow> string \<times> string" where
  "host_origin d = (d_host d, d_origin d)"

definition fanOutGrpc :: "world \<Rightarrow> conn \<Rightarrow> effect list" where
  "fanOutGrpc w c =
     (let ds = map host_origin (findAll no_opts (t_domains (c_db c)))
      in [TlsSync ds (w_tls_ok w), DnsSync ds (w_dns_ok w)])"

definition set_profile :: "world \<Rightarrow> string \<Rightarrow> effect" where
  "set_profile w h = SetProfile h (w_profile_ok w h)"

definition remove_profile :: "world \<Rightarrow> string \<Rightarrow> effect" where
  "remove_profile w h = RemoveProfile h (w_remove_ok w h)"

text \<open>\<open>request.user?.sub ? Number(request.user.sub) : null\<close>.\<close>

definition actor :: "world \<Rightarrow> jsnum option" where
  "actor w = (case w_sub w of None \<Rightarrow> None | Some s \<Rightarrow> if s = [] then None else Some (number_of_string s))"

definition audit :: "world \<Rightarrow> string \<Rightarrow> string \<Rightarrow> string \<Rightarrow> audit_obj option \<Rightarrow> audit_obj option \<Rightarrow> conn \<Rightarrow> conn" where
  "audit w act ttype tid before after c =
     c\<lparr>c_db := (c_db c)\<lparr>t_audit := audit_insert (w_audit_ok w) (w_later w)
         \<lparr>ai_actor_user_id = actor w, ai_actor_ip = Some (w_ip w), ai_action = act,
          ai_target_type = ttype, ai_target_id = Some tid, ai_before = before, ai_after = after\<rparr>
         (t_audit (c_db c))\<rparr>\<rparr>"

subsection \<open>Requests, replies, pending handlers\<close>

datatype body =
    BNone
  | BDomain "domain option"
  | BBulk bulk_result
  | BDeleted nat nat "string list"
  | BToggled "string list" "(string \<times> string) list" nat
  | BSync bool bool bool

datatype pending =
    PPost string string
  | PBulkAdd bulk_result "string list"
  | PBulkDelete "string list" nat nat "string list"
  | PBulkToggle "string list" "(string \<times> string) list" nat
  | PPut string domain domain
  | PToggle string domain domain
  | PDelete string

record put_body =
  pb_origin :: jsprim
  pb_enabled :: jsprim
  pb_description :: jsprim
  pb_stale_if_error_secs :: jsprim
  pb_coalesce_capacity :: jsprim

text \<open>
  A request with its body. The elements of the array of a bulk addition are objects with the two
  members, or \<open>None\<close> for \<open>null\<close>; an absent array is \<open>None\<close>.
\<close>

datatype request =
    RPost jsprim jsprim
  | RBulkAdd "(jsprim \<times> jsprim) option list option"
  | RBulkDelete "jsprim list option"
  | RBulkToggle "jsprim list option" jsprim
  | RPut string put_body
  | RToggle string
  | RDelete string

type_synonym begun = "conn \<times> (body reply + pending)"

definition reject :: "conn \<Rightarrow> int \<Rightarrow> string \<Rightarrow> begun" where
  "reject c n e = (c, Inl (Reject n e))"

fun is_str :: "jsprim \<Rightarrow> bool" where
  "is_str (Str s) = True"
| "is_str v = False"

fun str_of :: "jsprim \<Rightarrow> string" where
  "str_of (Str s) = s"
| "str_of v = []"

fun truthy :: "jsprim \<Rightarrow> bool" where
  "truthy Undef = False"
| "truthy Null = False"
| "truthy (Bool b) = b"
| "truthy (Num (Fin x)) = (x \<noteq> 0)"
| "truthy (Num NotANum) = False"
| "truthy (Num _) = True"
| "truthy (Str s) = (s \<noteq> [])"

text \<open>The string a primitive turns into, where the code hands a non-string on.\<close>

fun js_text :: "world \<Rightarrow> jsprim \<Rightarrow> string" where
  "js_text w (Str s) = s"
| "js_text w (Num x) = w_num_text w x"
| "js_text w (Bool b) = (if b then ''true'' else ''false'')"
| "js_text w Null = ''null''"
| "js_text w Undef = ''undefined''"

subsection \<open>POST /api/domains\<close>

definition post_begin :: "world \<Rightarrow> jsprim \<Rightarrow> jsprim \<Rightarrow> conn \<Rightarrow> begun" where
  "post_begin w rawHost origin c =
     (let host = (case rawHost of Str s \<Rightarrow> Str (normalizeHost s) | v \<Rightarrow> v)
      in if \<not> truthy host \<or> \<not> truthy origin then reject c 400 ''invalid_input''
         else if \<not> DOMAIN_RE (js_text w host) then reject c 400 ''domain_invalid_format''
         else if \<not> isValidOrigin (w_url w) origin then reject c 400 ''origin_invalid''
         else (case normalizeOrigin (w_url w) (str_of origin) of
                 None \<Rightarrow> (c, Inl Throw)
               | Some orig \<Rightarrow>
                   (case begin_tx c of
                      None \<Rightarrow> (c, Inl Throw)
                    | Some c1 \<Rightarrow>
                        (on_domains (upsert (w_now w) (js_text w host) orig None) c1,
                         Inr (PPost (js_text w host) orig)))))"

definition tx_fail :: "conn \<Rightarrow> conn \<times> body reply \<times> effect list" where
  "tx_fail c = (case end_tx False c of
       None \<Rightarrow> (c, Throw, [])
     | Some c1 \<Rightarrow> (c1, Reject 502 ''proxy_sync_failed'', []))"

definition post_finish :: "world \<Rightarrow> string \<Rightarrow> string \<Rightarrow> bool \<Rightarrow> conn \<Rightarrow> conn \<times> body reply \<times> effect list" where
  "post_finish w host orig synced c =
     (if \<not> synced then tx_fail c
      else (case end_tx True c of
              None \<Rightarrow> (c, Throw, [])
            | Some c1 \<Rightarrow>
                let c2 = audit w ''domain.create'' ''domain'' host None
                           (Some [(''host'', AStr host), (''origin'', AStr orig)]) c1
                in (c2, Ok 201 (BDomain (findByHost (t_domains (c_db c2)) host)),
                    fanOutGrpc w c1 @ [set_profile w host])))"

subsection \<open>POST /api/domains/bulk\<close>

definition BULK_MAX_DOMAINS :: nat where
  "BULK_MAX_DOMAINS = 500"

definition bulk_normalize :: "jsprim \<times> jsprim \<Rightarrow> jsprim \<times> jsprim" where
  "bulk_normalize d = ((case fst d of Str s \<Rightarrow> Str (normalizeHost s) | v \<Rightarrow> v), snd d)"

definition bulk_add_begin :: "world \<Rightarrow> (jsprim \<times> jsprim) option list option \<Rightarrow> conn \<Rightarrow> begun" where
  "bulk_add_begin w ds c =
     (case ds of
        None \<Rightarrow> reject c 400 ''invalid_input''
      | Some items \<Rightarrow>
          if items = [] then reject c 400 ''invalid_input''
          else if BULK_MAX_DOMAINS < length items then reject c 400 ''invalid_input''
          else if None \<in> set items then (c, Inl Throw)
          else
            let nd = map (bulk_normalize \<circ> the) items
            in if \<not> list_all (\<lambda>d. is_str (fst d) \<and> DOMAIN_RE (str_of (fst d))) nd
               then reject c 400 ''domain_invalid_format''
               else if \<not> distinct (map (str_of \<circ> fst) nd) then reject c 400 ''duplicate_host''
               else if \<not> list_all (\<lambda>d. isValidOrigin (w_url w) (snd d)) nd
               then reject c 400 ''origin_invalid''
               else
                 let rows = map (\<lambda>d. (str_of (fst d), normalizeOrigin (w_url w) (str_of (snd d)))) nd
                 in if None \<in> set (map snd rows) then (c, Inl Throw)
                    else
                      let (t, r) = bulkInsert (w_insert_err w) (w_now w)
                                     (map (\<lambda>(h, x). (h, the x)) rows) (t_domains (c_db c))
                      in (on_domains (\<lambda>_. t) c, Inr (PBulkAdd r (map fst rows))))"

definition added_hosts :: "bulk_result \<Rightarrow> string list \<Rightarrow> string list" where
  "added_hosts r hosts =
     filter (\<lambda>h. h \<notin> set (map fst (b_failed r)) \<and> h \<notin> set (map fst (b_skipped r))) hosts"

definition bulk_add_finish :: "world \<Rightarrow> bulk_result \<Rightarrow> string list \<Rightarrow> bool \<Rightarrow> conn \<Rightarrow> conn \<times> body reply \<times> effect list" where
  "bulk_add_finish w r hosts synced c =
     (if \<not> synced then (c, Reject 502 ''proxy_sync_failed'', [])
      else (c, Ok 201 (BBulk r), fanOutGrpc w c @ map (set_profile w) (added_hosts r hosts)))"

subsection \<open>DELETE /api/domains/bulk\<close>

definition bulk_delete_begin :: "world \<Rightarrow> jsprim list option \<Rightarrow> conn \<Rightarrow> begun" where
  "bulk_delete_begin w hs c =
     (case hs of
        None \<Rightarrow> reject c 400 ''invalid_input''
      | Some raw \<Rightarrow>
          if raw = [] \<or> \<not> list_all is_str raw then reject c 400 ''invalid_input''
          else
            let hosts = map (normalizeHost \<circ> str_of) raw
            in (case begin_tx c of
                  None \<Rightarrow> (c, Inl Throw)
                | Some c1 \<Rightarrow>
                    let s = c_db c1;
                        (t, n, missing) = bulkDelete hosts (t_domains s);
                        s1 = s\<lparr>t_domains := t,
                               t_stats := filter (\<lambda>r. st_host r \<notin> set hosts) (t_stats s),
                               t_events := fst (deleteByHosts hosts (t_events s))\<rparr>
                    in (c1\<lparr>c_db := s1\<rparr>, Inr (PBulkDelete hosts (length raw) n missing))))"

definition bulk_delete_finish ::
  "world \<Rightarrow> string list \<Rightarrow> nat \<Rightarrow> nat \<Rightarrow> string list \<Rightarrow> bool \<Rightarrow> conn \<Rightarrow> conn \<times> body reply \<times> effect list" where
  "bulk_delete_finish w hosts requested n missing synced c =
     (if \<not> synced then tx_fail c
      else (case end_tx True c of
              None \<Rightarrow> (c, Throw, [])
            | Some c1 \<Rightarrow>
                (c1, Ok 200 (BDeleted n requested missing),
                 fanOutGrpc w c1 @ map (remove_profile w) hosts)))"


subsection \<open>POST /api/domains/bulk-toggle\<close>

fun bulk_toggle_loop ::
  "int \<Rightarrow> int \<Rightarrow> string list \<Rightarrow> domains \<Rightarrow> string list \<Rightarrow> (string \<times> string) list \<Rightarrow>
     domains \<times> string list \<times> (string \<times> string) list" where
  "bulk_toggle_loop now v [] t ok failed = (t, ok, failed)"
| "bulk_toggle_loop now v (h # hs) t ok failed =
     (case findByHost t h of
        None \<Rightarrow> bulk_toggle_loop now v hs t ok (failed @ [(h, ''domain_not_found'')])
      | Some _ \<Rightarrow>
          (case update now h (empty_patch\<lparr>p_enabled := Some v\<rparr>) t of
             (t', Some _) \<Rightarrow> bulk_toggle_loop now v hs t' (ok @ [h]) failed
           | (t', None) \<Rightarrow> bulk_toggle_loop now v hs t' ok (failed @ [(h, ''update_failed'')])))"

definition bulk_toggle_begin :: "world \<Rightarrow> jsprim list option \<Rightarrow> jsprim \<Rightarrow> conn \<Rightarrow> begun" where
  "bulk_toggle_begin w hs enabledVal c =
     (case hs of
        None \<Rightarrow> reject c 400 ''invalid_input''
      | Some raw \<Rightarrow>
          if raw = [] then reject c 400 ''invalid_input''
          else (case enabledVal of
                  Bool b \<Rightarrow>
                    if \<not> list_all is_str raw then reject c 400 ''invalid_input''
                    else
                      let (t, ok, failed) = bulk_toggle_loop (w_now w) (if b then 1 else 0)
                            (map (normalizeHost \<circ> str_of) raw) (t_domains (c_db c)) [] []
                      in (on_domains (\<lambda>_. t) c, Inr (PBulkToggle ok failed (length raw)))
                | _ \<Rightarrow> reject c 400 ''invalid_input''))"

definition bulk_toggle_finish ::
  "world \<Rightarrow> string list \<Rightarrow> (string \<times> string) list \<Rightarrow> nat \<Rightarrow> bool \<Rightarrow> conn \<Rightarrow> conn \<times> body reply \<times> effect list" where
  "bulk_toggle_finish w ok failed n synced c =
     (if \<not> synced then (c, Reject 502 ''proxy_sync_failed'', [])
      else (c, Ok 200 (BToggled ok failed n), fanOutGrpc w c))"

subsection \<open>PUT /api/domains/:host\<close>

definition int_in :: "int \<Rightarrow> int \<Rightarrow> jsprim \<Rightarrow> int option" where
  "int_in lo hi v =
     (case v of
        Num (Fin x) \<Rightarrow> if of_int \<lfloor>x\<rfloor> = x \<and> lo \<le> \<lfloor>x\<rfloor> \<and> \<lfloor>x\<rfloor> \<le> hi then Some \<lfloor>x\<rfloor> else None
      | _ \<Rightarrow> None)"

text \<open>A nullable integer field: absent, \<open>null\<close>, or in range. The outer \<open>None\<close> is the rejection.\<close>

definition nullable_int :: "int \<Rightarrow> int \<Rightarrow> jsprim \<Rightarrow> int option option option" where
  "nullable_int lo hi v =
     (if v = Undef then Some None
      else if v = Null then Some (Some None)
      else (case int_in lo hi v of None \<Rightarrow> None | Some n \<Rightarrow> Some (Some (Some n))))"

text \<open>
  The checks of the body in the order of the code. \<open>description\<close> without a \<open>length\<close> passes its check;
  a number is then stored as text, a boolean is refused by the driver when the row is written, which
  the second component says.
\<close>

definition put_check :: "world \<Rightarrow> put_body \<Rightarrow> body reply + (domain_patch \<times> bool)" where
  "put_check w b =
     (if pb_origin b \<noteq> Undef \<and> \<not> is_str (pb_origin b) then Inl Throw
      else if pb_origin b \<noteq> Undef \<and> js_trim (str_of (pb_origin b)) = [] then Inl (Reject 400 ''invalid_input'')
      else if pb_origin b \<noteq> Undef \<and> \<not> isValidOrigin (w_url w) (pb_origin b) then Inl (Reject 400 ''origin_invalid'')
      else
        let norm = (if pb_origin b = Undef then Some None
                    else map_option Some (normalizeOrigin (w_url w) (str_of (pb_origin b))))
        in if norm = None then Inl Throw
           else if pb_enabled b \<noteq> Undef \<and> int_in 0 1 (pb_enabled b) = None then Inl (Reject 400 ''invalid_input'')
           else if pb_description b = Null then Inl Throw
           else if is_str (pb_description b) \<and> 500 < length (str_of (pb_description b))
           then Inl (Reject 400 ''description_too_long'')
           else (case nullable_int 1 65536 (pb_coalesce_capacity b) of
                   None \<Rightarrow> Inl (Reject 400 ''invalid_input'')
                 | Some cap \<Rightarrow>
                     (case nullable_int 0 604800 (pb_stale_if_error_secs b) of
                        None \<Rightarrow> Inl (Reject 400 ''invalid_input'')
                      | Some stale \<Rightarrow>
                          Inr (\<lparr>p_origin = the norm, p_enabled = int_in 0 1 (pb_enabled b),
                                p_description = (if pb_description b = Undef then None
                                                 else Some (js_text w (pb_description b))),
                                p_stale_if_error_secs = stale, p_coalesce_capacity = cap\<rparr>,
                               \<exists>x \<in> {True, False}. pb_description b = Bool x))))"

definition put_begin :: "world \<Rightarrow> string \<Rightarrow> put_body \<Rightarrow> conn \<Rightarrow> begun" where
  "put_begin w rawHost b c =
     (case host_param rawHost of
        None \<Rightarrow> (c, Inl UriError)
      | Some host \<Rightarrow>
          (case put_check w b of
             Inl r \<Rightarrow> (c, Inl r)
           | Inr (patch, refused) \<Rightarrow>
               (case findByHost (t_domains (c_db c)) host of
                  None \<Rightarrow> reject c 404 ''domain_not_found''
                | Some original \<Rightarrow>
                    if refused then (c, Inl Throw)
                    else
                      (case update (w_now w) host patch (t_domains (c_db c)) of
                         (t, None) \<Rightarrow> reject (on_domains (\<lambda>_. t) c) 404 ''domain_not_found''
                       | (t, Some updated) \<Rightarrow>
                           (on_domains (\<lambda>_. t) c, Inr (PPut host original updated))))))"

definition put_finish ::
  "world \<Rightarrow> string \<Rightarrow> domain \<Rightarrow> domain \<Rightarrow> bool \<Rightarrow> conn \<Rightarrow> conn \<times> body reply \<times> effect list" where
  "put_finish w host original updated synced c =
     (if \<not> synced then
        (on_domains (\<lambda>t. fst (update (w_later w) host (restore_patch original) t)) c,
         Reject 502 ''proxy_sync_failed'', [])
      else (c, Ok 200 (BDomain (Some updated)), fanOutGrpc w c))"

subsection \<open>POST /api/domains/:host/toggle\<close>

definition toggle_begin :: "world \<Rightarrow> string \<Rightarrow> conn \<Rightarrow> begun" where
  "toggle_begin w rawHost c =
     (case host_param rawHost of
        None \<Rightarrow> (c, Inl UriError)
      | Some host \<Rightarrow>
          (case findByHost (t_domains (c_db c)) host of
             None \<Rightarrow> reject c 404 ''domain_not_found''
           | Some original \<Rightarrow>
               (case toggleEnabled (w_now w) host (t_domains (c_db c)) of
                  (t, None) \<Rightarrow> reject (on_domains (\<lambda>_. t) c) 404 ''domain_not_found''
                | (t, Some toggled) \<Rightarrow>
                    (on_domains (\<lambda>_. t) c, Inr (PToggle host original toggled)))))"

definition toggle_finish ::
  "world \<Rightarrow> string \<Rightarrow> domain \<Rightarrow> domain \<Rightarrow> bool \<Rightarrow> conn \<Rightarrow> conn \<times> body reply \<times> effect list" where
  "toggle_finish w host original toggled synced c =
     (if \<not> synced then
        (on_domains (\<lambda>t. fst (update (w_later w) host
             (empty_patch\<lparr>p_enabled := Some (d_enabled original)\<rparr>) t)) c,
         Reject 502 ''proxy_sync_failed'', [])
      else (c, Ok 200 (BDomain (Some toggled)), fanOutGrpc w c))"

subsection \<open>DELETE /api/domains/:host\<close>

definition delete_begin :: "world \<Rightarrow> string \<Rightarrow> conn \<Rightarrow> begun" where
  "delete_begin w rawHost c =
     (case host_param rawHost of
        None \<Rightarrow> (c, Inl UriError)
      | Some host \<Rightarrow>
          if findByHost (t_domains (c_db c)) host = None then reject c 404 ''domain_not_found''
          else
            (case begin_tx c of
               None \<Rightarrow> (c, Inl Throw)
             | Some c1 \<Rightarrow>
                 let s = c_db c1; (t, n) = delete host (t_domains s);
                     c2 = c1\<lparr>c_db := s\<lparr>t_domains := t,
                                        t_stats := filter (\<lambda>r. st_host r \<noteq> host) (t_stats s)\<rparr>\<rparr>
                 in if n = 0 then
                      (case end_tx False c2 of
                         None \<Rightarrow> (c2, Inl Throw)
                       | Some c3 \<Rightarrow> reject c3 404 ''domain_not_found'')
                    else (c2, Inr (PDelete host))))"

definition delete_finish :: "world \<Rightarrow> string \<Rightarrow> bool \<Rightarrow> conn \<Rightarrow> conn \<times> body reply \<times> effect list" where
  "delete_finish w host synced c =
     (if \<not> synced then tx_fail c
      else (case end_tx True c of
              None \<Rightarrow> (c, Throw, [])
            | Some c1 \<Rightarrow>
                (audit w ''domain.delete'' ''domain'' host None None
                   (c1\<lparr>c_db := (c_db c1)\<lparr>t_events := fst (deleteByHost host (t_events (c_db c1)))\<rparr>\<rparr>),
                 Ok 204 BNone, fanOutGrpc w c1 @ [remove_profile w host])))"

subsection \<open>All of them\<close>

fun begin_req :: "world \<Rightarrow> request \<Rightarrow> conn \<Rightarrow> begun" where
  "begin_req w (RPost h ori) c = post_begin w h ori c"
| "begin_req w (RBulkAdd ds) c = bulk_add_begin w ds c"
| "begin_req w (RBulkDelete hs) c = bulk_delete_begin w hs c"
| "begin_req w (RBulkToggle hs v) c = bulk_toggle_begin w hs v c"
| "begin_req w (RPut h b) c = put_begin w h b c"
| "begin_req w (RToggle h) c = toggle_begin w h c"
| "begin_req w (RDelete h) c = delete_begin w h c"

fun finish_req :: "world \<Rightarrow> pending \<Rightarrow> bool \<Rightarrow> conn \<Rightarrow> conn \<times> body reply \<times> effect list" where
  "finish_req w (PPost h ori) synced c = post_finish w h ori synced c"
| "finish_req w (PBulkAdd r hs) synced c = bulk_add_finish w r hs synced c"
| "finish_req w (PBulkDelete hs m n ms) synced c = bulk_delete_finish w hs m n ms synced c"
| "finish_req w (PBulkToggle ok failed n) synced c = bulk_toggle_finish w ok failed n synced c"
| "finish_req w (PPut h d u) synced c = put_finish w h d u synced c"
| "finish_req w (PToggle h d u) synced c = toggle_finish w h d u synced c"
| "finish_req w (PDelete h) synced c = delete_finish w h synced c"

definition run :: "world \<Rightarrow> request \<Rightarrow> conn \<Rightarrow> conn \<times> body reply \<times> effect list" where
  "run w req c =
     (case begin_req w req c of
        (c1, Inl r) \<Rightarrow> (c1, r, [])
      | (c1, Inr p) \<Rightarrow>
          let (eff, synced) = syncToProxy w c1;
              (c2, r, effs) = finish_req w p synced c1
          in (c2, r, eff # effs))"

subsection \<open>The handlers that keep the database\<close>

text \<open>\<open>POST /api/domains/:host/sync\<close> pushes the enabled domains to all three services.\<close>

definition force_sync :: "world \<Rightarrow> string \<Rightarrow> conn \<Rightarrow> body reply \<times> effect list" where
  "force_sync w rawHost c =
     (case host_param rawHost of
        None \<Rightarrow> (UriError, [])
      | Some host \<Rightarrow>
          if findByHost (t_domains (c_db c)) host = None then (Reject 404 ''domain_not_found'', [])
          else
            let (eff, p) = syncToProxy w c;
                ds = map host_origin (findAll enabled_opts (t_domains (c_db c)))
            in (Ok (if p \<and> w_tls_ok w \<and> w_dns_ok w then 200 else 207) (BSync p (w_tls_ok w) (w_dns_ok w)),
                [eff, TlsSync ds (w_tls_ok w), DnsSync ds (w_dns_ok w)]))"

definition purge_one :: "world \<Rightarrow> string \<Rightarrow> conn \<Rightarrow> body reply \<times> effect list" where
  "purge_one w rawHost c =
     (case host_param rawHost of
        None \<Rightarrow> (UriError, [])
      | Some host \<Rightarrow>
          if findByHost (t_domains (c_db c)) host = None then (Reject 404 ''domain_not_found'', [])
          else if w_purge_ok w host then (Ok 200 BNone, [ProxyPurge host True])
          else (Reject 502 ''proxy_purge_failed'', [ProxyPurge host False]))"

definition bulk_purge :: "world \<Rightarrow> jsprim list option \<Rightarrow> conn \<Rightarrow> body reply \<times> effect list" where
  "bulk_purge w hs c =
     (case hs of
        None \<Rightarrow> (Reject 400 ''invalid_input'', [])
      | Some raw \<Rightarrow>
          if raw = [] \<or> \<not> list_all is_str raw then (Reject 400 ''invalid_input'', [])
          else
            let hosts = map (normalizeHost \<circ> str_of) raw;
                known = (\<lambda>h. findByHost (t_domains (c_db c)) h \<noteq> None);
                valid = filter known hosts;
                ok = filter (w_purge_ok w) valid;
                failed = map (\<lambda>h. (h, ''domain_not_found'')) (filter (\<lambda>h. \<not> known h) hosts)
                       @ map (\<lambda>h. (h, ''proxy_purge_failed'')) (filter (\<lambda>h. \<not> w_purge_ok w h) valid)
            in (Ok 200 (BToggled ok failed (length raw)), map (\<lambda>h. ProxyPurge h (w_purge_ok w h)) valid))"

definition get_one :: "string \<Rightarrow> conn \<Rightarrow> body reply" where
  "get_one rawHost c =
     (case host_param rawHost of
        None \<Rightarrow> UriError
      | Some host \<Rightarrow>
          (case findByHost (t_domains (c_db c)) host of
             None \<Rightarrow> Reject 404 ''domain_not_found''
           | Some d \<Rightarrow> Ok 200 (BDomain (Some d))))"

end
