(* ===== verification/Domain_Safe.thy ===== *)
theory Domain_Safe
  imports Domain_Write
begin

section \<open>What the domain handlers preserve and promise\<close>

text \<open>
  The invariant of the tables and its preservation by both parts of every write handler, and the
  promises of a handler that runs alone: an error leaves the tables as they were, a success leaves the
  proxy with exactly the enabled rows of the table.
\<close>

subsection \<open>The invariant\<close>

definition origin_from :: "url_parser \<Rightarrow> string \<Rightarrow> bool" where
  "origin_from parse ori =
     (\<exists>s u. isValidOrigin parse (Str s) \<and> parse s = Some u \<and> ori = url_origin u)"

definition domain_ok :: "url_parser \<Rightarrow> domain \<Rightarrow> bool" where
  "domain_ok parse d =
     (good_host (d_host d) \<and> origin_from parse (d_origin d) \<and> d_enabled d \<in> {0, 1} \<and>
      (case d_stale_if_error_secs d of None \<Rightarrow> True | Some n \<Rightarrow> 0 \<le> n \<and> n \<le> 604800) \<and>
      (case d_coalesce_capacity d of None \<Rightarrow> True | Some n \<Rightarrow> 1 \<le> n \<and> n \<le> 65536))"

definition domains_ok :: "url_parser \<Rightarrow> domains \<Rightarrow> bool" where
  "domains_ok parse t = (distinct (hosts_of t) \<and> (\<forall>d \<in> set t. domain_ok parse d))"

definition db_ok :: "url_parser \<Rightarrow> db \<Rightarrow> bool" where
  "db_ok parse s = (domains_ok parse (t_domains s) \<and> stats_ok (hosts_of (t_domains s)) (t_stats s))"

definition conn_ok :: "url_parser \<Rightarrow> conn \<Rightarrow> bool" where
  "conn_ok parse c =
     (db_ok parse (c_db c) \<and> (case c_saved c of None \<Rightarrow> True | Some s \<Rightarrow> db_ok parse s))"

text \<open>What is asked of the libraries: the parser the invariant speaks of, and number texts without
  capital letters (JavaScript writes a number with digits, a sign, a point and an \<open>e\<close>).\<close>

definition world_ok :: "url_parser \<Rightarrow> world \<Rightarrow> bool" where
  "world_ok parse w = (w_url w = parse \<and> (\<forall>x. js_lower (w_num_text w x) = w_num_text w x))"

fun pending_ok :: "url_parser \<Rightarrow> pending \<Rightarrow> bool" where
  "pending_ok parse (PPut h d u) = domain_ok parse d"
| "pending_ok parse (PToggle h d u) = domain_ok parse d"
| "pending_ok parse p = True"

lemma domains_okI:
  "distinct (hosts_of t') \<Longrightarrow> (\<And>d. d \<in> set t' \<Longrightarrow> domain_ok parse d) \<Longrightarrow> domains_ok parse t'"
  by (simp add: domains_ok_def)

lemma domains_okD:
  "domains_ok parse t \<Longrightarrow> distinct (hosts_of t)"
  "domains_ok parse t \<Longrightarrow> d \<in> set t \<Longrightarrow> domain_ok parse d"
  "domains_ok parse t \<Longrightarrow> findByHost t h = Some d \<Longrightarrow> domain_ok parse d"
  by (auto simp: domains_ok_def dest: findByHost_mem)

lemma domain_ok_new:
  "good_host h \<Longrightarrow> origin_from parse ori \<Longrightarrow> domain_ok parse (new_domain now h ori desc)"
  by (simp add: domain_ok_def new_domain_def)

lemma domain_ok_time [simp]: "domain_ok parse (d\<lparr>d_updated_at := t\<rparr>) = domain_ok parse d"
  by (simp add: domain_ok_def)

lemma domains_ok_upsert:
  assumes "domains_ok parse t" and "good_host h" and "origin_from parse ori"
  shows "domains_ok parse (upsert now h ori desc t)"
proof (rule domains_okI)
  show "distinct (hosts_of (upsert now h ori desc t))"
    using assms(1) by (simp add: domains_ok_def distinct_upsert)
next
  fix d assume "d \<in> set (upsert now h ori desc t)"
  with assms show "domain_ok parse d"
    by (auto simp: domains_ok_def domain_ok_def[of _ "_\<lparr>d_updated_at := _\<rparr>"] domain_ok_new
        dest!: set_upsert) (auto simp: domain_ok_def)
qed

definition patch_ok :: "url_parser \<Rightarrow> domain_patch \<Rightarrow> bool" where
  "patch_ok parse p =
     ((case p_origin p of None \<Rightarrow> True | Some x \<Rightarrow> origin_from parse x) \<and>
      (case p_enabled p of None \<Rightarrow> True | Some n \<Rightarrow> n \<in> {0, 1}) \<and>
      (case p_stale_if_error_secs p of Some (Some n) \<Rightarrow> 0 \<le> n \<and> n \<le> 604800 | _ \<Rightarrow> True) \<and>
      (case p_coalesce_capacity p of Some (Some n) \<Rightarrow> 1 \<le> n \<and> n \<le> 65536 | _ \<Rightarrow> True))"

lemma domain_ok_patch: "patch_ok parse p \<Longrightarrow> domain_ok parse d \<Longrightarrow> domain_ok parse (apply_patch p d)"
  by (auto simp: patch_ok_def domain_ok_def apply_patch_def or_else_def split: option.splits)

lemma domains_ok_update:
  "patch_ok parse p \<Longrightarrow> domains_ok parse t \<Longrightarrow> domains_ok parse (fst (update now h p t))"
  by (rule domains_okI) (auto simp: hosts_update domains_ok_def dest!: set_update intro!: domain_ok_patch)

lemma domains_ok_toggle:
  "domains_ok parse t \<Longrightarrow> domains_ok parse (fst (toggleEnabled now h t))"
  by (rule domains_okI)
    (auto simp: hosts_toggle domains_ok_def dest!: set_toggle, auto simp: domain_ok_def)

lemma patch_ok_restore: "domain_ok parse d \<Longrightarrow> patch_ok parse (restore_patch d)"
  by (auto simp: patch_ok_def domain_ok_def restore_patch_def split: option.splits)

lemma patch_ok_enabled: "n \<in> {0, 1} \<Longrightarrow> patch_ok parse (empty_patch\<lparr>p_enabled := Some n\<rparr>)"
  by (auto simp: patch_ok_def empty_patch_def)

lemma domains_ok_filter: "domains_ok parse t \<Longrightarrow> domains_ok parse (filter P t)"
  by (auto simp: domains_ok_def hosts_of_def distinct_map_filter)

lemma domains_ok_bulkInsert:
  assumes "domains_ok parse t"
    and "\<And>h ori. (h, ori) \<in> set xs \<Longrightarrow> good_host h \<and> origin_from parse ori"
  shows "domains_ok parse (fst (bulkInsert err now xs t))"
proof -
  obtain t' r where b: "bulkInsert err now xs t = (t', r)" by fastforce
  then have l: "bulk_loop err now xs t \<lparr>b_added = 0, b_skipped = [], b_failed = []\<rparr> = (t', r)"
    by (simp add: bulkInsert_def)
  obtain ys where t': "t' = t @ ys"
    and ys: "\<forall>d \<in> set ys. \<exists>(h, ori) \<in> set xs. d = new_domain now h ori [] \<and> err h ori = None"
    using bulk_loop_extends[OF l] by (elim exE conjE)
  have "domain_ok parse d" if m: "d \<in> set ys" for d
  proof -
    obtain h ori where "(h, ori) \<in> set xs" "d = new_domain now h ori []"
      using bspec[OF ys m] by auto
    with assms(2) show ?thesis by (auto intro: domain_ok_new)
  qed
  then have a: "\<forall>d \<in> set t'. domain_ok parse d"
    using assms(1) t' by (auto simp: domains_ok_def)
  have "distinct (hosts_of t')"
    using bulk_loop_distinct[OF l] assms(1) by (simp add: domains_ok_def)
  with a b show ?thesis by (simp add: domains_ok_def)
qed

lemma domains_ok_bulk_toggle:
  "v \<in> {0, 1} \<Longrightarrow> domains_ok parse t \<Longrightarrow> domains_ok parse (fst (bulk_toggle_loop now v hs t ok failed))"
proof (induction now v hs t ok failed rule: bulk_toggle_loop.induct)
  case (2 now v h hs t ok failed)
  then show ?case
    using domains_ok_update[OF patch_ok_enabled[OF 2(4)] 2(5), of now h]
    by (auto split: option.splits prod.splits)
qed simp

subsection \<open>What the checks establish\<close>

lemma valid_origin_from:
  "isValidOrigin parse v \<Longrightarrow> normalizeOrigin parse (str_of v) = Some ori \<Longrightarrow> origin_from parse ori"
  by (cases v) (auto simp: origin_from_def normalizeOrigin_def isValidOrigin_def)

lemma valid_origin_parses: "isValidOrigin parse v \<Longrightarrow> \<exists>ori. normalizeOrigin parse (str_of v) = Some ori"
  by (cases v) (auto simp: isValidOrigin_def normalizeOrigin_def split: option.splits)

lemma int_in_range: "int_in lo hi v = Some n \<Longrightarrow> lo \<le> n \<and> n \<le> hi"
  by (auto simp: int_in_def split: jsprim.splits jsnum.splits if_splits)

lemma nullable_int_range: "nullable_int lo hi v = Some (Some (Some n)) \<Longrightarrow> lo \<le> n \<and> n \<le> hi"
  by (auto simp: nullable_int_def split: if_splits option.splits dest: int_in_range)

lemma put_check_ok:
  assumes "world_ok parse w" and "put_check w b = Inr (p, refused)"
  shows "patch_ok parse p"
proof -
  have w: "w_url w = parse" using assms(1) by (simp add: world_ok_def)
  have ori: "p_origin p = Some x \<Longrightarrow> origin_from parse x" for x
    using assms(2) w
    by (auto simp: put_check_def Let_def split: if_splits option.splits intro: valid_origin_from)
  have en: "p_enabled p = int_in 0 1 (pb_enabled b)"
    and st: "nullable_int 0 604800 (pb_stale_if_error_secs b) = Some (p_stale_if_error_secs p)"
    and ca: "nullable_int 1 65536 (pb_coalesce_capacity b) = Some (p_coalesce_capacity p)"
    using assms(2) by (auto simp: put_check_def Let_def split: if_splits option.splits)
  have "p_enabled p = Some n \<Longrightarrow> n \<in> {0, 1}" for n
    using int_in_range[of 0 1 "pb_enabled b" n] en by auto
  moreover have "p_stale_if_error_secs p = Some (Some n) \<Longrightarrow> 0 \<le> n \<and> n \<le> 604800" for n
    using nullable_int_range[of 0 604800 "pb_stale_if_error_secs b" n] st by simp
  moreover have "p_coalesce_capacity p = Some (Some n) \<Longrightarrow> 1 \<le> n \<and> n \<le> 65536" for n
    using nullable_int_range[of 1 65536 "pb_coalesce_capacity b" n] ca by simp
  ultimately show ?thesis using ori by (simp add: patch_ok_def split: option.splits)
qed

lemma put_check_never_throws_origin:
  "isValidOrigin (w_url w) (pb_origin b) \<Longrightarrow>
     map_option Some (normalizeOrigin (w_url w) (str_of (pb_origin b))) \<noteq> None"
  using valid_origin_parses[of "w_url w" "pb_origin b"] by auto


subsection \<open>The first part of a handler preserves the invariant\<close>

lemma conn_okD: "conn_ok parse c \<Longrightarrow> db_ok parse (c_db c)"
  by (simp add: conn_ok_def)

lemma db_ok_domains: "db_ok parse s \<Longrightarrow> domains_ok parse (t_domains s)"
  by (simp add: db_ok_def)

lemma stats_ok_mono: "stats_ok hs t \<Longrightarrow> set hs \<subseteq> set hs' \<Longrightarrow> stats_ok hs' t"
  by (auto simp: stats_ok_def)

lemma conn_ok_domains:
  assumes "conn_ok parse c" and "domains_ok parse t" and "set (hosts_of (t_domains (c_db c))) \<subseteq> set (hosts_of t)"
  shows "conn_ok parse (on_domains (\<lambda>_. t) c)"
  using assms stats_ok_mono[OF _ assms(3)]
  by (auto simp: conn_ok_def on_domains_def db_ok_def split: option.splits)

lemma on_domains_const: "on_domains f c = on_domains (\<lambda>_. f (t_domains (c_db c))) c"
  by (simp add: on_domains_def)

lemma conn_ok_begin_tx: "conn_ok parse c \<Longrightarrow> begin_tx c = Some c' \<Longrightarrow> conn_ok parse c'"
  by (auto simp: begin_tx_def conn_ok_def split: option.splits)

lemma conn_ok_end_tx: "conn_ok parse c \<Longrightarrow> end_tx b c = Some c' \<Longrightarrow> conn_ok parse c'"
  by (auto simp: end_tx_def conn_ok_def split: option.splits if_splits)

lemma conn_ok_remove:
  assumes "conn_ok parse c"
  shows "conn_ok parse (c\<lparr>c_db := (c_db c)\<lparr>t_domains := filter (\<lambda>d. d_host d \<notin> A) (t_domains (c_db c)),
           t_stats := filter (\<lambda>r. st_host r \<notin> A) (t_stats (c_db c)), t_events := ev\<rparr>\<rparr>)"
proof -
  have "stats_ok (hosts_of (filter (\<lambda>d. d_host d \<notin> A) (t_domains (c_db c))))
          (filter (\<lambda>r. st_host r \<notin> A) (t_stats (c_db c)))"
    using assms by (auto simp: conn_ok_def db_ok_def stats_ok_def hosts_of_def distinct_map_filter)
  with assms show ?thesis
    by (auto simp: conn_ok_def db_ok_def domains_ok_filter split: option.splits)
qed

lemma conn_ok_other: "conn_ok parse (c\<lparr>c_db := (c_db c)\<lparr>t_events := e\<rparr>\<rparr>) = conn_ok parse c"
  "conn_ok parse (c\<lparr>c_db := (c_db c)\<lparr>t_audit := a\<rparr>\<rparr>) = conn_ok parse c"
  "conn_ok parse (audit w x y z b f c) = conn_ok parse c"
  by (simp_all add: conn_ok_def db_ok_def audit_def)

lemma hosts_upsert_sub: "set (hosts_of t) \<subseteq> set (hosts_of (upsert now h ori desc t))"
  by (auto simp: hosts_upsert)

lemma js_text_lower:
  "world_ok parse w \<Longrightarrow> v \<noteq> Str s \<Longrightarrow> is_str v \<or> js_lower (js_text w v) = js_text w v"
proof -
  assume "world_ok parse w"
  moreover have "js_lower ''true'' = ''true''" "js_lower ''false'' = ''false''" "js_lower ''null'' = ''null''"
    "js_lower ''undefined'' = ''undefined''" by code_simp+
  ultimately show ?thesis by (cases v) (auto simp: world_ok_def)
qed

lemma post_host_good:
  assumes "world_ok parse w" and "DOMAIN_RE (js_text w (case h of Str s \<Rightarrow> Str (normalizeHost s) | v \<Rightarrow> v))"
  shows "good_host (js_text w (case h of Str s \<Rightarrow> Str (normalizeHost s) | v \<Rightarrow> v))"
proof (cases "is_str h")
  case True
  then obtain s where "h = Str s" by (cases h) auto
  with assms(2) show ?thesis by (auto intro: good_host_normalized)
next
  case False
  then have e: "(case h of Str s \<Rightarrow> Str (normalizeHost s) | v \<Rightarrow> v) = h" by (cases h) auto
  have "js_lower (js_text w h) = js_text w h"
    using js_text_lower[OF assms(1), of h] False by (cases h) auto
  with assms(2) show ?thesis unfolding e by (rule good_host_lower)
qed

lemma post_begin_ok:
  assumes "world_ok parse w" and "conn_ok parse c" and "post_begin w h ori c = (c', r)"
  shows "conn_ok parse c'"
proof -
  let ?h = "js_text w (case h of Str s \<Rightarrow> Str (normalizeHost s) | v \<Rightarrow> v)"
  have w: "w_url w = parse" using assms(1) by (simp add: world_ok_def)
  consider "c' = c" |
    (go) c1 x where "DOMAIN_RE ?h" "isValidOrigin parse ori" "normalizeOrigin parse (str_of ori) = Some x"
      "begin_tx c = Some c1" "c' = on_domains (upsert (w_now w) ?h x None) c1"
    using assms(3) w by (auto simp: post_begin_def Let_def reject_def split: if_splits option.splits)
  then show ?thesis
  proof cases
    case go
    have c1: "conn_ok parse c1" using conn_ok_begin_tx[OF assms(2) go(4)] .
    show ?thesis
      unfolding go(5) by (subst on_domains_const, rule conn_ok_domains[OF c1])
        (use post_host_good[OF assms(1) go(1)] valid_origin_from[OF go(2,3)] c1
          in \<open>auto intro!: domains_ok_upsert simp: hosts_upsert_sub conn_ok_def db_ok_def\<close>)
  qed (use assms in simp)
qed


lemma bulk_host_good:
  "is_str (fst (bulk_normalize d)) \<Longrightarrow> DOMAIN_RE (str_of (fst (bulk_normalize d))) \<Longrightarrow>
     good_host (str_of (fst (bulk_normalize d)))"
  by (cases "fst d") (auto simp: bulk_normalize_def intro: good_host_normalized)

lemma bulk_add_rows:
  assumes "world_ok parse w"
    and "list_all (\<lambda>d. is_str (fst d) \<and> DOMAIN_RE (str_of (fst d))) (map (bulk_normalize \<circ> the) items)"
    and "list_all (\<lambda>d. isValidOrigin (w_url w) (snd d)) (map (bulk_normalize \<circ> the) items)"
    and "(h, ori) \<in> set (map (\<lambda>(h, x). (h, the x))
           (map (\<lambda>d. (str_of (fst d), normalizeOrigin (w_url w) (str_of (snd d))))
              (map (bulk_normalize \<circ> the) items)))"
  shows "good_host h \<and> origin_from parse ori"
proof -
  have w: "w_url w = parse" using assms(1) by (simp add: world_ok_def)
  obtain i where i: "i \<in> set items" "h = str_of (fst (bulk_normalize (the i)))"
    "ori = the (normalizeOrigin parse (str_of (snd (bulk_normalize (the i)))))"
    using assms(4) w by auto
  have v: "isValidOrigin parse (snd (bulk_normalize (the i)))"
    "is_str (fst (bulk_normalize (the i)))" "DOMAIN_RE (str_of (fst (bulk_normalize (the i))))"
    using assms(2,3) i(1) w by (auto simp: list_all_iff)
  with valid_origin_parses[OF v(1)] i bulk_host_good[OF v(2,3)] valid_origin_from[OF v(1)]
  show ?thesis by auto
qed

lemma bulk_insert_keeps_hosts: "set (hosts_of t) \<subseteq> set (hosts_of (fst (bulkInsert err now xs t)))"
proof
  fix h assume "h \<in> set (hosts_of t)"
  then show "h \<in> set (hosts_of (fst (bulkInsert err now xs t)))"
    using bulk_loop_keeps[of err now xs t _ "fst (bulkInsert err now xs t)" "snd (bulkInsert err now xs t)"]
    by (simp add: bulkInsert_def)
qed

lemma bulk_add_begin_ok:
  assumes "world_ok parse w" and "conn_ok parse c" and "bulk_add_begin w ds c = (c', r)"
  shows "conn_ok parse c'"
proof -
  consider "c' = c" |
    (go) items where
      "list_all (\<lambda>d. is_str (fst d) \<and> DOMAIN_RE (str_of (fst d))) (map (bulk_normalize \<circ> the) items)"
      "list_all (\<lambda>d. isValidOrigin (w_url w) (snd d)) (map (bulk_normalize \<circ> the) items)"
      "c' = on_domains (\<lambda>_. fst (bulkInsert (w_insert_err w) (w_now w) (map (\<lambda>(h, x). (h, the x))
           (map (\<lambda>d. (str_of (fst d), normalizeOrigin (w_url w) (str_of (snd d))))
              (map (bulk_normalize \<circ> the) items))) (t_domains (c_db c)))) c"
    using assms(3)
    by (simp add: bulk_add_begin_def Let_def reject_def case_prod_unfold
        split: if_splits option.splits)
  then show ?thesis
  proof cases
    case go
    show ?thesis
      unfolding go(3)
      by (intro conn_ok_domains assms(2) domains_ok_bulkInsert db_ok_domains conn_okD
          bulk_add_rows[OF assms(1) go(1,2)] bulk_insert_keeps_hosts)
  qed (use assms in simp)
qed

lemma bulk_delete_begin_ok:
  assumes "conn_ok parse c" and "bulk_delete_begin w hs c = (c', r)"
  shows "conn_ok parse c'"
proof -
  consider "c' = c" |
    (go) A c1 ev where "begin_tx c = Some c1"
      "c' = c1\<lparr>c_db := (c_db c1)\<lparr>t_domains := filter (\<lambda>d. d_host d \<notin> A) (t_domains (c_db c1)),
           t_stats := filter (\<lambda>r. st_host r \<notin> A) (t_stats (c_db c1)), t_events := ev\<rparr>\<rparr>"
    using assms(2)
    by (auto simp: bulk_delete_begin_def bulkDelete_rows Let_def reject_def case_prod_unfold
        split: if_splits option.splits)
  then show ?thesis
  proof cases
    case go
    show ?thesis unfolding go(2) by (rule conn_ok_remove[OF conn_ok_begin_tx[OF assms(1) go(1)]])
  qed (use assms in simp)
qed

lemma hosts_bulk_toggle: "hosts_of (fst (bulk_toggle_loop now v hs t ok failed)) = hosts_of t"
proof (induction now v hs t ok failed rule: bulk_toggle_loop.induct)
  case (2 now v h hs t ok failed)
  then show ?case
    using hosts_update[of now h "empty_patch\<lparr>p_enabled := Some v\<rparr>" t]
    by (auto split: option.splits prod.splits)
qed simp

lemma bulk_toggle_begin_ok:
  assumes "conn_ok parse c" and "bulk_toggle_begin w hs v c = (c', r)"
  shows "conn_ok parse c'"
proof -
  consider "c' = c" |
    (go) n :: int and hosts where "n \<in> {0, 1}"
      "c' = on_domains (\<lambda>_. fst (bulk_toggle_loop (w_now w) n hosts (t_domains (c_db c)) [] [])) c"
    using assms(2)
    by (auto simp: bulk_toggle_begin_def reject_def case_prod_unfold Let_def
        split: if_splits option.splits jsprim.splits)
  then show ?thesis
  proof cases
    case go
    show ?thesis
      unfolding go(2)
      by (rule conn_ok_domains[OF assms(1)])
        (use domains_ok_bulk_toggle[OF go(1) db_ok_domains[OF conn_okD[OF assms(1)]]]
          in \<open>simp_all add: hosts_bulk_toggle\<close>)
  qed (use assms in simp)
qed

lemma put_begin_ok:
  assumes "world_ok parse w" and "conn_ok parse c" and "put_begin w h b c = (c', r)"
  shows "conn_ok parse c' \<and> (case r of Inr p \<Rightarrow> pending_ok parse p | Inl _ \<Rightarrow> True)"
proof -
  have d: "domains_ok parse (t_domains (c_db c))" using assms(2) by (auto simp: conn_ok_def db_ok_def)
  have up: "conn_ok parse (on_domains (\<lambda>_. t) c)"
    if "put_check w b = Inr (patch, refused)"
      and "update (w_now w) host patch (t_domains (c_db c)) = (t, x)" for t x host patch refused
    using domains_ok_update[OF put_check_ok[OF assms(1) that(1)] d, of "w_now w" host]
      hosts_update[of "w_now w" host patch "t_domains (c_db c)"] that(2)
    by (intro conn_ok_domains[OF assms(2)]) simp_all
  show ?thesis
    using assms(2,3)
    by (auto simp: put_begin_def reject_def intro: up dest: domains_okD(3)[OF d]
        split: if_splits option.splits sum.splits prod.splits)
qed

lemma toggle_begin_ok:
  assumes "conn_ok parse c" and "toggle_begin w h c = (c', r)"
  shows "conn_ok parse c' \<and> (case r of Inr p \<Rightarrow> pending_ok parse p | Inl _ \<Rightarrow> True)"
proof -
  have d: "domains_ok parse (t_domains (c_db c))" using assms(1) by (auto simp: conn_ok_def db_ok_def)
  have up: "conn_ok parse (on_domains (\<lambda>_. t) c)"
    if "toggleEnabled (w_now w) host (t_domains (c_db c)) = (t, x)" for t x host
    using domains_ok_toggle[OF d, of "w_now w" host] hosts_toggle[of "w_now w" host "t_domains (c_db c)"] that
    by (intro conn_ok_domains[OF assms(1)]) simp_all
  show ?thesis
    using assms
    by (auto simp: toggle_begin_def reject_def intro: up dest: domains_okD(3)[OF d]
        split: if_splits option.splits prod.splits)
qed

lemma delete_begin_ok:
  assumes "conn_ok parse c" and "delete_begin w h c = (c', r)"
  shows "conn_ok parse c'"
proof -
  have rm: "conn_ok parse (c1\<lparr>c_db := (c_db c1)\<lparr>t_domains := fst (delete x (t_domains (c_db c1))),
              t_stats := filter (\<lambda>r. st_host r \<noteq> x) (t_stats (c_db c1))\<rparr>\<rparr>)"
    if "begin_tx c = Some c1" for c1 x
    using conn_ok_remove[OF conn_ok_begin_tx[OF assms(1) that], where A = "{x}" and ev = "t_events (c_db c1)"]
    by (simp add: delete_def)
  show ?thesis
    using assms rm
    by (auto simp: delete_begin_def reject_def Let_def case_prod_unfold
        split: if_splits option.splits intro: conn_ok_end_tx)
qed

lemma begin_req_ok:
  assumes "world_ok parse w" and "conn_ok parse c" and "begin_req w req c = (c', r)"
  shows "conn_ok parse c'" and "r = Inr p \<Longrightarrow> pending_ok parse p"
proof -
  show "conn_ok parse c'"
    using assms(3) post_begin_ok[OF assms(1,2)] bulk_add_begin_ok[OF assms(1,2)]
      bulk_delete_begin_ok[OF assms(2)] bulk_toggle_begin_ok[OF assms(2)]
      put_begin_ok[OF assms(1,2)] toggle_begin_ok[OF assms(2)] delete_begin_ok[OF assms(2)]
    by (cases req) auto
  assume r: "r = Inr p"
  show "pending_ok parse p"
  proof (cases "\<exists>h d u. p = PPut h d u \<or> p = PToggle h d u")
    case True
    then have "(\<exists>h b. req = RPut h b) \<or> (\<exists>h. req = RToggle h)"
      using assms(3) r
      by (cases req)
        (auto simp: post_begin_def bulk_add_begin_def bulk_delete_begin_def bulk_toggle_begin_def
          delete_begin_def reject_def Let_def case_prod_unfold
          split: if_splits option.splits jsprim.splits)
    then show ?thesis
      using assms r put_begin_ok[OF assms(1,2)] toggle_begin_ok[OF assms(2)] by fastforce
  next
    case False
    then show ?thesis by (cases p) auto
  qed
qed

subsection \<open>The second part preserves it too\<close>

lemma tx_fail_ok: "conn_ok parse c \<Longrightarrow> tx_fail c = (c', r, e) \<Longrightarrow> conn_ok parse c'"
  by (auto simp: tx_fail_def split: option.splits intro: conn_ok_end_tx)

lemma conn_ok_update:
  "conn_ok parse c \<Longrightarrow> patch_ok parse p \<Longrightarrow> conn_ok parse (on_domains (\<lambda>t. fst (update now h p t)) c)"
  by (subst on_domains_const, rule conn_ok_domains)
    (auto simp: hosts_update intro: domains_ok_update db_ok_domains conn_okD)

lemma finish_req_ok:
  assumes "conn_ok parse c" and "pending_ok parse p" and "finish_req w p synced c = (c', r, e)"
  shows "conn_ok parse c'"
proof (cases p)
  case (PPut h d u)
  with assms show ?thesis
    by (auto simp: put_finish_def split: if_splits intro!: conn_ok_update patch_ok_restore)
next
  case (PToggle h d u)
  with assms show ?thesis
    by (auto simp: toggle_finish_def domain_ok_def split: if_splits intro!: conn_ok_update patch_ok_enabled)
qed (use assms in \<open>auto simp: post_finish_def bulk_add_finish_def bulk_delete_finish_def
        bulk_toggle_finish_def delete_finish_def Let_def conn_ok_other
      split: if_splits option.splits intro: tx_fail_ok conn_ok_end_tx\<close>)

lemma run_ok:
  assumes "world_ok parse w" and "conn_ok parse c" and "run w req c = (c', r, e)"
  shows "conn_ok parse c'"
proof -
  obtain c1 x where b: "begin_req w req c = (c1, x)" by fastforce
  note ok = begin_req_ok[OF assms(1,2) b]
  show ?thesis
  proof (cases x)
    case (Inl y)
    with assms(3) b ok show ?thesis by (auto simp: run_def)
  next
    case (Inr p)
    with assms(3) b obtain e' where "finish_req w p (w_proxy_ok w) c1 = (c', r, e')"
      by (auto simp: run_def syncToProxy_def Let_def split: prod.splits)
    with finish_req_ok ok Inr show ?thesis by blast
  qed
qed

end
