(* ===== verification/Domain_Promises.thy ===== *)
theory Domain_Promises
  imports Domain_Safe
begin

section \<open>What a reply of the domain routes means\<close>

text \<open>
  Properties of \<open>run\<close>, a write request of \<open>routes/domains.ts\<close> that runs without another request in
  between: errors leave the state, successes describe it.
\<close>

subsection \<open>Errors\<close>

lemma on_domains_saved [simp]: "c_saved (on_domains f c) = c_saved c"
  by (simp add: on_domains_def)

lemma tx_fail_restores:
  assumes "begin_tx c = Some c1" and "c_saved c2 = c_saved c1"
  shows "tx_fail c2 = (c, Reject 502 ''proxy_sync_failed'', [])"
  using assms by (auto simp: tx_fail_def end_tx_def begin_tx_def split: option.splits)

lemma end_tx_keeps:
  assumes "begin_tx c = Some c1" and "c_saved c2 = c_saved c1"
  shows "end_tx True c2 = Some (c2\<lparr>c_saved := None\<rparr>)"
  using assms by (auto simp: end_tx_def begin_tx_def split: option.splits)

lemma end_tx_undoes:
  assumes "begin_tx c = Some c1" and "c_saved c2 = c_saved c1"
  shows "end_tx False c2 = Some c"
  using assms by (auto simp: end_tx_def begin_tx_def split: option.splits)

definition transactional_req :: "request \<Rightarrow> bool" where
  "transactional_req req =
     (case req of RPost h ori \<Rightarrow> True | RBulkDelete hs \<Rightarrow> True | RDelete h \<Rightarrow> True | _ \<Rightarrow> False)"

lemma begin_transactional:
  assumes "transactional_req req" and "begin_req w req c = (c1, x)"
  shows "case x of
           Inl r \<Rightarrow> c1 = c
         | Inr p \<Rightarrow> \<exists>c0. begin_tx c = Some c0 \<and> c_saved c1 = c_saved c0"
proof (cases req)
  case (RPost h ori)
  then show ?thesis
    using assms by (auto simp: post_begin_def reject_def Let_def split: if_splits option.splits)
next
  case (RBulkDelete hs)
  then show ?thesis
    using assms
    by (auto simp: bulk_delete_begin_def reject_def Let_def case_prod_unfold split: if_splits option.splits)
next
  case (RDelete h)
  then show ?thesis
    using assms end_tx_undoes
    by (auto simp: delete_begin_def reject_def Let_def case_prod_unfold split: if_splits option.splits)
qed (use assms in \<open>simp_all add: transactional_req_def\<close>)

lemma begin_transactional_pending:
  "transactional_req req \<Longrightarrow> begin_req w req c = (c1, Inr p) \<Longrightarrow>
     (\<exists>h ori. p = PPost h ori) \<or> (\<exists>hs m n ms. p = PBulkDelete hs m n ms) \<or> (\<exists>h. p = PDelete h)"
  by (cases req)
    (auto simp: transactional_req_def post_begin_def bulk_delete_begin_def delete_begin_def reject_def
      Let_def case_prod_unfold split: if_splits option.splits)

lemma run_transactional_error:
  assumes "transactional_req req" and "run w req c = (c', r, e)" and "400 \<le> status_of r"
  shows "c' = c"
proof -
  obtain c1 x where b: "begin_req w req c = (c1, x)" by fastforce
  note bt = begin_transactional[OF assms(1) b]
  show ?thesis
  proof (cases x)
    case (Inl y)
    with assms(2) b bt show ?thesis by (auto simp: run_def)
  next
    case (Inr p)
    with bt obtain c0 where t: "begin_tx c = Some c0" "c_saved c1 = c_saved c0" by auto
    from assms(2) b Inr obtain e' where f: "finish_req w p (w_proxy_ok w) c1 = (c', r, e')"
      by (auto simp: run_def syncToProxy_def Let_def split: prod.splits)
    from begin_transactional_pending[OF assms(1) b[unfolded Inr]] show ?thesis
      using f tx_fail_restores[OF t] end_tx_keeps[OF t] assms(3)
      by (auto simp: post_finish_def bulk_delete_finish_def delete_finish_def Let_def split: if_splits)
  qed
qed

text \<open>A keyed update that the second one undoes, up to what \<open>obs\<close> hides.\<close>

lemma map_undo:
  assumes "distinct (hosts_of t)" and "findByHost t h = Some d" and "\<And>x. d_host (f x) = d_host x"
    and "obs (g (f d)) = obs d"
  shows "map obs (update_where (\<lambda>x. d_host x = h) g (update_where (\<lambda>x. d_host x = h) f t)) = map obs t"
proof -
  have "x = d" if "x \<in> set t" "d_host x = h" for x
    using findByHost_in[OF assms(1) that(1)] that(2) assms(2) by simp
  then show ?thesis
    using assms(3,4) by (auto simp: update_where_def)
qed

lemma update_rows:
  "p \<noteq> empty_patch \<Longrightarrow>
     fst (update now h p t) =
       update_where (\<lambda>d. d_host d = h) (\<lambda>d. (apply_patch p d)\<lparr>d_updated_at := now\<rparr>) t"
  by (simp add: update_def Let_def)

lemma update_empty_rows: "fst (update now h empty_patch t) = t"
  by (simp add: update_def)

definition same_but_time :: "conn \<Rightarrow> conn \<Rightarrow> bool" where
  "same_but_time c c' =
     (map forget_time (t_domains (c_db c')) = map forget_time (t_domains (c_db c)) \<and>
      c' = on_domains (\<lambda>_. t_domains (c_db c')) c)"

lemma forget_time_host: "forget_time a = forget_time b \<Longrightarrow> d_host a = d_host b"
  by (metis domain.ext_inject domain.surjective domain.update_convs(6) forget_time_def)

lemma same_but_time_refl [simp]: "same_but_time c c"
  by (simp add: same_but_time_def on_domains_def)

lemma on_domains_on_domains [simp]: "on_domains f (on_domains g c) = on_domains (f \<circ> g) c"
  by (simp add: on_domains_def)

lemma t_domains_on_domains [simp]: "t_domains (c_db (on_domains f c)) = f (t_domains (c_db c))"
  by (simp add: on_domains_def)

lemma same_but_time_on_domains:
  "map forget_time t = map forget_time (t_domains (c_db c)) \<Longrightarrow> same_but_time c (on_domains (\<lambda>_. t) c)"
  by (simp add: same_but_time_def)

lemma put_undo:
  assumes "distinct (hosts_of t)" and "findByHost t h = Some d"
  shows "map forget_time (fst (update now' h (restore_patch d) (fst (update now h p t)))) = map forget_time t"
proof (cases "p = empty_patch")
  case True
  have "d = x" if "x \<in> set t" "d_host x = h" for x
    using findByHost_in[OF assms(1) that(1)] that(2) assms(2) by simp
  moreover have "forget_time ((apply_patch (restore_patch d) d)\<lparr>d_updated_at := now'\<rparr>) = forget_time d"
    by (simp add: forget_time_def apply_patch_def restore_patch_def)
  ultimately show ?thesis
    by (auto simp: True update_empty_rows update_rows update_where_def)
next
  case False
  show ?thesis
    unfolding update_rows[OF False] update_rows[OF restore_patch_nonempty]
    by (rule map_undo[OF assms]) simp_all
qed

lemma toggle_rows:
  "fst (toggleEnabled now h t) =
     update_where (\<lambda>d. d_host d = h) (\<lambda>d. d\<lparr>d_enabled := (if d_enabled d = 1 then 0 else 1), d_updated_at := now\<rparr>) t"
  by (simp add: toggleEnabled_def Let_def)

lemma enabled_patch_nonempty [simp]: "empty_patch\<lparr>p_enabled := Some v\<rparr> \<noteq> empty_patch"
  by (simp add: empty_patch_def)

lemma toggle_undo:
  assumes "distinct (hosts_of t)" and "findByHost t h = Some d"
  shows "map forget_time (fst (update now' h (empty_patch\<lparr>p_enabled := Some (d_enabled d)\<rparr>)
            (fst (toggleEnabled now h t)))) = map forget_time t"
  unfolding toggle_rows update_rows[OF enabled_patch_nonempty]
  by (rule map_undo[OF assms]) (simp_all add: forget_time_def apply_patch_def empty_patch_def)

lemma update_None_rows: "update now h p t = (t', None) \<Longrightarrow> findByHost t h = Some d \<Longrightarrow> False"
  using update_result[of now h p t] domain_rows.lookup_Some_in[of t h d] hosts_update[of now h p t]
    domain_rows.lookup_None[of t' h]
  by (auto split: if_splits)

lemma toggle_None_rows: "toggleEnabled now h t = (t', None) \<Longrightarrow> findByHost t h = Some d \<Longrightarrow> False"
  using toggle_result[of now h t] domain_rows.lookup_Some_in[of t h d] hosts_toggle[of now h t]
    domain_rows.lookup_None[of t' h]
  by (auto split: if_splits)

lemma run_put_error:
  assumes "distinct (hosts_of (t_domains (c_db c)))"
    and "run w (RPut h b) c = (c', r, e)" and "400 \<le> status_of r"
  shows "same_but_time c c'"
proof -
  have u: "same_but_time c (on_domains ((\<lambda>t. fst (update (w_later w) x (restore_patch d) t)) \<circ> (\<lambda>_. t)) c)"
    if "findByHost (t_domains (c_db c)) x = Some d" "update (w_now w) x p (t_domains (c_db c)) = (t, Some y)"
    for x d p t y
    using put_undo[OF assms(1) that(1), of "w_later w" "w_now w" p] that(2)
    by (simp add: o_def same_but_time_on_domains)
  show ?thesis
    using assms(2,3)
    by (auto simp: run_def put_begin_def put_finish_def reject_def syncToProxy_def Let_def
        split: option.splits sum.splits prod.splits if_splits intro: u dest: update_None_rows)
qed

lemma run_toggle_error:
  assumes "distinct (hosts_of (t_domains (c_db c)))"
    and "run w (RToggle h) c = (c', r, e)" and "400 \<le> status_of r"
  shows "same_but_time c c'"
proof -
  have u: "same_but_time c (on_domains ((\<lambda>t. fst (update (w_later w) x
              (empty_patch\<lparr>p_enabled := Some (d_enabled d)\<rparr>) t)) \<circ> (\<lambda>_. t)) c)"
    if "findByHost (t_domains (c_db c)) x = Some d" "toggleEnabled (w_now w) x (t_domains (c_db c)) = (t, Some y)"
    for x d t y
    using toggle_undo[OF assms(1) that(1), of "w_later w" "w_now w"] that(2)
    by (simp add: o_def same_but_time_on_domains)
  show ?thesis
    using assms(2,3)
    by (auto simp: run_def toggle_begin_def toggle_finish_def reject_def syncToProxy_def Let_def
        split: option.splits prod.splits if_splits intro: u dest: toggle_None_rows)
qed


subsection \<open>Success: the proxy has the table\<close>

lemma proxy_payload_cong: "t_domains (c_db c) = t_domains (c_db c') \<Longrightarrow> proxy_payload c = proxy_payload c'"
  by (simp add: proxy_payload_def)

lemma fanOut_cong: "t_domains (c_db c) = t_domains (c_db c') \<Longrightarrow> fanOutGrpc w c = fanOutGrpc w c'"
  by (simp add: fanOutGrpc_def)

lemma end_tx_True_domains: "end_tx True c = Some c' \<Longrightarrow> t_domains (c_db c') = t_domains (c_db c)"
  by (auto simp: end_tx_def split: option.splits)

lemma audit_domains [simp]: "t_domains (c_db (audit w a b i f g c)) = t_domains (c_db c)"
  by (simp add: audit_def)

lemma audit_saved [simp]: "c_saved (audit w a b i f g c) = c_saved c"
  by (simp add: audit_def)

lemma tx_fail_status: "tx_fail c = (c', r, e) \<Longrightarrow> 400 \<le> status_of r"
  by (auto simp: tx_fail_def split: option.splits)

lemma finish_success:
  assumes "finish_req w p synced c = (c', r, e)" and "status_of r < 400"
  shows "synced \<and> t_domains (c_db c') = t_domains (c_db c) \<and> set (fanOutGrpc w c') \<subseteq> set e"
proof -
  have f: "\<And>x y. t_domains (c_db x) = t_domains (c_db y) \<Longrightarrow> fanOutGrpc w x = fanOutGrpc w y"
    by (rule fanOut_cong)
  have "c_db (c'\<lparr>c_db := d\<rparr>) = d" for d by simp
  then show ?thesis
    using assms tx_fail_status[of c c' r e]
    by (cases p)
      (auto simp: post_finish_def bulk_add_finish_def bulk_delete_finish_def bulk_toggle_finish_def
        put_finish_def toggle_finish_def delete_finish_def Let_def fanOutGrpc_def
        dest!: end_tx_True_domains split: if_splits option.splits)
qed

lemma begin_rejects: "begin_req w req c = (c1, Inl r) \<Longrightarrow> 400 \<le> status_of r"
proof -
  have p: "put_check w b = Inl x \<Longrightarrow> 400 \<le> status_of x" for b x
    by (auto simp: put_check_def Let_def split: if_splits option.splits)
  show "begin_req w req c = (c1, Inl r) \<Longrightarrow> 400 \<le> status_of r"
    by (cases req)
      (auto simp: post_begin_def bulk_add_begin_def bulk_delete_begin_def bulk_toggle_begin_def
        put_begin_def toggle_begin_def delete_begin_def reject_def Let_def case_prod_unfold
        split: if_splits option.splits sum.splits prod.splits jsprim.splits dest: p)
qed

lemma run_success:
  assumes "run w req c = (c', r, e)" and "status_of r < 400"
  shows "hd e = ProxySync (proxy_payload c') True \<and> e \<noteq> [] \<and> set (fanOutGrpc w c') \<subseteq> set e"
proof -
  obtain c1 x where b: "begin_req w req c = (c1, x)" by fastforce
  show ?thesis
  proof (cases x)
    case (Inl y)
    with assms b begin_rejects[of w req c c1 y] show ?thesis by (auto simp: run_def)
  next
    case (Inr p)
    with assms(1) b obtain e' where f: "finish_req w p (w_proxy_ok w) c1 = (c', r, e')"
      and e: "e = ProxySync (proxy_payload c1) (w_proxy_ok w) # e'"
      by (auto simp: run_def syncToProxy_def Let_def split: prod.splits)
    have "w_proxy_ok w \<and> t_domains (c_db c') = t_domains (c_db c1) \<and> set (fanOutGrpc w c') \<subseteq> set e'"
      by (rule finish_success[OF f assms(2)])
    with e proxy_payload_cong[of c' c1] show ?thesis by auto
  qed
qed

text \<open>The payload is the projection of the enabled rows, each once.\<close>

lemma proxy_payload_hosts:
  assumes "distinct (hosts_of (t_domains (c_db c)))"
  shows "distinct (map pd_host (proxy_payload c)) \<and>
     set (map pd_host (proxy_payload c)) = d_host ` {d \<in> set (t_domains (c_db c)). d_enabled d = 1}"
proof -
  let ?t = "t_domains (c_db c)"
  have m: "mset (findAll enabled_opts ?t) = mset (filter (\<lambda>d. d_enabled d = 1) ?t)"
    by (simp add: mset_findAll enabled_opts_def no_opts_def positive_def)
      (rule filter_mset_cong, simp, simp add: matches_def)
  have h: "map pd_host (proxy_payload c) = map d_host (findAll enabled_opts ?t)"
    by (simp add: proxy_payload_def)
  have "mset (map d_host (findAll enabled_opts ?t)) = mset (map d_host (filter (\<lambda>d. d_enabled d = 1) ?t))"
    using m by (metis mset_map)
  moreover have "distinct (map d_host (filter (\<lambda>d. d_enabled d = 1) ?t))"
    using assms by (simp add: hosts_of_def distinct_map_filter)
  ultimately show ?thesis
    unfolding h using mset_eq_imp_distinct_iff mset_eq_setD by fastforce
qed

subsection \<open>POST /api/domains\<close>

lemma run_post_created:
  assumes "run w (RPost (Str s) (Str ori)) c = (c', r, e)" and "status_of r < 400"
  shows "\<exists>u d. w_url w ori = Some u \<and> r = Ok 201 (BDomain (Some d)) \<and>
     findByHost (t_domains (c_db c')) (normalizeHost s) = Some d \<and> d_origin d = url_origin u \<and>
     good_host (normalizeHost s) \<and> c_saved c' = None \<and>
     (\<forall>h. h \<noteq> normalizeHost s \<longrightarrow>
        findByHost (t_domains (c_db c')) h = findByHost (t_domains (c_db c)) h) \<and>
     t_stats (c_db c') = t_stats (c_db c) \<and> t_events (c_db c') = t_events (c_db c) \<and>
     t_users (c_db c') = t_users (c_db c)"
proof -
  obtain c1 x where b: "post_begin w (Str s) (Str ori) c = (c1, x)" by fastforce
  from assms b begin_rejects[of w "RPost (Str s) (Str ori)" c c1] obtain p where x: "x = Inr p"
    by (cases x) (auto simp: run_def)
  let ?h = "normalizeHost s"
  from b x obtain u c0 where g: "DOMAIN_RE ?h" "w_url w ori = Some u" "begin_tx c = Some c0"
    "c1 = on_domains (upsert (w_now w) ?h (url_origin u) None) c0" "p = PPost ?h (url_origin u)"
    by (auto simp: post_begin_def normalizeOrigin_def reject_def Let_def split: if_splits option.splits)
  from assms(1) b x g(5) obtain e' where f: "post_finish w ?h (url_origin u) (w_proxy_ok w) c1 = (c', r, e')"
    by (auto simp: run_def syncToProxy_def Let_def split: prod.splits)
  have ok: "w_proxy_ok w"
    using finish_success[of w p "w_proxy_ok w" c1 c' r e'] f assms(2) g(5) by simp
  have e1: "end_tx True c1 = Some (c1\<lparr>c_saved := None\<rparr>)"
    by (rule end_tx_keeps[OF g(3)]) (simp add: g(4))
  have c0: "c_db c0 = c_db c" using begin_tx_db[OF g(3)] by simp
  have gh: "good_host ?h" using g(1) by (rule good_host_normalized)
  show ?thesis
    using f ok e1 g(2) gh c0
    by (auto simp: post_finish_def Let_def g(4) audit_def on_domains_def findByHost_upsert new_domain_def
        split: option.splits)
qed

subsection \<open>DELETE\<close>

definition without_host :: "string \<Rightarrow> db \<Rightarrow> db" where
  "without_host h s =
     s\<lparr>t_domains := filter (\<lambda>d. d_host d \<noteq> h) (t_domains s),
       t_stats := filter (\<lambda>r. st_host r \<noteq> h) (t_stats s),
       t_events := (t_events s)\<lparr>ev_rows := filter (\<lambda>v. e_host v \<noteq> h) (ev_rows (t_events s))\<rparr>\<rparr>"

lemma run_delete_done:
  assumes "run w (RDelete raw) c = (c', r, e)" and "status_of r < 400"
  shows "\<exists>h log. host_param raw = Some h \<and> h \<in> set (hosts_of (t_domains (c_db c))) \<and>
     c' = c\<lparr>c_db := (without_host h (c_db c))\<lparr>t_audit := log\<rparr>\<rparr> \<and> r = Ok 204 BNone"
proof -
  obtain c1 x where b: "delete_begin w raw c = (c1, x)" by fastforce
  from assms b begin_rejects[of w "RDelete raw" c c1] obtain p where x: "x = Inr p"
    by (cases x) (auto simp: run_def)
  from b x obtain h c0 where g: "host_param raw = Some h" "findByHost (t_domains (c_db c)) h \<noteq> None"
    "begin_tx c = Some c0" "p = PDelete h"
    "c1 = c0\<lparr>c_db := (c_db c0)\<lparr>t_domains := fst (delete h (t_domains (c_db c0))),
                                  t_stats := filter (\<lambda>r. st_host r \<noteq> h) (t_stats (c_db c0))\<rparr>\<rparr>"
    by (auto simp: delete_begin_def reject_def Let_def case_prod_unfold split: if_splits option.splits)
  from assms(1) b x g(4) obtain e' where f: "delete_finish w h (w_proxy_ok w) c1 = (c', r, e')"
    by (auto simp: run_def syncToProxy_def Let_def split: prod.splits)
  have ok: "w_proxy_ok w"
    using finish_success[of w p "w_proxy_ok w" c1 c' r e'] f assms(2) g(4) by simp
  have e1: "end_tx True c1 = Some (c1\<lparr>c_saved := None\<rparr>)"
    by (rule end_tx_keeps[OF g(3)]) (simp add: g(5))
  have c0: "c_db c0 = c_db c" "c_saved c = None" "c0\<lparr>c_saved := None\<rparr> = c"
    using begin_tx_db[OF g(3)] g(3) by (auto simp: begin_tx_def split: option.splits)
  have c': "c' = audit w ''domain.delete'' ''domain'' h None None
      (c1\<lparr>c_saved := None, c_db := (c_db c1)\<lparr>t_events := fst (deleteByHost h (t_events (c_db c1)))\<rparr>\<rparr>)"
    and r: "r = Ok 204 BNone"
    using f ok e1 by (auto simp: delete_finish_def)
  have "h \<in> set (hosts_of (t_domains (c_db c)))"
    using g(2) by (simp add: domain_rows.lookup_None)
  moreover have "c' = c\<lparr>c_db := (without_host h (c_db c))\<lparr>t_audit := t_audit (c_db c')\<rparr>\<rparr>"
    unfolding c' g(5) using c0
    by (simp add: audit_def without_host_def deleteByHost_def delete_events_def delete_def)
  ultimately show ?thesis using g(1) r by blast
qed


subsection \<open>POST /api/domains/bulk\<close>

lemma bulk_loop_lists:
  assumes "bulk_loop err now xs t r = (t', r')" and "distinct (map fst xs)"
  shows "map fst (b_failed r') = map fst (b_failed r) @ map fst (filter (\<lambda>(h, x). err h x \<noteq> None) xs) \<and>
     map fst (b_skipped r') = map fst (b_skipped r) @
       map fst (filter (\<lambda>(h, x). err h x = None \<and> h \<in> set (hosts_of t)) xs) \<and>
     hosts_of t' = hosts_of t @ map fst (filter (\<lambda>(h, x). err h x = None \<and> h \<notin> set (hosts_of t)) xs)"
  using assms
proof (induction err now xs t r rule: bulk_loop.induct)
  case (1 err now t r)
  then show ?case by simp
next
  case (2 err now h x xs t r)
  show ?case
  proof (cases "err h x")
    case (Some e)
    with 2 show ?thesis by auto
  next
    case None
    show ?thesis
    proof (cases "h \<in> set (hosts_of t)")
      case True
      with 2 None show ?thesis by auto
    next
      case False
      have nk: "k \<noteq> h" if "(k, y) \<in> set xs" for k y
        using "2.prems"(2) that by force
      have f: "filter (\<lambda>(k, y). err k y = None \<and> k \<in> set (hosts_of (t @ [new_domain now h x []]))) xs =
          filter (\<lambda>(k, y). err k y = None \<and> k \<in> set (hosts_of t)) xs"
        "filter (\<lambda>(k, y). err k y = None \<and> k \<notin> set (hosts_of (t @ [new_domain now h x []]))) xs =
          filter (\<lambda>(k, y). err k y = None \<and> k \<notin> set (hosts_of t)) xs"
        using nk by (auto intro!: filter_cong)
      show ?thesis
        using "2.IH"(2)[OF None False] "2.prems" None False unfolding f by auto
    qed
  qed
qed

lemma added_hosts_are_new:
  assumes "bulkInsert err now xs t = (t', r)" and "distinct (map fst xs)"
  shows "hosts_of t' = hosts_of t @ added_hosts r (map fst xs)"
proof -
  have l: "bulk_loop err now xs t \<lparr>b_added = 0, b_skipped = [], b_failed = []\<rparr> = (t', r)"
    using assms(1) by (simp add: bulkInsert_def)
  note k = bulk_loop_lists[OF l assms(2)]
  have m: "fst p \<in> set (map fst (filter Q xs)) \<longleftrightarrow> Q p" if "p \<in> set xs" for p Q
    using assms(2) that by (auto simp: distinct_map dest: inj_onD)
  have "added_hosts r (map fst xs) =
      map fst (filter (\<lambda>p. fst p \<notin> set (map fst (b_failed r)) \<and> fst p \<notin> set (map fst (b_skipped r))) xs)"
    by (simp add: added_hosts_def filter_map o_def)
  also have "\<dots> = map fst (filter (\<lambda>(h, x). err h x = None \<and> h \<notin> set (hosts_of t)) xs)"
  proof (rule arg_cong[where f = "map fst"], rule filter_cong[OF refl])
    fix p assume p: "p \<in> set xs"
    have "fst p \<in> set (map fst (b_failed r)) \<longleftrightarrow> (\<lambda>(h, x). err h x \<noteq> None) p"
      "fst p \<in> set (map fst (b_skipped r)) \<longleftrightarrow> (\<lambda>(h, x). err h x = None \<and> h \<in> set (hosts_of t)) p"
      using k m[OF p] by simp_all
    then show "(fst p \<notin> set (map fst (b_failed r)) \<and> fst p \<notin> set (map fst (b_skipped r))) =
        (case p of (h, x) \<Rightarrow> err h x = None \<and> h \<notin> set (hosts_of t))"
      by (cases p) auto
  qed
  finally show ?thesis using k by simp
qed

lemma run_bulk_add_created:
  assumes "run w (RBulkAdd ds) c = (c', r, e)" and "status_of r < 400"
  shows "\<exists>items res hosts. ds = Some items \<and> length items \<le> BULK_MAX_DOMAINS \<and> r = Ok 201 (BBulk res) \<and>
     hosts = map (normalizeHost \<circ> str_of \<circ> fst \<circ> the) items \<and>
     b_added res + int (length (b_skipped res)) + int (length (b_failed res)) = int (length items) \<and>
     (\<exists>new. t_domains (c_db c') = t_domains (c_db c) @ new \<and> int (length new) = b_added res \<and>
        map d_host new = added_hosts res hosts) \<and>
     filter (\<lambda>x. \<exists>h ok. x = SetProfile h ok) e = map (set_profile w) (added_hosts res hosts)"
proof -
  obtain c1 x where b: "bulk_add_begin w ds c = (c1, x)" by fastforce
  from assms b begin_rejects[of w "RBulkAdd ds" c c1] obtain p where x: "x = Inr p"
    by (cases x) (auto simp: run_def)
  define nd where "nd items = map (bulk_normalize \<circ> the) items" for items :: "(jsprim \<times> jsprim) option list"
  define rows where "rows items = map (\<lambda>(h, x). (h, the x))
      (map (\<lambda>d. (str_of (fst d), normalizeOrigin (w_url w) (str_of (snd d)))) (nd items))" for items
  from b x obtain items res t where g: "ds = Some items" "length items \<le> BULK_MAX_DOMAINS"
    "list_all (\<lambda>d. is_str (fst d) \<and> DOMAIN_RE (str_of (fst d))) (nd items)"
    "distinct (map (str_of \<circ> fst) (nd items))"
    "bulkInsert (w_insert_err w) (w_now w) (rows items) (t_domains (c_db c)) = (t, res)"
    "c1 = on_domains (\<lambda>_. t) c" "p = PBulkAdd res (map (str_of \<circ> fst) (nd items))"
    by (auto simp: bulk_add_begin_def nd_def rows_def reject_def Let_def o_def split: if_splits option.splits prod.splits)
  have fst_rows: "map fst (rows items) = map (str_of \<circ> fst) (nd items)"
    by (simp add: rows_def o_def case_prod_unfold)
  have len: "length (rows items) = length items" by (simp add: rows_def nd_def)
  have s: "is_str (fst (bulk_normalize i)) \<Longrightarrow> str_of (fst (bulk_normalize i)) = normalizeHost (str_of (fst i))" for i
    by (cases "fst i") (auto simp: bulk_normalize_def)
  have hosts: "map (str_of \<circ> fst) (nd items) = map (normalizeHost \<circ> str_of \<circ> fst \<circ> the) items"
    using g(3) s by (auto simp: nd_def list_all_iff)
  from assms(1) b x g(7) obtain e' where
    f: "bulk_add_finish w res (map (str_of \<circ> fst) (nd items)) (w_proxy_ok w) c1 = (c', r, e')"
    and e: "e = ProxySync (proxy_payload c1) (w_proxy_ok w) # e'"
    by (auto simp: run_def syncToProxy_def Let_def split: prod.splits)
  have fin: "c' = c1" "r = Ok 201 (BBulk res)"
    "e' = fanOutGrpc w c1 @ map (set_profile w) (added_hosts res (map (str_of \<circ> fst) (nd items)))"
    using f assms(2) by (auto simp: bulk_add_finish_def split: if_splits)
  have l: "bulk_loop (w_insert_err w) (w_now w) (rows items) (t_domains (c_db c))
      \<lparr>b_added = 0, b_skipped = [], b_failed = []\<rparr> = (t, res)"
    using g(5) by (simp add: bulkInsert_def)
  obtain new where new: "t = t_domains (c_db c) @ new" "b_added res = int (length new)"
    using bulk_loop_extends[OF l] by auto
  have "map d_host new = added_hosts res (map (str_of \<circ> fst) (nd items))"
    using added_hosts_are_new[OF g(5)] g(4) fst_rows new(1) by (simp add: hosts_of_def)
  moreover have "filter (\<lambda>x. \<exists>h ok. x = SetProfile h ok) (map (set_profile w) hs) = map (set_profile w) hs" for hs
    by (simp add: set_profile_def filter_id_conv)
  moreover have "filter (\<lambda>x. \<exists>h ok. x = SetProfile h ok) (fanOutGrpc w c1) = []"
    by (simp add: fanOutGrpc_def Let_def)
  ultimately show ?thesis
    using g(1,2,6) fin e new hosts bulk_loop_count[OF l] len
    by (intro exI[of _ items] exI[of _ res] exI[of _ "map (normalizeHost \<circ> str_of \<circ> fst \<circ> the) items"])
      (simp add: on_domains_def)
qed

subsection \<open>DELETE /api/domains/bulk\<close>

lemma bulkDelete_missing:
  "bulkDelete hs t = (t', n, missing) \<Longrightarrow> set missing = set hs - set (hosts_of t)"
  by (auto simp: bulkDelete_def Let_def split: if_splits)

lemma deleteByHosts_rows: "ev_rows (fst (deleteByHosts hs s)) = filter (\<lambda>e. e_host e \<notin> set hs) (ev_rows s)"
  by (simp add: deleteByHosts_def delete_events_def)

lemma run_bulk_delete_done:
  assumes "run w (RBulkDelete hs) c = (c', r, e)" and "status_of r < 400"
    and "distinct (hosts_of (t_domains (c_db c)))"
  shows "\<exists>raw hosts n missing. hs = Some raw \<and> hosts = map (normalizeHost \<circ> str_of) raw \<and>
     r = Ok 200 (BDeleted n (length raw) missing) \<and> n + length missing = length (uniq hosts) \<and>
     set missing = set hosts - set (hosts_of (t_domains (c_db c))) \<and>
     t_domains (c_db c') = filter (\<lambda>d. d_host d \<notin> set hosts) (t_domains (c_db c)) \<and>
     t_stats (c_db c') = filter (\<lambda>x. st_host x \<notin> set hosts) (t_stats (c_db c)) \<and>
     ev_rows (t_events (c_db c')) = filter (\<lambda>v. e_host v \<notin> set hosts) (ev_rows (t_events (c_db c))) \<and>
     t_users (c_db c') = t_users (c_db c) \<and> t_audit (c_db c') = t_audit (c_db c)"
proof -
  obtain c1 x where b: "begin_req w (RBulkDelete hs) c = (c1, x)" by fastforce
  from assms(1,2) b begin_rejects[of w "RBulkDelete hs" c c1] obtain p where p: "x = Inr p"
    by (cases x) (auto simp: run_def)
  obtain raw where hs: "hs = Some raw" using b p by (auto simp: bulk_delete_begin_def reject_def split: option.splits)
  let ?hosts = "map (normalizeHost \<circ> str_of) raw"
  obtain t n missing where d: "bulkDelete ?hosts (t_domains (c_db c)) = (t, n, missing)" by (metis prod_cases3)
  have raw: "raw \<noteq> []" "list_all is_str raw"
    using b p hs by (simp_all add: bulk_delete_begin_def reject_def split: if_splits)
  obtain c0 where t0: "begin_tx c = Some c0"
    using b p hs raw by (cases "begin_tx c") (simp_all add: bulk_delete_begin_def)
  have cdb0: "c_db c0 = c_db c" using begin_tx_db[OF t0] by simp
  have c1: "c1 = c0\<lparr>c_db := (c_db c0)\<lparr>t_domains := t,
        t_stats := filter (\<lambda>r. st_host r \<notin> set ?hosts) (t_stats (c_db c0)),
        t_events := fst (deleteByHosts ?hosts (t_events (c_db c0)))\<rparr>\<rparr>"
    and pp: "p = PBulkDelete ?hosts (length raw) n missing"
    using b p hs raw t0 d cdb0 by (simp_all add: bulk_delete_begin_def Let_def)
  have cdb: "c_db c0 = c_db c" using begin_tx_db[OF t0] by simp
  have sv: "c_saved c1 = c_saved c0" using c1 by simp
  from assms(1) b p obtain e' where f: "finish_req w p (w_proxy_ok w) c1 = (c', r, e')"
    by (auto simp: run_def syncToProxy_def Let_def split: prod.splits)
  have ok: "w_proxy_ok w" using finish_success[OF f assms(2)] by simp
  have res: "c' = c1\<lparr>c_saved := None\<rparr>" "r = Ok 200 (BDeleted n (length raw) missing)"
    using f ok end_tx_keeps[OF t0 sv] by (simp_all add: pp bulk_delete_finish_def)
  have t: "t = filter (\<lambda>d. d_host d \<notin> set ?hosts) (t_domains (c_db c))"
    using bulkDelete_rows[of ?hosts "t_domains (c_db c)"] d by simp
  show ?thesis
    using bulkDelete_count[OF assms(3) d] bulkDelete_missing[OF d] hs res t
    by (auto simp: c1 cdb deleteByHosts_rows)
qed

end
