(* ===== verification/Domain_Concurrency.thy ===== *)
theory Domain_Concurrency
  imports Domain_Promises
begin

section \<open>Requests that overlap\<close>

text \<open>
  The admin server is one process with one event loop, so handlers interleave where they await.
  First \<open>withHostLock\<close> of \<open>routes/domains.ts\<close>: tickets numbered in the order of the calls, the map
  \<open>hostLocks\<close> from a host to the promise registered last, and the chain of predecessors. Then the
  write handlers of \<open>Domain_Write\<close>, each in its two parts, on the one connection.
\<close>

subsection \<open>The host lock\<close>

text \<open>
  A ticket waits for its predecessor, runs \<open>fn\<close>, is settled when \<open>fn\<close> returns or throws, and is gone
  when its \<open>finally\<close> block has run. The predecessor's failure does not matter to it.
\<close>

datatype ticket_phase = Waiting | Running | Settled | Gone

record lock_state =
  lk_map :: "string \<Rightarrow> nat option"
  lk_prev :: "nat \<Rightarrow> nat option"
  lk_host :: "nat \<Rightarrow> string"
  lk_phase :: "nat \<Rightarrow> ticket_phase"
  lk_next :: nat

definition lock_init :: lock_state where
  "lock_init = \<lparr>lk_map = (\<lambda>_. None), lk_prev = (\<lambda>_. None), lk_host = (\<lambda>_. []),
     lk_phase = (\<lambda>_. Waiting), lk_next = 0\<rparr>"

definition lock_enter :: "string \<Rightarrow> lock_state \<Rightarrow> lock_state" where
  "lock_enter h s =
     (let i = lk_next s
      in s\<lparr>lk_map := (lk_map s)(h := Some i), lk_prev := (lk_prev s)(i := lk_map s h),
           lk_host := (lk_host s)(i := h), lk_phase := (lk_phase s)(i := Waiting), lk_next := i + 1\<rparr>)"

definition settled :: "lock_state \<Rightarrow> nat \<Rightarrow> bool" where
  "settled s i = (lk_phase s i = Settled \<or> lk_phase s i = Gone)"

definition may_start :: "nat \<Rightarrow> lock_state \<Rightarrow> bool" where
  "may_start i s =
     (i < lk_next s \<and> lk_phase s i = Waiting \<and>
      (case lk_prev s i of None \<Rightarrow> True | Some j \<Rightarrow> settled s j))"

definition set_phase :: "nat \<Rightarrow> ticket_phase \<Rightarrow> lock_state \<Rightarrow> lock_state" where
  "set_phase i p s = s\<lparr>lk_phase := (lk_phase s)(i := p)\<rparr>"

definition lock_cleanup :: "nat \<Rightarrow> lock_state \<Rightarrow> lock_state" where
  "lock_cleanup i s =
     (let h = lk_host s i; s1 = set_phase i Gone s
      in if lk_map s h = Some i then s1\<lparr>lk_map := (lk_map s)(h := None)\<rparr> else s1)"

inductive lock_step :: "lock_state \<Rightarrow> lock_state \<Rightarrow> bool" where
  Enter: "lock_step s (lock_enter h s)"
| Start: "may_start i s \<Longrightarrow> lock_step s (set_phase i Running s)"
| Settle: "i < lk_next s \<Longrightarrow> lk_phase s i = Running \<Longrightarrow> lock_step s (set_phase i Settled s)"
| Cleanup: "i < lk_next s \<Longrightarrow> lk_phase s i = Settled \<Longrightarrow> lock_step s (lock_cleanup i s)"

inductive_cases lock_stepE: "lock_step s s'"

text \<open>
  The tickets of a host before a ticket that is no longer waiting are settled; the map names the last
  ticket of the host or, without an entry, every ticket of the host is settled.
\<close>

definition before :: "lock_state \<Rightarrow> nat \<Rightarrow> nat \<Rightarrow> bool" where
  "before s k i = (k < i \<and> i < lk_next s \<and> lk_host s k = lk_host s i)"

definition lock_inv :: "lock_state \<Rightarrow> bool" where
  "lock_inv s =
     ((\<forall>k i. before s k i \<longrightarrow> lk_phase s i \<noteq> Waiting \<longrightarrow> settled s k) \<and>
      (\<forall>k i. before s k i \<longrightarrow>
         (case lk_prev s i of None \<Rightarrow> settled s k | Some j \<Rightarrow> k \<le> j)) \<and>
      (\<forall>i j. i < lk_next s \<longrightarrow> lk_prev s i = Some j \<longrightarrow> before s j i) \<and>
      (\<forall>h i. lk_map s h = Some i \<longrightarrow> i < lk_next s \<and> lk_host s i = h \<and> lk_phase s i \<noteq> Gone) \<and>
      (\<forall>k. k < lk_next s \<longrightarrow>
         (case lk_map s (lk_host s k) of None \<Rightarrow> lk_phase s k = Gone \<or> settled s k | Some m \<Rightarrow> k \<le> m)))"

lemma lock_invD:
  assumes "lock_inv s"
  shows "before s k i \<Longrightarrow> lk_phase s i \<noteq> Waiting \<Longrightarrow> settled s k"
    and "before s k i \<Longrightarrow> lk_prev s i = None \<Longrightarrow> settled s k"
    and "before s k i \<Longrightarrow> lk_prev s i = Some j \<Longrightarrow> k \<le> j"
    and "i < lk_next s \<Longrightarrow> lk_prev s i = Some j \<Longrightarrow> before s j i"
    and "lk_map s h = Some i \<Longrightarrow> i < lk_next s \<and> lk_host s i = h \<and> lk_phase s i \<noteq> Gone"
    and "k < lk_next s \<Longrightarrow> lk_map s (lk_host s k) = None \<Longrightarrow> settled s k"
    and "k < lk_next s \<Longrightarrow> lk_map s (lk_host s k) = Some m \<Longrightarrow> k \<le> m"
  using assms unfolding lock_inv_def settled_def by fastforce+

lemma lock_inv_init: "lock_inv lock_init"
  by (simp add: lock_inv_def lock_init_def before_def)

lemma lock_invI:
  assumes "\<And>k i. before s k i \<Longrightarrow> lk_phase s i \<noteq> Waiting \<Longrightarrow> settled s k"
    and "\<And>k i. before s k i \<Longrightarrow> lk_prev s i = None \<Longrightarrow> settled s k"
    and "\<And>k i j. before s k i \<Longrightarrow> lk_prev s i = Some j \<Longrightarrow> k \<le> j"
    and "\<And>i j. i < lk_next s \<Longrightarrow> lk_prev s i = Some j \<Longrightarrow> before s j i"
    and "\<And>h i. lk_map s h = Some i \<Longrightarrow> i < lk_next s \<and> lk_host s i = h \<and> lk_phase s i \<noteq> Gone"
    and "\<And>k. k < lk_next s \<Longrightarrow> lk_map s (lk_host s k) = None \<Longrightarrow> settled s k"
    and "\<And>k m. k < lk_next s \<Longrightarrow> lk_map s (lk_host s k) = Some m \<Longrightarrow> k \<le> m"
  shows "lock_inv s"
  unfolding lock_inv_def using assms by (auto split: option.splits)

lemma lock_inv_enter:
  assumes "lock_inv s"
  shows "lock_inv (lock_enter h s)"
proof (rule lock_invI, goal_cases)
  case (1 k i)
  then show ?case
    using lock_invD(1)[OF assms, of k i]
    by (auto simp: lock_enter_def Let_def before_def settled_def split: if_splits)
next
  case (2 k i)
  then show ?case
    using lock_invD(2)[OF assms, of k i] lock_invD(6)[OF assms, of k]
    by (auto simp: lock_enter_def Let_def before_def settled_def split: if_splits)
next
  case (3 k i j)
  then show ?case
    using lock_invD(3)[OF assms, of k i j] lock_invD(7)[OF assms, of k j]
    by (auto simp: lock_enter_def Let_def before_def split: if_splits)
next
  case (4 i j)
  then show ?case
    using lock_invD(4)[OF assms, of i j] lock_invD(5)[OF assms, of h j]
    by (auto simp: lock_enter_def Let_def before_def split: if_splits)
next
  case (5 h' i)
  then show ?case
    using lock_invD(5)[OF assms, of h' i]
    by (auto simp: lock_enter_def Let_def split: if_splits)
next
  case (6 k)
  then show ?case
    using lock_invD(6)[OF assms, of k]
    by (auto simp: lock_enter_def Let_def settled_def split: if_splits)
next
  case (7 k m)
  then show ?case
    using lock_invD(7)[OF assms, of k m]
    by (auto simp: lock_enter_def Let_def split: if_splits)
qed

text \<open>A ticket that moves on: everything before it is settled when it starts.\<close>

lemma lock_inv_phase:
  assumes "lock_inv s" and "p \<noteq> Waiting" and "p = Gone \<Longrightarrow> lk_map s (lk_host s i) \<noteq> Some i"
    and "i < lk_next s" and "\<And>k. before s k i \<Longrightarrow> settled s k"
    and "settled s i \<Longrightarrow> p = Settled \<or> p = Gone"
  shows "lock_inv (set_phase i p s)"
proof -
  have st: "settled s k \<Longrightarrow> settled (set_phase i p s) k" for k
    using assms(6) by (auto simp: settled_def set_phase_def)
  have eq: "before (set_phase i p s) = before s" "lk_prev (set_phase i p s) = lk_prev s"
    "lk_map (set_phase i p s) = lk_map s" "lk_host (set_phase i p s) = lk_host s"
    "lk_next (set_phase i p s) = lk_next s"
    by (simp_all add: fun_eq_iff before_def set_phase_def)
  show ?thesis
  proof (rule lock_invI, unfold eq, goal_cases)
    case (1 k j)
    then show ?case
      using lock_invD(1)[OF assms(1), of k j] assms(5)[of k] st
      by (cases "j = i") (auto simp: set_phase_def)
  next
    case (5 h j)
    then show ?case
      using lock_invD(5)[OF assms(1), of h j] assms(3) by (auto simp: set_phase_def)
  qed (use lock_invD[OF assms(1)] st in auto)
qed

lemma lock_inv_step: "lock_step s s' \<Longrightarrow> lock_inv s \<Longrightarrow> lock_inv s'"
proof (erule lock_stepE, goal_cases)
  case (1 h)
  then show ?case by (simp add: lock_inv_enter)
next
  case (2 i)
  have b: "settled s k" if k: "before s k i" for k
  proof (cases "lk_prev s i")
    case None
    then show ?thesis using lock_invD(2)[OF 2(1) k] by simp
  next
    case (Some j)
    with 2 have j: "settled s j" by (simp add: may_start_def)
    have "before s j i" using lock_invD(4)[OF 2(1) _ Some] 2 by (simp add: may_start_def)
    moreover have "k \<le> j" by (rule lock_invD(3)[OF 2(1) k Some])
    ultimately have "k = j \<or> before s k j" using k by (auto simp: before_def)
    with j lock_invD(1)[OF 2(1), of k j] show ?thesis by (auto simp: settled_def)
  qed
  show ?case unfolding 2(2)
    using 2 b by (intro lock_inv_phase) (auto simp: may_start_def settled_def)
next
  case (3 i)
  then show ?case
    using lock_invD(1)[OF 3(1), of _ i] by (auto intro!: lock_inv_phase simp: settled_def)
next
  case (4 i)
  have b: "settled s k" if "before s k i" for k
    using lock_invD(1)[OF 4(1) that] 4 by simp
  show ?case
  proof (cases "lk_map s (lk_host s i) = Some i")
    case False
    then show ?thesis
      using 4 b by (auto simp: lock_cleanup_def Let_def intro!: lock_inv_phase)
  next
    case True
    let ?t = "set_phase i Gone s\<lparr>lk_map := (lk_map s)(lk_host s i := None)\<rparr>"
    have st: "settled s k \<Longrightarrow> settled ?t k" for k by (auto simp: settled_def set_phase_def)
    have me: "settled ?t k" if "k < lk_next s" "lk_host s k = lk_host s i" for k
    proof -
      have "k \<le> i" using lock_invD(7)[OF 4(1) that(1)] True that(2) by simp
      then have "k = i \<or> before s k i" using that 4 by (auto simp: before_def)
      then show ?thesis using b st by (auto simp: settled_def set_phase_def)
    qed
    have eq: "before ?t = before s" "lk_prev ?t = lk_prev s" "lk_host ?t = lk_host s" "lk_next ?t = lk_next s"
      by (simp_all add: fun_eq_iff before_def set_phase_def)
    have "lock_inv ?t"
    proof (rule lock_invI, unfold eq, goal_cases)
      case (1 k j)
      then show ?case using lock_invD(1)[OF 4(1), of k j] b st by (cases "j = i") (auto simp: set_phase_def)
    next
      case (5 h j)
      then show ?case using lock_invD(5)[OF 4(1), of h j] by (auto simp: set_phase_def split: if_splits)
    next
      case (6 k)
      then show ?case using lock_invD(6)[OF 4(1), of k] me st by (auto simp: set_phase_def split: if_splits)
    next
      case (7 k m)
      then show ?case using lock_invD(7)[OF 4(1), of k m] by (auto simp: set_phase_def split: if_splits)
    qed (use lock_invD[OF 4(1)] st in auto)
    with True 4 show ?thesis by (simp add: lock_cleanup_def Let_def)
  qed
qed

lemma lock_inv_reachable: "lock_step\<^sup>*\<^sup>* lock_init s \<Longrightarrow> lock_inv s"
  by (induction rule: rtranclp_induct) (auto intro: lock_inv_init lock_inv_step)


lemma lock_fifo:
  assumes "lock_step\<^sup>*\<^sup>* lock_init s" and "k < i" and "i < lk_next s" and "lk_host s k = lk_host s i"
    and "lk_phase s i = Running"
  shows "settled s k"
  using lock_invD(1)[OF lock_inv_reachable[OF assms(1)], of k i] assms by (auto simp: before_def)

subsection \<open>Interleaved handlers\<close>

text \<open>
  The handlers in flight: each with its world and what it holds while it awaits the proxy. A step
  begins a request (which may end at once) or resumes one with the outcome of its call.
\<close>

record server =
  sv_conn :: conn
  sv_flight :: "(world \<times> pending) list"

inductive server_step :: "url_parser \<Rightarrow> server \<Rightarrow> server \<Rightarrow> bool" for parse :: url_parser where
  Reply: "world_ok parse w \<Longrightarrow> begin_req w req (sv_conn s) = (c, Inl r) \<Longrightarrow>
     server_step parse s (s\<lparr>sv_conn := c\<rparr>)"
| Suspend: "world_ok parse w \<Longrightarrow> begin_req w req (sv_conn s) = (c, Inr p) \<Longrightarrow>
     server_step parse s (s\<lparr>sv_conn := c, sv_flight := sv_flight s @ [(w, p)]\<rparr>)"
| Resume: "i < length (sv_flight s) \<Longrightarrow> sv_flight s ! i = (w, p) \<Longrightarrow>
     finish_req w p synced (sv_conn s) = (c, r, e) \<Longrightarrow>
     server_step parse s (s\<lparr>sv_conn := c, sv_flight := take i (sv_flight s) @ drop (Suc i) (sv_flight s)\<rparr>)"

inductive_cases server_stepE: "server_step parse s s'"

definition server_ok :: "url_parser \<Rightarrow> server \<Rightarrow> bool" where
  "server_ok parse s =
     (conn_ok parse (sv_conn s) \<and> (\<forall>(w, p) \<in> set (sv_flight s). pending_ok parse p))"

lemma server_ok_step: "server_step parse s s' \<Longrightarrow> server_ok parse s \<Longrightarrow> server_ok parse s'"
proof (erule server_stepE, goal_cases)
  case (1 w req c r)
  then show ?case using begin_req_ok(1)[of parse w "sv_conn s" req c] by (auto simp: server_ok_def)
next
  case (2 w req c p)
  then show ?case using begin_req_ok[of parse w "sv_conn s" req c] by (auto simp: server_ok_def)
next
  case (3 i w p synced c r e)
  then have "(w, p) \<in> set (sv_flight s)" by (metis nth_mem)
  with 3 have "conn_ok parse c"
    using finish_req_ok[of parse "sv_conn s" p w synced c r e] by (auto simp: server_ok_def)
  with 3 show ?case by (auto simp: server_ok_def dest: in_set_takeD in_set_dropD)
qed

lemma server_ok_reachable: "(server_step parse)\<^sup>*\<^sup>* s s' \<Longrightarrow> server_ok parse s \<Longrightarrow> server_ok parse s'"
  by (induction rule: rtranclp_induct) (auto intro: server_ok_step)

text \<open>
  While a transaction is open, a second transactional request fails with an exception and leaves the
  database alone: \<open>BEGIN IMMEDIATE\<close> on a connection that is in a transaction.
\<close>

lemma transactional_in_tx:
  assumes "transactional_req req" and "c_saved c \<noteq> None"
  shows "\<exists>r. begin_req w req c = (c, Inl r) \<and> 400 \<le> status_of r"
proof -
  obtain c1 x where b: "begin_req w req c = (c1, x)" by fastforce
  note t = begin_transactional[OF assms(1) b]
  show ?thesis
  proof (cases x)
    case (Inl r)
    with b t begin_rejects[of w req c c1 r] show ?thesis by auto
  next
    case (Inr p)
    with t assms(2) show ?thesis by (auto simp: begin_tx_def split: option.splits)
  qed
qed

text \<open>
  What the host lock does not cover: another host's toggle that is answered while a deletion awaits
  the proxy is undone by the deletion's rollback.
\<close>

lemma delete_rollback_loses:
  assumes "c_saved c = None" and "delete_begin w1 h1 c = (c1, Inr (PDelete x))"
    and "toggle_begin w2 h2 c1 = (c2, Inr (PToggle y d u))"
    and "toggle_finish w2 y d u True c2 = (c3, Ok 200 b, e2)"
  shows "delete_finish w1 x False c3 = (c, Reject 502 ''proxy_sync_failed'', [])"
proof -
  obtain c0 where t: "begin_tx c = Some c0" "c_saved c1 = c_saved c0"
    using begin_transactional[of "RDelete h1" w1 c c1 "Inr (PDelete x)"] assms(2)
    by (auto simp: transactional_req_def)
  have "c_saved c3 = c_saved c0"
    using assms(3,4) t(2)
    by (auto simp: toggle_begin_def toggle_finish_def reject_def split: option.splits prod.splits)
  then show ?thesis
    using tx_fail_restores[OF t(1)] by (simp add: delete_finish_def)
qed

end
