(* ===== verification/Auth.thy ===== *)
theory Auth
  imports Domain_Write
begin

section \<open>Sessions and accounts\<close>

text \<open>
  \<open>auth/jwt.ts\<close>, \<open>auth/require-auth.ts\<close>, \<open>auth/require-internal-token.ts\<close>, \<open>routes/auth.ts\<close> and
  \<open>routes/users.ts\<close> of the admin server. Signing and verifying a JWT and hashing and verifying a
  password belong to libraries and are arguments: \<open>k_verify secret token\<close> is what \<open>jwt.verify\<close>
  returns, \<open>None\<close> for its exception. A cookie the handler sets is shown by the claims it signs.
\<close>

record claims =
  cl_sub :: string
  cl_username :: string
  cl_tv :: "int option"

record keys =
  k_secret :: "string option"
  k_sign :: "string \<Rightarrow> claims \<Rightarrow> string"
  k_verify :: "string \<Rightarrow> string \<Rightarrow> claims option"
  k_hash :: "string \<Rightarrow> string"
  k_check :: "string \<Rightarrow> string \<Rightarrow> bool"

subsection \<open>Tokens\<close>

text \<open>\<open>None\<close> is the exception of a missing or short secret.\<close>

definition getSecret :: "keys \<Rightarrow> string option" where
  "getSecret k = (case k_secret k of None \<Rightarrow> None | Some s \<Rightarrow> if length s < 32 then None else Some s)"

definition signSessionToken :: "keys \<Rightarrow> claims \<Rightarrow> string option" where
  "signSessionToken k c = map_option (\<lambda>s. k_sign k s c) (getSecret k)"

definition verifySessionToken :: "keys \<Rightarrow> string \<Rightarrow> claims option" where
  "verifySessionToken k tok = (case getSecret k of None \<Rightarrow> None | Some s \<Rightarrow> k_verify k s tok)"

definition session_claims :: "user \<Rightarrow> string \<Rightarrow> claims" where
  "session_claims u idtext = \<lparr>cl_sub = idtext, cl_username = u_username u, cl_tv = Some (u_token_version u)\<rparr>"

text \<open>\<open>String(id)\<close> of a positive integer.\<close>

fun nat_text_fuel :: "nat \<Rightarrow> nat \<Rightarrow> string" where
  "nat_text_fuel 0 n = []"
| "nat_text_fuel (Suc f) n =
     (if n < 10 then [char_of (48 + n)] else nat_text_fuel f (n div 10) @ [char_of (48 + n mod 10)])"

definition int_text :: "int \<Rightarrow> string" where
  "int_text i = (if i < 0 then CHR ''-'' # nat_text_fuel (Suc (nat (- i))) (nat (- i))
     else nat_text_fuel (Suc (nat i)) (nat i))"

definition integer_of :: "jsnum \<Rightarrow> int option" where
  "integer_of n = (case n of Fin x \<Rightarrow> if of_int \<lfloor>x\<rfloor> = x then Some \<lfloor>x\<rfloor> else None | _ \<Rightarrow> None)"

definition MAX_SAFE :: int where
  "MAX_SAFE = 9007199254740991"

definition safe_integer_of :: "jsnum \<Rightarrow> int option" where
  "safe_integer_of n = (case integer_of n of None \<Rightarrow> None | Some i \<Rightarrow> if \<bar>i\<bar> \<le> MAX_SAFE then Some i else None)"

text \<open>\<open>findById(Number(sub))\<close>: a number that is no integer finds no row.\<close>

definition findBySub :: "users \<Rightarrow> string \<Rightarrow> user option" where
  "findBySub s sub = (case integer_of (number_of_string sub) of None \<Rightarrow> None | Some i \<Rightarrow> findById s i)"

subsection \<open>requireAuth\<close>

datatype auth_result = Skip | Allow claims | Deny bool

definition AUTH_SKIP_PATHS :: "string list" where
  "AUTH_SKIP_PATHS = [''/api/auth/state'', ''/api/auth/login'', ''/api/auth/setup'']"

definition path_only :: "string \<Rightarrow> string" where
  "path_only url = hd (split_on (CHR ''?'') url)"

definition auth_exempt :: "string \<Rightarrow> bool" where
  "auth_exempt url =
     (starts_with ''/internal/'' url \<or> path_only url = ''/api/health'' \<or>
      path_only url = ''/api/health/live'' \<or> path_only url = ''/api/health/ready'' \<or>
      path_only url \<in> set AUTH_SKIP_PATHS)"

text \<open>\<open>Deny b\<close> is the 401; \<open>b\<close> says that the session cookie is cleared with it.\<close>

definition requireAuth :: "keys \<Rightarrow> users \<Rightarrow> string \<Rightarrow> string option \<Rightarrow> auth_result" where
  "requireAuth k s url token =
     (if auth_exempt url then Skip
      else (case token of
              None \<Rightarrow> Deny False
            | Some tok \<Rightarrow>
                if tok = [] then Deny False
                else (case verifySessionToken k tok of
                        None \<Rightarrow> Deny False
                      | Some c \<Rightarrow>
                          (case (case safe_integer_of (number_of_string (cl_sub c)) of
                                   None \<Rightarrow> None | Some i \<Rightarrow> findById s i) of
                             None \<Rightarrow> Deny True
                           | Some u \<Rightarrow>
                               if u_disabled_at u \<noteq> None \<or> Some (u_token_version u) \<noteq> cl_tv c
                               then Deny True else Allow c))))"

subsection \<open>requireInternalToken\<close>

datatype internal_result = IPass | IDeny string | IThrow

text \<open>
  \<open>Buffer.from\<close> encodes a string in UTF-8, and \<open>timingSafeEqual\<close> throws when the two buffers differ in
  length.
\<close>

definition utf8 :: "string \<Rightarrow> nat list" where
  "utf8 s = concat (map (\<lambda>c. let n = (of_char c :: nat)
      in if n < 128 then [n] else [192 + n div 64, 128 + n mod 64]) s)"

definition requireInternalToken :: "string option \<Rightarrow> string \<Rightarrow> string option \<Rightarrow> internal_result" where
  "requireInternalToken env url header =
     (if \<not> starts_with ''/internal/'' url then IPass
      else
        let expected = or_else env []; provided = or_else header []
        in if length expected = 0 then IDeny ''internal_token_misconfigured''
           else if length expected \<noteq> length provided then IDeny ''internal_token_mismatch''
           else if length (utf8 expected) \<noteq> length (utf8 provided) then IThrow
           else if utf8 expected \<noteq> utf8 provided then IDeny ''internal_token_mismatch''
           else IPass)"

subsection \<open>The routes of /api/auth\<close>

definition EMAIL_LIKE_RE :: "string \<Rightarrow> bool" where
  "EMAIL_LIKE_RE s =
     (\<not> list_ex is_ws s \<and>
      (case split_on (CHR ''@'') s of
         [l, d] \<Rightarrow> l \<noteq> [] \<and> d \<noteq> [] \<and> CHR ''.'' \<in> set (butlast (tl d))
       | _ \<Rightarrow> False))"

definition normalizeUsername :: "string \<Rightarrow> string" where
  "normalizeUsername s = js_lower (js_trim s)"

definition valid_password :: "jsprim \<Rightarrow> bool" where
  "valid_password v = (case v of Str p \<Rightarrow> 8 \<le> length p \<and> length p \<le> 256 | _ \<Rightarrow> False)"

text \<open>\<open>credentialSchema\<close>, and \<open>createSchema\<close> of the user routes, which asks for no minimum length.\<close>

definition credentialSchema :: "nat \<Rightarrow> jsprim \<Rightarrow> jsprim \<Rightarrow> (string \<times> string) option" where
  "credentialSchema mn name pass =
     (case name of
        Str n \<Rightarrow>
          if mn \<le> length n \<and> length n \<le> 254 \<and> EMAIL_LIKE_RE n \<and> valid_password pass
          then Some (normalizeUsername n, str_of pass) else None
      | _ \<Rightarrow> None)"

datatype cookie = SetSession claims | ClearSession

datatype auth_body = ANeedsSetup | ANeedsLogin | AAuthenticated user | AUser user | AOk

type_synonym auth_reply = "auth_body reply \<times> cookie option"

definition auth_state :: "keys \<Rightarrow> users \<Rightarrow> string option \<Rightarrow> auth_body" where
  "auth_state k s token =
     (if count_users s = 0 then ANeedsSetup
      else (case (case token of None \<Rightarrow> None | Some t \<Rightarrow> if t = [] then None else verifySessionToken k t) of
              None \<Rightarrow> ANeedsLogin
            | Some c \<Rightarrow>
                (case findBySub s (cl_sub c) of
                   None \<Rightarrow> ANeedsLogin
                 | Some u \<Rightarrow>
                     if u_disabled_at u \<noteq> None \<or> Some (u_token_version u) \<noteq> cl_tv c then ANeedsLogin
                     else AAuthenticated u)))"

text \<open>
  The setup route awaits the hash between the check and the insertion: \<open>setup_begin\<close> and \<open>setup_finish\<close>.
\<close>

definition setup_begin :: "jsprim \<Rightarrow> jsprim \<Rightarrow> users \<Rightarrow> auth_reply + (string \<times> string)" where
  "setup_begin name pass s =
     (case credentialSchema 3 name pass of
        None \<Rightarrow> Inl (Reject 400 ''invalid_input'', None)
      | Some cred \<Rightarrow>
          if count_users s \<noteq> 0 then Inl (Reject 409 ''setup_already_completed'', None) else Inr cred)"

definition setup_finish :: "keys \<Rightarrow> int \<Rightarrow> string \<times> string \<Rightarrow> users \<Rightarrow> users \<times> auth_reply" where
  "setup_finish k now cred s =
     (case create now (fst cred) (k_hash k (snd cred)) s of
        None \<Rightarrow> (s, Throw, None)
      | Some (s', u) \<Rightarrow>
          (case signSessionToken k (session_claims u (int_text (u_id u))) of
             None \<Rightarrow> (s', Throw, None)
           | Some tok \<Rightarrow> (s', Ok 201 (AUser u), Some (SetSession (session_claims u (int_text (u_id u)))))))"

definition setup_account :: "keys \<Rightarrow> int \<Rightarrow> jsprim \<Rightarrow> jsprim \<Rightarrow> users \<Rightarrow> users \<times> auth_reply" where
  "setup_account k now name pass s =
     (case setup_begin name pass s of
        Inl r \<Rightarrow> (s, r)
      | Inr cred \<Rightarrow> setup_finish k now cred s)"

definition login :: "keys \<Rightarrow> int \<Rightarrow> jsprim \<Rightarrow> jsprim \<Rightarrow> users \<Rightarrow> users \<times> auth_reply" where
  "login k now name pass s =
     (case credentialSchema 3 name pass of
        None \<Rightarrow> (s, Reject 400 ''invalid_input'', None)
      | Some (n, p) \<Rightarrow>
          (case findByUsername s n of
             None \<Rightarrow> (s, Reject 401 ''invalid_credentials'', None)
           | Some u \<Rightarrow>
               if u_disabled_at u \<noteq> None then (s, Reject 401 ''invalid_credentials'', None)
               else if \<not> k_check k (u_password_hash u) p then (s, Reject 401 ''invalid_credentials'', None)
               else
                 let s' = updateLastLogin now (u_id u) s; c = session_claims u (int_text (u_id u))
                 in (case signSessionToken k c of
                       None \<Rightarrow> (s', Throw, None)
                     | Some tok \<Rightarrow> (s', Ok 200 (AUser u), Some (SetSession c)))))"

definition logout :: "users \<Rightarrow> users \<times> auth_reply" where
  "logout s = (s, Ok 200 AOk, Some ClearSession)"

subsection \<open>The routes of /api/users\<close>

record caller =
  ca_sub :: "string option"
  ca_ip :: string
  ca_audit_ok :: bool

definition caller_is :: "caller \<Rightarrow> int \<Rightarrow> bool" where
  "caller_is ca i = (case ca_sub ca of None \<Rightarrow> False | Some sub \<Rightarrow> number_of_string sub = Fin (of_int i))"

definition caller_id :: "caller \<Rightarrow> jsnum option" where
  "caller_id ca = (case ca_sub ca of None \<Rightarrow> None | Some sub \<Rightarrow> if sub = [] then None else Some (number_of_string sub))"

definition user_audit :: "caller \<Rightarrow> int \<Rightarrow> string \<Rightarrow> int \<Rightarrow> audit_obj option \<Rightarrow> audit_obj option \<Rightarrow> db \<Rightarrow> db" where
  "user_audit ca now act i before after s =
     s\<lparr>t_audit := audit_insert (ca_audit_ok ca) now
        \<lparr>ai_actor_user_id = caller_id ca, ai_actor_ip = Some (ca_ip ca), ai_action = act,
         ai_target_type = ''user'', ai_target_id = Some (int_text i),
         ai_before = before, ai_after = after\<rparr> (t_audit s)\<rparr>"

definition parseUserId :: "string \<Rightarrow> int option" where
  "parseUserId raw =
     (if raw \<noteq> [] \<and> list_all is_digit raw then
        (let n = int (digits_val 10 raw) in if 1 \<le> n \<and> n \<le> MAX_SAFE then Some n else None)
      else None)"

definition on_users :: "(users \<Rightarrow> users) \<Rightarrow> db \<Rightarrow> db" where
  "on_users f s = s\<lparr>t_users := f (t_users s)\<rparr>"

definition create_user :: "keys \<Rightarrow> int \<Rightarrow> caller \<Rightarrow> jsprim \<Rightarrow> jsprim \<Rightarrow> db \<Rightarrow> db \<times> auth_reply" where
  "create_user k now ca name pass s =
     (case credentialSchema 0 name pass of
        None \<Rightarrow> (s, Reject 400 ''invalid_input'', None)
      | Some (n, p) \<Rightarrow>
          if findByUsername (t_users s) n \<noteq> None then (s, Reject 409 ''username_already_exists'', None)
          else (case create now n (k_hash k p) (t_users s) of
                  None \<Rightarrow> (s, Reject 409 ''username_already_exists'', None)
                | Some (us, u) \<Rightarrow>
                    (user_audit ca now ''user.create'' (u_id u) None
                       (Some [(''username'', AStr (u_username u))]) (s\<lparr>t_users := us\<rparr>),
                     Ok 201 (AUser u), None)))"

text \<open>\<open>currentPassword\<close> is absent, or a string of 1 to 256 characters.\<close>

definition passwordSchema :: "jsprim \<Rightarrow> jsprim \<Rightarrow> (string \<times> string option) option" where
  "passwordSchema pass curr_pass =
     (if \<not> valid_password pass then None
      else (case curr_pass of
              Undef \<Rightarrow> Some (str_of pass, None)
            | Str c \<Rightarrow> if 1 \<le> length c \<and> length c \<le> 256 then Some (str_of pass, Some c) else None
            | _ \<Rightarrow> None))"

definition change_password :: "keys \<Rightarrow> int \<Rightarrow> caller \<Rightarrow> string \<Rightarrow> jsprim \<Rightarrow> jsprim \<Rightarrow> db \<Rightarrow> db \<times> auth_reply" where
  "change_password k now ca rawId pass curr_pass s =
     (case passwordSchema pass curr_pass of
        None \<Rightarrow> (s, Reject 400 ''invalid_input'', None)
      | Some (p, cp) \<Rightarrow>
          (case parseUserId rawId of
             None \<Rightarrow> (s, Reject 400 ''invalid_input'', None)
           | Some i \<Rightarrow>
               (case findById (t_users s) i of
                  None \<Rightarrow> (s, Reject 404 ''user_not_found'', None)
                | Some target \<Rightarrow>
                    if caller_is ca i \<and> cp = None then (s, Reject 400 ''current_password_required'', None)
                    else if caller_is ca i \<and> \<not> k_check k (u_password_hash target) (the cp)
                    then (s, Reject 400 ''invalid_current_password'', None)
                    else
                      let s1 = on_users (\<lambda>us. bumpTokenVersion now i (updatePassword now i (k_hash k p) us)) s;
                          s2 = user_audit ca now ''user.password_reset'' i None
                                 (Some [(''self'', ABool (caller_is ca i)),
                                        (''target_username'', AStr (u_username target))]) s1
                      in if caller_is ca i then
                           (case findById (t_users s1) i of
                              None \<Rightarrow> (s1, Throw, None)
                            | Some u \<Rightarrow>
                                (case signSessionToken k (session_claims u (int_text (u_id u))) of
                                   None \<Rightarrow> (s1, Throw, None)
                                 | Some tok \<Rightarrow> (s2, Ok 200 AOk, Some (SetSession (session_claims u (int_text (u_id u)))))))
                         else (s2, Ok 200 AOk, None))))"

definition disabled_truthy :: "user \<Rightarrow> bool" where
  "disabled_truthy u = (case u_disabled_at u of None \<Rightarrow> False | Some n \<Rightarrow> n \<noteq> 0)"

definition enable_user :: "int \<Rightarrow> string \<Rightarrow> db \<Rightarrow> db \<times> auth_reply" where
  "enable_user now rawId s =
     (case parseUserId rawId of
        None \<Rightarrow> (s, Reject 400 ''invalid_input'', None)
      | Some i \<Rightarrow>
          (case findById (t_users s) i of
             None \<Rightarrow> (s, Reject 404 ''user_not_found'', None)
           | Some u \<Rightarrow>
               if \<not> disabled_truthy u then (s, Ok 200 AOk, None)
               else (on_users (enable now i) s, Ok 200 AOk, None)))"

definition delete_user :: "int \<Rightarrow> caller \<Rightarrow> string \<Rightarrow> db \<Rightarrow> db \<times> auth_reply" where
  "delete_user now ca rawId s =
     (case parseUserId rawId of
        None \<Rightarrow> (s, Reject 400 ''invalid_input'', None)
      | Some i \<Rightarrow>
          if caller_is ca i then (s, Reject 400 ''cannot_disable_self'', None)
          else (case findById (t_users s) i of
                  None \<Rightarrow> (s, Reject 404 ''user_not_found'', None)
                | Some target \<Rightarrow>
                    if disabled_truthy target then (s, Ok 200 AOk, None)
                    else
                      (user_audit ca now ''user.disable'' i
                         (Some [(''username'', AStr (u_username target)), (''disabled_at'', ANull)])
                         (Some [(''username'', AStr (u_username target)), (''disabled'', ABool True)])
                         (on_users (\<lambda>us. bumpTokenVersion now i (disable now i us)) s),
                       Ok 200 AOk, None)))"

text \<open>\<open>GET /api/users\<close>: the body is the page and, when a limit or an offset was given, the total.\<close>

record user_list_query =
  lq_sort :: "string option"
  lq_order :: "string option"
  lq_q :: "string option"
  lq_enabled :: "string option"
  lq_limit :: "string option"
  lq_offset :: "string option"

definition list_users :: "user_list_query \<Rightarrow> users \<Rightarrow> (user list \<times> nat option) reply" where
  "list_users q s =
     (if (case lq_sort q of None \<Rightarrow> False | Some x \<Rightarrow> x \<notin> set USER_SORT_WHITELIST)
      then Reject 400 ''invalid_input''
      else if (case lq_order q of None \<Rightarrow> False | Some x \<Rightarrow> js_lower x \<notin> set USER_ORDER_WHITELIST)
      then Reject 400 ''invalid_input''
      else if (case lq_enabled q of None \<Rightarrow> False | Some x \<Rightarrow> x \<notin> set [[], ''true'', ''false''])
      then Reject 400 ''invalid_input''
      else
        let (rows, total) = listWithTotal
              \<lparr>ul_sort = lq_sort q, ul_order = lq_order q,
               ul_q = (case lq_q q of Some (c # cs) \<Rightarrow> Some (c # cs) | _ \<Rightarrow> None),
               ul_enabled = (if lq_enabled q = Some ''true'' then Some True
                             else if lq_enabled q = Some ''false'' then Some False else None),
               ul_limit = map_option number_of_string (lq_limit q),
               ul_offset = map_option number_of_string (lq_offset q)\<rparr> s
        in Ok 200 (rows, if lq_limit q = None \<and> lq_offset q = None then None else Some total))"

subsection \<open>Laws\<close>

lemma normalizeUsername_lower [simp]: "js_lower (normalizeUsername s) = normalizeUsername s"
  by (simp add: normalizeUsername_def)

lemma credentialSchema_name: "credentialSchema mn name pass = Some (n, p) \<Longrightarrow> js_lower n = n"
  by (auto simp: credentialSchema_def split: jsprim.splits if_splits)

lemma requireAuth_Allow:
  "requireAuth k s url token = Allow c \<longleftrightarrow>
     \<not> auth_exempt url \<and>
     (\<exists>tok i u. token = Some tok \<and> tok \<noteq> [] \<and> verifySessionToken k tok = Some c \<and>
        safe_integer_of (number_of_string (cl_sub c)) = Some i \<and> findById s i = Some u \<and>
        u_disabled_at u = None \<and> cl_tv c = Some (u_token_version u))"
  by (auto simp: requireAuth_def split: option.splits)

lemma requireAuth_stale:
  assumes "user_step\<^sup>*\<^sup>* s s'" and "findById s i = Some u"
    and "cl_tv c = Some v" and "v < u_token_version u"
    and "safe_integer_of (number_of_string (cl_sub c)) = Some i"
  shows "requireAuth k s' url token \<noteq> Allow c"
proof
  assume "requireAuth k s' url token = Allow c"
  then obtain u' where "findById s' i = Some u'" "u_token_version u' = v"
    using assms(3,5) by (auto simp: requireAuth_Allow)
  then show False using sessions.stale_forever[OF assms(1,2,4)] by blast
qed

text \<open>The auth and user routes as steps of the repository.\<close>

lemma setup_finish_steps: "setup_finish k now cred s = (s', r) \<Longrightarrow> user_step\<^sup>*\<^sup>* s s'"
  by (auto simp: setup_finish_def split: option.splits prod.splits intro!: r_into_rtranclp user_step.Create)

lemma login_steps: "login k now name pass s = (s', r) \<Longrightarrow> user_step\<^sup>*\<^sup>* s s'"
  by (auto simp: login_def Let_def split: option.splits prod.splits if_splits
      intro!: r_into_rtranclp user_step.UpdateLastLogin)

lemma t_users_user_audit [simp]: "t_users (user_audit ca now act i b a s) = t_users s"
  by (simp add: user_audit_def)

lemma t_users_on_users [simp]: "t_users (on_users f s) = f (t_users s)"
  by (simp add: on_users_def)

lemma two_steps: "user_step\<^sup>*\<^sup>* s (bumpTokenVersion now i (updatePassword now i h s))"
  "user_step\<^sup>*\<^sup>* s (bumpTokenVersion now i (disable now i s))"
  by (meson r_into_rtranclp rtranclp_trans user_step.intros)+

lemma create_user_steps:
  "create_user k now ca name pass s = (s', r) \<Longrightarrow> user_step\<^sup>*\<^sup>* (t_users s) (t_users s')"
  by (auto simp: create_user_def split: option.splits prod.splits if_splits
      intro!: r_into_rtranclp user_step.Create)

lemma change_password_steps:
  "change_password k now ca rawId pass cp s = (s', r) \<Longrightarrow> user_step\<^sup>*\<^sup>* (t_users s) (t_users s')"
  by (auto simp: change_password_def Let_def two_steps split: option.splits prod.splits if_splits)

lemma enable_user_steps: "enable_user now rawId s = (s', r) \<Longrightarrow> user_step\<^sup>*\<^sup>* (t_users s) (t_users s')"
  by (auto simp: enable_user_def split: option.splits if_splits intro!: r_into_rtranclp user_step.Enable)

lemma delete_user_steps: "delete_user now ca rawId s = (s', r) \<Longrightarrow> user_step\<^sup>*\<^sup>* (t_users s) (t_users s')"
  by (auto simp: delete_user_def two_steps split: option.splits if_splits)

lemma change_password_done:
  assumes "change_password k now ca rawId pass cp s = (s', Ok n b, ck)"
  shows "\<exists>i u p. parseUserId rawId = Some i \<and> findById (t_users s) i = Some u \<and> pass = Str p \<and>
     findById (t_users s') i = Some (u\<lparr>u_password_hash := k_hash k p, u_updated_at := now,
        u_token_version := u_token_version u + 1\<rparr>) \<and>
     (\<forall>j. j \<noteq> i \<longrightarrow> findById (t_users s') j = findById (t_users s) j) \<and>
     (caller_is ca i \<longrightarrow> (\<exists>c. cp = Str c \<and> k_check k (u_password_hash u) c))"
  using assms
  by (auto simp: change_password_def passwordSchema_def valid_password_def Let_def
      split: option.splits prod.splits if_splits jsprim.splits)

lemma delete_user_done:
  assumes "delete_user now ca rawId s = (s', Ok n b, ck)"
  shows "\<exists>i u u'. parseUserId rawId = Some i \<and> \<not> caller_is ca i \<and> findById (t_users s) i = Some u \<and>
     findById (t_users s') i = Some u' \<and> u_disabled_at u' \<noteq> None \<and>
     (disabled_truthy u \<or> u_token_version u' = u_token_version u + 1) \<and>
     (\<forall>j. j \<noteq> i \<longrightarrow> findById (t_users s') j = findById (t_users s) j)"
  using assms by (auto simp: delete_user_def disabled_truthy_def split: option.splits if_splits)

text \<open>A token the routes issue carries the version of the row the state has then.\<close>

lemma issued_version:
  "setup_finish k now cred s = (s', r, Some (SetSession c)) \<Longrightarrow> users_ok s \<Longrightarrow>
     \<exists>i u. cl_sub c = int_text i \<and> findById s' i = Some u \<and> cl_tv c = Some (u_token_version u)"
  "login k now name pass s = (s', r, Some (SetSession c)) \<Longrightarrow> users_ok s \<Longrightarrow>
     \<exists>i u. cl_sub c = int_text i \<and> findById s' i = Some u \<and> cl_tv c = Some (u_token_version u)"
proof -
  show "setup_finish k now cred s = (s', r, Some (SetSession c)) \<Longrightarrow> users_ok s \<Longrightarrow>
     \<exists>i u. cl_sub c = int_text i \<and> findById s' i = Some u \<and> cl_tv c = Some (u_token_version u)"
    by (auto simp: setup_finish_def session_claims_def split: option.splits prod.splits)
      (use create_result(1) in blast)
next
  assume l: "login k now name pass s = (s', r, Some (SetSession c))" and ok: "users_ok s"
  then obtain n u where u: "findByUsername s n = Some u" "s' = updateLastLogin now (u_id u) s"
    "c = session_claims u (int_text (u_id u))"
    by (auto simp: login_def Let_def split: option.splits prod.splits if_splits)
  have "u \<in> set (us_rows s)" using findByUsername_Some[OF u(1)] by simp
  then have "findById s (u_id u) = Some u"
    using ok by (simp add: findById_def users_ok_def ids_of_def find_key_mem)
  with u show "\<exists>i u. cl_sub c = int_text i \<and> findById s' i = Some u \<and> cl_tv c = Some (u_token_version u)"
    by (auto simp: session_claims_def)
qed

lemma length_utf8_ascii: "\<forall>c \<in> set s. (of_char c :: nat) < 128 \<Longrightarrow> utf8 s = map of_char s"
  by (induction s) (auto simp: utf8_def Let_def)

lemma internal_token_ascii:
  assumes "\<forall>c \<in> set (or_else env []). (of_char c :: nat) < 128"
    and "\<forall>c \<in> set (or_else header []). (of_char c :: nat) < 128" and "starts_with ''/internal/'' url"
  shows "requireInternalToken env url header = IPass \<longleftrightarrow>
     or_else env [] \<noteq> [] \<and> or_else header [] = or_else env []"
proof -
  have "map (of_char :: char \<Rightarrow> nat) xs = map of_char ys \<longleftrightarrow> xs = ys" for xs ys
    by (metis inj_map_eq_map inj_onI of_char_eq_iff)
  then show ?thesis
    using assms(3) length_utf8_ascii[OF assms(1)] length_utf8_ascii[OF assms(2)]
    by (auto simp: requireInternalToken_def Let_def)
qed

end
