(* ===== verification/Accounts.thy ===== *)
theory Accounts
  imports Auth
begin

section \<open>Accounts over time\<close>

text \<open>
  The account routes as one step relation on the database, and what follows for sessions: the token
  version of an account never goes down, so a password change or a disabling ends every session issued
  before it; a login issues a token that the next request is accepted with.
\<close>

subsection \<open>The step relation\<close>

text \<open>
  The setup route is in two steps, \<open>setup_begin\<close> reading the table and \<open>setup_finish\<close> writing it after
  the password hash was awaited; \<open>cred\<close> is what the first half handed on.
\<close>

inductive account_step :: "keys \<Rightarrow> db \<Rightarrow> db \<Rightarrow> bool" for k :: keys where
  Setup: "setup_begin name pass s0 = Inr cred \<Longrightarrow> setup_finish k now cred (t_users s) = (us, r) \<Longrightarrow>
     account_step k s (s\<lparr>t_users := us\<rparr>)"
| Login: "login k now name pass (t_users s) = (us, r) \<Longrightarrow> account_step k s (s\<lparr>t_users := us\<rparr>)"
| CreateUser: "create_user k now ca name pass s = (s', r) \<Longrightarrow> account_step k s s'"
| ChangePassword: "change_password k now ca rawId pass curr_pass s = (s', r) \<Longrightarrow> account_step k s s'"
| EnableUser: "enable_user now rawId s = (s', r) \<Longrightarrow> account_step k s s'"
| DeleteUser: "delete_user now ca rawId s = (s', r) \<Longrightarrow> account_step k s s'"

inductive_cases account_stepE: "account_step k s s'"

lemma account_step_users: "account_step k s s' \<Longrightarrow> user_step\<^sup>*\<^sup>* (t_users s) (t_users s')"
  by (erule account_stepE)
    (auto dest: setup_finish_steps login_steps create_user_steps change_password_steps
      enable_user_steps delete_user_steps)

lemma account_steps_users: "(account_step k)\<^sup>*\<^sup>* s s' \<Longrightarrow> user_step\<^sup>*\<^sup>* (t_users s) (t_users s')"
  by (induction rule: rtranclp_induct) (auto dest: account_step_users)

lemma account_steps_ok: "(account_step k)\<^sup>*\<^sup>* s s' \<Longrightarrow> users_ok (t_users s) \<Longrightarrow> users_ok (t_users s')"
  using users_ok_steps[OF account_steps_users] .

lemma account_steps_stale:
  assumes "(account_step k)\<^sup>*\<^sup>* s s'" and "findById (t_users s) i = Some u"
    and "cl_tv c = Some v" and "v < u_token_version u"
    and "safe_integer_of (number_of_string (cl_sub c)) = Some i"
  shows "requireAuth k (t_users s') url token \<noteq> Allow c"
  using requireAuth_stale[OF account_steps_users[OF assms(1)] assms(2-5)] .

subsection \<open>The text of an id\<close>

lemma digit_val_of: "d < 10 \<Longrightarrow> digit_val (char_of (48 + d)) = d"
  by (simp add: digit_val_def Let_def)

lemma digits_val_append: "digits_val b (xs @ [c]) = digits_val b xs * b + digit_val c"
  by (simp add: digits_val_def)

lemma is_digit_of: "(d :: nat) < 10 \<Longrightarrow> is_digit (char_of (48 + d))"
  by (simp add: is_digit_def Let_def)

lemma nat_text_fuel_digits: "list_all is_digit (nat_text_fuel f n)"
  by (induction f arbitrary: n) (simp_all add: is_digit_of)

lemma nat_text_fuel_val: "n < f \<Longrightarrow> nat_text_fuel f n \<noteq> [] \<and> digits_val 10 (nat_text_fuel f n) = n"
proof (induction f arbitrary: n)
  case (Suc f)
  then have "n \<ge> 10 \<Longrightarrow> digits_val 10 (nat_text_fuel f (n div 10)) = n div 10" by simp
  then show ?case by (simp add: digits_val_append digit_val_of) (simp add: digits_val_def digit_val_of)
qed simp

lemma is_digit_facts:
  "is_digit c \<Longrightarrow> \<not> is_ws c" "\<not> is_digit (CHR ''-'')" "\<not> is_digit (CHR ''+'')" "\<not> is_digit (CHR ''I'')"
  "\<not> is_digit (CHR ''x'')" "\<not> is_digit (CHR ''X'')" "\<not> is_digit (CHR ''o'')" "\<not> is_digit (CHR ''O'')"
  "\<not> is_digit (CHR ''b'')" "\<not> is_digit (CHR ''B'')"
  by (auto simp: is_digit_def is_ws_def Let_def)

lemma number_of_digits:
  assumes "list_all is_digit s" and "s \<noteq> []"
  shows "number_of_string s = Fin (of_nat (digits_val 10 s))"
proof -
  have d: "\<And>c. c \<in> set s \<Longrightarrow> is_digit c" using assms(1) by (simp add: list_all_iff)
  have ws: "\<forall>c \<in> set s. \<not> is_ws c" using d is_digit_facts(1) by blast
  then have t: "js_trim s = s" by (simp add: js_trim_def dropWhile_none)
  have nox: "\<not> starts_with [CHR ''0'', c] s" if "\<not> is_digit c" for c
    using d that by (auto simp: starts_with_iff)
  have h: "hd s \<noteq> CHR ''-''" "hd s \<noteq> CHR ''+''"
    using d[of "hd s"] assms(2) is_digit_facts(2,3) hd_in_set[of s] by metis+
  have tw: "takeWhile is_digit s = s" "dropWhile is_digit s = []"
    using d by (simp_all add: takeWhile_eq_all_conv dropWhile_eq_Nil_conv)
  have inf: "s \<noteq> ''Infinity''" using d is_digit_facts(4) by force
  have dl: "decimal_literal s = Fin (of_nat (digits_val 10 s))"
    unfolding decimal_literal_def tw Let_def using assms(2) inf by (simp add: exponent_part_def pow10_def)
  show ?thesis
    using assms(2) t nox is_digit_facts h dl by (simp add: number_of_string_def Let_def)
qed

lemma number_of_int_text: "0 \<le> i \<Longrightarrow> number_of_string (int_text i) = Fin (of_int i)"
  using number_of_digits[OF nat_text_fuel_digits, of "Suc (nat i)" "nat i"]
    nat_text_fuel_val[of "nat i" "Suc (nat i)"]
  by (simp add: int_text_def del: nat_text_fuel.simps)

lemma safe_integer_int_text: "0 \<le> i \<Longrightarrow> i \<le> MAX_SAFE \<Longrightarrow> safe_integer_of (number_of_string (int_text i)) = Some i"
  by (simp add: number_of_int_text safe_integer_of_def integer_of_def)

subsection \<open>Sessions\<close>

lemma login_done:
  assumes "login k now name pass s = (s', Ok n b, ck)" and "users_ok s"
  shows "\<exists>nm p u. credentialSchema 3 name pass = Some (nm, p) \<and> findByUsername s nm = Some u \<and>
     u_disabled_at u = None \<and> k_check k (u_password_hash u) p \<and> n = 200 \<and> b = AUser u \<and>
     ck = Some (SetSession (session_claims u (int_text (u_id u)))) \<and>
     findById s (u_id u) = Some u \<and>
     s' = updateLastLogin now (u_id u) s \<and>
     (\<exists>tok. signSessionToken k (session_claims u (int_text (u_id u))) = Some tok)"
proof -
  obtain nm p where c: "credentialSchema 3 name pass = Some (nm, p)"
    using assms(1) by (auto simp: login_def split: option.splits)
  obtain u where u: "findByUsername s nm = Some u"
    using assms(1) c by (auto simp: login_def split: option.splits)
  have "findById s (u_id u) = Some u"
    using findByUsername_Some[OF u] assms(2) by (simp add: findById_def users_ok_def ids_of_def find_key_mem)
  then show ?thesis
    using assms(1) c u by (auto simp: login_def Let_def split: option.splits if_splits)
qed

text \<open>What \<open>jsonwebtoken\<close> promises: a token signed with a secret verifies with it to what was signed.\<close>

definition sound_keys :: "keys \<Rightarrow> bool" where
  "sound_keys k = (\<forall>s c. k_verify k s (k_sign k s c) = Some c \<and> k_sign k s c \<noteq> [])"

lemma signed_verifies:
  "sound_keys k \<Longrightarrow> signSessionToken k c = Some tok \<Longrightarrow> verifySessionToken k tok = Some c \<and> tok \<noteq> []"
  by (auto simp: sound_keys_def signSessionToken_def verifySessionToken_def)

lemma fresh_session_allowed:
  assumes "sound_keys k" and "signSessionToken k (session_claims u (int_text i)) = Some tok"
    and "findById s i = Some v" and "u_disabled_at v = None" and "u_token_version v = u_token_version u"
    and "0 \<le> i" and "i \<le> MAX_SAFE" and "\<not> auth_exempt url"
  shows "requireAuth k s url (Some tok) = Allow (session_claims u (int_text i))"
  using signed_verifies[OF assms(1,2)] assms(3-8)
  by (simp add: requireAuth_Allow session_claims_def safe_integer_int_text)

lemma setup_done:
  assumes "setup_account k now name pass s = (s', Ok n b, ck)" and "users_ok s"
  shows "\<exists>nm p u. credentialSchema 3 name pass = Some (nm, p) \<and> count_users s = 0 \<and> n = 201 \<and> b = AUser u \<and>
     u_username u = nm \<and> us_rows s' = us_rows s @ [u] \<and> u_disabled_at u = None \<and>
     findById s (u_id u) = None"
proof -
  obtain nm p where c: "credentialSchema 3 name pass = Some (nm, p)" "count_users s = 0"
    using assms(1) by (auto simp: setup_account_def setup_begin_def split: option.splits if_splits)
  obtain s1 u where u: "create now nm (k_hash k p) s = Some (s1, u)" "s' = s1" "n = 201" "b = AUser u"
    using assms(1) c by (auto simp: setup_account_def setup_begin_def setup_finish_def split: option.splits prod.splits)
  have "us_rows s1 = us_rows s @ [u]" using u(1) by (auto simp: create_def Let_def split: if_splits)
  with c u create_result[OF assms(2) u(1)] show ?thesis by auto
qed

lemma archive_login_fails:
  "is_archive nm \<Longrightarrow> credentialSchema 3 name pass = Some (nm, p) \<Longrightarrow>
     login k now name pass s = (s, Reject 401 ''invalid_credentials'', None)"
proof -
  assume a: "is_archive nm" "credentialSchema 3 name pass = Some (nm, p)"
  have "findByUsername s nm = None"
  proof (cases "findByUsername s nm")
    case (Some u)
    have "is_archive (u_username u) = is_archive nm"
      using findByUsername_Some[OF Some] by (simp add: is_archive_prefix)
    with findByUsername_Some[OF Some] a show ?thesis by simp
  qed simp
  with a show ?thesis by (simp add: login_def)
qed

lemma count_archived: "count_users (s\<lparr>us_rows := us_rows s @ [u]\<rparr>) =
    (if is_archive (u_username u) then count_users s else count_users s + 1)"
  by (simp add: count_users_def)

lemma setup_archived:
  assumes "setup_account k now name pass s = (s', Ok n b, ck)" and "users_ok s"
    and "credentialSchema 3 name pass = Some (nm, p)" and "is_archive nm"
  shows "count_users s' = 0"
  using setup_done[OF assms(1,2)] assms(3,4) by (auto simp: count_users_def)

end
