(* ===== verification/Tls_Health.thy ===== *)
theory Tls_Health
  imports Domain_Write
begin

section \<open>Certificate alerts, certificate routes, and the health monitor\<close>

text \<open>
  \<open>tls-expiry-scanner.ts\<close>, \<open>routes/tls.ts\<close> and \<open>health-monitor.ts\<close> of the admin server. The
  certificates come from the TLS service; \<open>parse\<close> stands for \<open>Date.parse\<close> (milliseconds, \<open>None\<close> for
  \<open>NaN\<close>).
\<close>

subsection \<open>The expiry scanner\<close>

record cert =
  ct_domain :: string
  ct_expires_at :: string

record alert =
  at_domain :: string
  at_threshold :: int
  at_days :: int
  at_expires_at :: string

definition THRESHOLDS :: "int list" where
  "THRESHOLDS = [30, 14, 7, 1]"

definition matchThreshold :: "int \<Rightarrow> int option" where
  "matchThreshold days =
     (if days < 0 then None
      else foldl (\<lambda>m t. if days \<le> t then Some t else m) None THRESHOLDS)"

text \<open>The table \<open>tls_expiry_alerts\<close>: domain, threshold, and the time in seconds.\<close>

type_synonym fired = "(string \<times> int \<times> int) list"

definition already_fired :: "fired \<Rightarrow> string \<Rightarrow> int \<Rightarrow> bool" where
  "already_fired t d n = (\<exists>r \<in> set t. fst r = d \<and> fst (snd r) = n)"

definition insert_or_ignore :: "string \<Rightarrow> int \<Rightarrow> int \<Rightarrow> fired \<Rightarrow> fired" where
  "insert_or_ignore d n stamp t = (if already_fired t d n then t else t @ [(d, n, stamp)])"

fun scan_loop :: "(string \<Rightarrow> int option) \<Rightarrow> int \<Rightarrow> cert list \<Rightarrow> fired \<Rightarrow> fired \<times> alert list" where
  "scan_loop parse now [] t = (t, [])"
| "scan_loop parse now (c # cs) t =
     (case parse (ct_expires_at c) of
        None \<Rightarrow> scan_loop parse now cs t
      | Some ms \<Rightarrow>
          let days = (ms - now) div 86400000
          in (case matchThreshold days of
                None \<Rightarrow> scan_loop parse now cs t
              | Some n \<Rightarrow>
                  if already_fired t (ct_domain c) n then scan_loop parse now cs t
                  else
                    let (t', al) = scan_loop parse now cs (insert_or_ignore (ct_domain c) n (now div 1000) t)
                    in (t', \<lparr>at_domain = ct_domain c, at_threshold = n, at_days = days,
                             at_expires_at = ct_expires_at c\<rparr> # al)))"

text \<open>\<open>None\<close> is a failed call of the TLS service. The result has the alerts sent to every sink.\<close>

definition scan_tick :: "(string \<Rightarrow> int option) \<Rightarrow> int \<Rightarrow> cert list option \<Rightarrow> fired \<Rightarrow> fired \<times> alert list" where
  "scan_tick parse now certs t = (case certs of None \<Rightarrow> (t, []) | Some cs \<Rightarrow> scan_loop parse now cs t)"

lemma matchThreshold_cases:
  "matchThreshold d =
     (if d < 0 \<or> 30 < d then None else if d \<le> 1 then Some 1 else if d \<le> 7 then Some 7
      else if d \<le> 14 then Some 14 else Some 30)"
  by (simp add: matchThreshold_def THRESHOLDS_def)

lemma matchThreshold_least:
  "matchThreshold d = Some t \<longleftrightarrow>
     0 \<le> d \<and> t \<in> set THRESHOLDS \<and> d \<le> t \<and> (\<forall>t' \<in> set THRESHOLDS. d \<le> t' \<longrightarrow> t \<le> t')"
  by (auto simp: matchThreshold_cases THRESHOLDS_def)

definition alert_key :: "alert \<Rightarrow> string \<times> int" where
  "alert_key a = (at_domain a, at_threshold a)"

definition fired_keys :: "fired \<Rightarrow> (string \<times> int) set" where
  "fired_keys t = (\<lambda>r. (fst r, fst (snd r))) ` set t"

lemma already_fired_key: "already_fired t d n \<longleftrightarrow> (d, n) \<in> fired_keys t"
  by (force simp: already_fired_def fired_keys_def)

lemma fired_keys_insert [simp]: "fired_keys (insert_or_ignore d n stamp t) = insert (d, n) (fired_keys t)"
  by (auto simp: insert_or_ignore_def already_fired_key) (auto simp: fired_keys_def)

lemma scan_loop_keys:
  "scan_loop parse now cs t = (t', al) \<Longrightarrow>
     distinct (map alert_key al) \<and> set (map alert_key al) \<inter> fired_keys t = {} \<and>
     fired_keys t' = fired_keys t \<union> set (map alert_key al)"
proof (induction parse now cs t arbitrary: al rule: scan_loop.induct)
  case (2 parse now c cs t)
  show ?case
  proof (cases "parse (ct_expires_at c)")
    case (Some ms)
    let ?d = "(ms - now) div 86400000"
    show ?thesis
    proof (cases "matchThreshold ?d")
      case (Some n)
      show ?thesis
      proof (cases "already_fired t (ct_domain c) n")
        case False
        obtain al' where al': "scan_loop parse now cs (insert_or_ignore (ct_domain c) n (now div 1000) t) = (t', al')"
          "al = \<lparr>at_domain = ct_domain c, at_threshold = n, at_days = ?d, at_expires_at = ct_expires_at c\<rparr> # al'"
          using 2(5) False Some \<open>parse (ct_expires_at c) = Some ms\<close>
          by (auto simp: Let_def split: prod.splits)
        note ih = 2(4)[OF \<open>parse (ct_expires_at c) = Some ms\<close> refl Some False al'(1)]
        show ?thesis using ih False unfolding al'(2)
          by (auto simp: alert_key_def already_fired_key)
      qed (use 2 Some \<open>parse (ct_expires_at c) = Some ms\<close> in auto)
    qed (use 2 \<open>parse (ct_expires_at c) = Some ms\<close> in auto)
  qed (use 2 in auto)
qed simp

lemma scan_tick_keys:
  "scan_tick parse now certs t = (t', al) \<Longrightarrow>
     distinct (map alert_key al) \<and> set (map alert_key al) \<inter> fired_keys t = {} \<and>
     fired_keys t' = fired_keys t \<union> set (map alert_key al)"
  using scan_loop_keys[of parse now "the certs" t t' al] by (cases certs) (simp_all add: scan_tick_def)

text \<open>A run of the scanner: the ticks in order, each with its time and its certificate list.\<close>

fun scan_run :: "(string \<Rightarrow> int option) \<Rightarrow> (int \<times> cert list option) list \<Rightarrow> fired \<Rightarrow> fired \<times> alert list" where
  "scan_run parse [] t = (t, [])"
| "scan_run parse ((now, cs) # ts) t =
     (let (t1, al) = scan_tick parse now cs t; (t2, al2) = scan_run parse ts t1 in (t2, al @ al2))"

lemma scan_run_keys:
  "scan_run parse ts t = (t', al) \<Longrightarrow>
     distinct (map alert_key al) \<and> set (map alert_key al) \<inter> fired_keys t = {} \<and>
     fired_keys t' = fired_keys t \<union> set (map alert_key al)"
proof (induction parse ts t arbitrary: t' al rule: scan_run.induct)
  case (2 parse now cs ts t)
  obtain t1 a1 where t: "scan_tick parse now cs t = (t1, a1)" by fastforce
  obtain t2 a2 where r: "scan_run parse ts t1 = (t2, a2)" by fastforce
  have "al = a1 @ a2" "t' = t2" using 2(2) t r by auto
  with scan_tick_keys[OF t] 2(1)[OF t[symmetric] refl r] show ?case by auto
qed simp

subsection \<open>The certificate routes\<close>

datatype severity = SevNone | SevWarn | SevDanger | SevCritical

definition cert_days :: "(string \<Rightarrow> int option) \<Rightarrow> int \<Rightarrow> cert \<Rightarrow> int" where
  "cert_days parse now c =
     (case parse (ct_expires_at c) of None \<Rightarrow> 0 | Some ms \<Rightarrow> (ms - now) div 86400000)"

definition severity_of :: "int \<Rightarrow> severity" where
  "severity_of days =
     (if days < 0 then SevCritical else if days \<le> 7 then SevCritical
      else if days \<le> 14 then SevDanger else if days \<le> 30 then SevWarn else SevNone)"

definition list_certificates ::
  "(string \<Rightarrow> int option) \<Rightarrow> int \<Rightarrow> cert list option \<Rightarrow> (cert \<times> int \<times> severity) list reply" where
  "list_certificates parse now certs =
     (case certs of
        None \<Rightarrow> Reject 502 ''tls_unreachable''
      | Some cs \<Rightarrow> Ok 200 (map (\<lambda>c. let d = cert_days parse now c in (c, d, severity_of d)) cs))"

text \<open>\<open>POST /api/tls/renew/:host\<close>: the call to the TLS service is the effect.\<close>

definition tls_renew :: "world \<Rightarrow> string \<Rightarrow> conn \<Rightarrow> body reply \<times> effect list" where
  "tls_renew w rawHost c =
     (case host_param rawHost of
        None \<Rightarrow> (UriError, [])
      | Some host \<Rightarrow>
          if findByHost (t_domains (c_db c)) host = None then (Reject 404 ''domain_not_found'', [])
          else if w_tls_ok w then (Ok 200 BNone, [TlsSync [(host, [])] True])
          else (Reject 502 ''tls_renew_failed'', [TlsSync [(host, [])] False]))"

text \<open>
  What the TLS service does with a list (\<open>sync_domains\<close> of \<open>services/tls-service/src/grpc.rs\<close>): it
  issues a certificate for every listed host that has none, as far as issuing succeeds, and removes
  the certificates of all other hosts.
\<close>

definition tls_sync_domains :: "(string \<Rightarrow> bool) \<Rightarrow> string list \<Rightarrow> string list \<Rightarrow> string list" where
  "tls_sync_domains issues hosts certs =
     (let have_certs = certs @ filter (\<lambda>h. h \<notin> set certs \<and> issues h) hosts
      in filter (\<lambda>h. h \<in> set hosts) have_certs)"

lemma severity_threshold: "severity_of d = SevNone \<longleftrightarrow> 30 < d"
  by (simp add: severity_of_def)

subsection \<open>The health monitor\<close>

record proxy_status =
  ps_online :: bool
  ps_uptime :: int
  ps_request_count :: int
  ps_lagged :: "int option"

record service_status =
  sv_online :: bool
  sv_latency_ms :: int

record disk_usage =
  du_used_bytes :: int
  du_total_bytes :: int
  du_usage_ratio :: rat

record monitor =
  hm_proxy :: proxy_status
  hm_services :: "service_status list"
  hm_disk :: "disk_usage option"
  hm_was_online :: bool
  hm_lagged :: "(int \<times> int) list"

definition OFFLINE_PROXY :: proxy_status where
  "OFFLINE_PROXY = \<lparr>ps_online = False, ps_uptime = 0, ps_request_count = 0, ps_lagged = None\<rparr>"

definition OFFLINE_SVC :: service_status where
  "OFFLINE_SVC = \<lparr>sv_online = False, sv_latency_ms = -1\<rparr>"

definition monitor_init :: monitor where
  "monitor_init = \<lparr>hm_proxy = OFFLINE_PROXY, hm_services = replicate 5 OFFLINE_SVC, hm_disk = None,
     hm_was_online = False, hm_lagged = []\<rparr>"

definition LAGGED_WINDOW_MS :: int where
  "LAGGED_WINDOW_MS = 60000"

definition getCoalescerLaggedLastMinute :: "int \<Rightarrow> monitor \<Rightarrow> int" where
  "getCoalescerLaggedLastMinute now m =
     (let win = filter (\<lambda>s. now - LAGGED_WINDOW_MS \<le> fst s) (hm_lagged m)
      in if length win < 2 then 0
         else
           let oldest = snd (hd win); newest = snd (last win)
           in if oldest \<le> newest then newest - oldest else 0)"

text \<open>
  What one round of polling observes: the proxy's answer (\<open>None\<close> when the call fails), the time the
  answer arrives, the four other services in the order storage, tls, dns, optimizer (\<open>None\<close> for a
  failed or late call, else online and the measured latency), and the storage statistics.
\<close>

record poll =
  po_proxy :: "proxy_status option"
  po_now :: int
  po_latency :: int
  po_services :: "(bool \<times> int) option list"
  po_disk :: "(int \<times> int) option"

definition measured :: "(bool \<times> int) option \<Rightarrow> service_status" where
  "measured r = (case r of None \<Rightarrow> OFFLINE_SVC | Some (on, ms) \<Rightarrow> \<lparr>sv_online = on, sv_latency_ms = ms\<rparr>)"

definition disk_of :: "poll \<Rightarrow> service_status list \<Rightarrow> disk_usage option" where
  "disk_of p svcs =
     (if svcs \<noteq> [] \<and> sv_online (hd svcs) then
        (case po_disk p of
           None \<Rightarrow> None
         | Some (used, tot) \<Rightarrow>
             Some \<lparr>du_used_bytes = used, du_total_bytes = tot, du_usage_ratio = ratio used tot\<rparr>)
      else None)"

text \<open>One \<open>tick\<close>; the effects are the pushes to the proxy, tls and dns on the way up.\<close>

definition monitor_tick :: "world \<Rightarrow> conn \<Rightarrow> poll \<Rightarrow> monitor \<Rightarrow> monitor \<times> effect list" where
  "monitor_tick w c p m =
     (let online = (po_proxy p \<noteq> None);
          lagged = (case po_proxy p of
                      None \<Rightarrow> hm_lagged m
                    | Some st \<Rightarrow> filter (\<lambda>s. po_now p - LAGGED_WINDOW_MS \<le> fst s) (hm_lagged m)
                                 @ [(po_now p, or_else (ps_lagged st) 0)]);
          ds = map host_origin (findAll enabled_opts (t_domains (c_db c)));
          effs = (if online \<and> \<not> hm_was_online m
                  then [fst (syncToProxy w c), TlsSync ds (w_tls_ok w), DnsSync ds (w_dns_ok w)] else []);
          svcs = map measured (po_services p)
      in (\<lparr>hm_proxy = or_else (po_proxy p) OFFLINE_PROXY,
           hm_services = \<lparr>sv_online = online, sv_latency_ms = (if online then po_latency p else -1)\<rparr> # svcs,
           hm_disk = disk_of p svcs, hm_was_online = online, hm_lagged = lagged\<rparr>, effs))"

fun monitor_run :: "world \<Rightarrow> conn \<Rightarrow> poll list \<Rightarrow> monitor \<Rightarrow> monitor \<times> effect list list" where
  "monitor_run w c [] m = (m, [])"
| "monitor_run w c (p # ps) m =
     (let (m1, e) = monitor_tick w c p m; (m2, es) = monitor_run w c ps m1 in (m2, e # es))"

lemma was_online_tick [simp]: "hm_was_online (fst (monitor_tick w c p m)) = (po_proxy p \<noteq> None)"
  by (simp add: monitor_tick_def Let_def)

lemma lagged_nonneg: "0 \<le> getCoalescerLaggedLastMinute now m"
  by (simp add: getCoalescerLaggedLastMinute_def Let_def)

text \<open>The pushes happen exactly at the polls where the proxy answers and did not answer before.\<close>

definition rising :: "bool \<Rightarrow> bool list \<Rightarrow> bool list" where
  "rising b0 bs = map2 (\<lambda>prev b. b \<and> \<not> prev) (b0 # bs) bs"

lemma monitor_run_rising:
  "monitor_run w c ps m = (m', es) \<Longrightarrow>
     map (\<lambda>e. e \<noteq> []) es = rising (hm_was_online m) (map (\<lambda>p. po_proxy p \<noteq> None) ps)"
proof (induction w c ps m arbitrary: m' es rule: monitor_run.induct)
  case (1 w c m)
  then show ?case by (simp add: rising_def)
next
  case (2 w c p ps m)
  obtain m1 e where t: "monitor_tick w c p m = (m1, e)" by fastforce
  obtain m2 es2 where r: "monitor_run w c ps m1 = (m2, es2)" by fastforce
  have m1: "hm_was_online m1 = (po_proxy p \<noteq> None)" using was_online_tick[of w c p m] t by simp
  have e: "(e \<noteq> []) = (po_proxy p \<noteq> None \<and> \<not> hm_was_online m)"
    using t by (cases "po_proxy p") (auto simp: monitor_tick_def Let_def split: if_splits)
  have "es = e # es2" using 2(2) t r by auto
  with 2(1)[OF t[symmetric] refl r] m1 e show ?case by (simp add: rising_def)
qed

lemma monitor_windows: "hm_lagged (fst (monitor_tick w c p m)) = hm_lagged m \<or>
   (\<forall>s \<in> set (hm_lagged (fst (monitor_tick w c p m))). po_now p - LAGGED_WINDOW_MS \<le> fst s)"
  by (auto simp: monitor_tick_def Let_def LAGGED_WINDOW_MS_def split: option.splits)

end
