(* ===== verification/Domain_Query.thy ===== *)
theory Domain_Query
  imports Domain_Write Tls_Health
begin

section \<open>The handlers that read domains\<close>

text \<open>
  The GET routes of \<open>routes/domains.ts\<close>: the list with its validated query, the dashboard summary, and
  the statistics, logs, top URLs and URL breakdown of one host. A query parameter is an optional string.
  The table \<open>access_logs\<close> and the proxy's ring buffer of requests are arguments, \<open>None\<close> standing for the
  missing table and the failed call.
\<close>

subsection \<open>Validated integers\<close>

text \<open>\<open>z.coerce.number().int().min(lo).max(hi)\<close> on a string.\<close>

definition coerce_int :: "int \<Rightarrow> int option \<Rightarrow> string \<Rightarrow> int option" where
  "coerce_int lo hi s =
     (case number_of_string s of
        Fin x \<Rightarrow>
          if of_int \<lfloor>x\<rfloor> = x \<and> lo \<le> \<lfloor>x\<rfloor> \<and> (case hi of None \<Rightarrow> True | Some h \<Rightarrow> \<lfloor>x\<rfloor> \<le> h)
          then Some \<lfloor>x\<rfloor> else None
      | _ \<Rightarrow> None)"

text \<open>A parameter that may be absent or empty; the outer \<open>None\<close> is the rejection.\<close>

definition optional_int :: "int \<Rightarrow> int option \<Rightarrow> string option \<Rightarrow> int option option" where
  "optional_int lo hi raw =
     (case raw of
        None \<Rightarrow> Some None
      | Some s \<Rightarrow> if s = [] then Some None else map_option Some (coerce_int lo hi s))"

lemma coerce_int_range:
  "coerce_int lo hi s = Some n \<Longrightarrow> lo \<le> n \<and> (\<forall>h. hi = Some h \<longrightarrow> n \<le> h)"
  by (auto simp: coerce_int_def split: jsnum.splits if_splits option.splits)

lemma optional_int_range:
  "optional_int lo hi raw = Some (Some n) \<Longrightarrow> lo \<le> n \<and> (\<forall>h. hi = Some h \<longrightarrow> n \<le> h)"
  by (auto simp: optional_int_def dest: coerce_int_range split: option.splits if_splits)

subsection \<open>GET /api/domains\<close>

definition ENABLED_TRUE_VALUES :: "string list" where
  "ENABLED_TRUE_VALUES = [''true'', ''1'', ''yes'']"

definition ENABLED_FALSE_VALUES :: "string list" where
  "ENABLED_FALSE_VALUES = [''false'', ''0'', ''no'']"

definition Q_MAX_LENGTH :: nat where
  "Q_MAX_LENGTH = 200"

record list_query =
  lsq_q :: "string option"
  lsq_enabled :: "string option"
  lsq_sort :: "string option"
  lsq_order :: "string option"
  lsq_limit :: "string option"
  lsq_offset :: "string option"

definition enabled_filter :: "string option \<Rightarrow> bool option option" where
  "enabled_filter raw =
     (case raw of
        None \<Rightarrow> Some None
      | Some s \<Rightarrow>
          if js_lower s \<in> set ENABLED_TRUE_VALUES then Some (Some True)
          else if js_lower s \<in> set ENABLED_FALSE_VALUES then Some (Some False)
          else None)"

definition bad_value :: "string list \<Rightarrow> (string \<Rightarrow> string) \<Rightarrow> string option \<Rightarrow> bool" where
  "bad_value allowed f raw = (case raw of None \<Rightarrow> False | Some s \<Rightarrow> f s \<notin> set allowed)"

definition list_domains :: "list_query \<Rightarrow> domains \<Rightarrow> domains reply" where
  "list_domains lq t =
     (case enabled_filter (lsq_enabled lq) of
        None \<Rightarrow> Reject 400 ''invalid_input''
      | Some en \<Rightarrow>
          if bad_value SORT_WHITELIST id (lsq_sort lq) then Reject 400 ''invalid_input''
          else if bad_value ORDER_WHITELIST js_lower (lsq_order lq) then Reject 400 ''invalid_input''
          else if (case lsq_q lq of None \<Rightarrow> False | Some q \<Rightarrow> Q_MAX_LENGTH < length q)
          then Reject 400 ''invalid_input''
          else (case optional_int 1 None (lsq_limit lq) of
                  None \<Rightarrow> Reject 400 ''invalid_input''
                | Some lmt \<Rightarrow>
                    (case optional_int 0 None (lsq_offset lq) of
                       None \<Rightarrow> Reject 400 ''invalid_input''
                     | Some ofs \<Rightarrow>
                         Ok 200 (findAll \<lparr>f_q = lsq_q lq, f_enabled = en, f_sort = lsq_sort lq,
                           f_order = lsq_order lq, f_limit = map_option (\<lambda>n. Fin (of_int n)) lmt,
                           f_offset = map_option (\<lambda>n. Fin (of_int n)) ofs\<rparr> t))))"

text \<open>
  What is sent is what was asked: a reply sorts by the column and the direction named, and has at most
  \<open>limit\<close> rows.
\<close>

lemma list_domains_ok:
  assumes "list_domains lq t = Ok n rows"
  shows "n = 200 \<and> set rows \<subseteq> set t \<and>
     (\<exists>fo. rows = findAll fo t \<and> f_q fo = lsq_q lq \<and>
       (lsq_sort lq \<noteq> None \<longrightarrow> Some (sort_col fo) = lsq_sort lq) \<and>
       (lsq_order lq \<noteq> None \<longrightarrow> map_option js_lower (lsq_order lq) = Some (js_lower (sort_dir fo)))) \<and>
     (\<forall>l. lsq_limit lq = Some l \<and> l \<noteq> [] \<longrightarrow>
        (\<exists>k. coerce_int 1 None l = Some k \<and> int (length rows) \<le> k))"
proof -
  obtain en lmt ofs where e: "enabled_filter (lsq_enabled lq) = Some en"
    and s: "\<not> bad_value SORT_WHITELIST id (lsq_sort lq)" and d: "\<not> bad_value ORDER_WHITELIST js_lower (lsq_order lq)"
    and l: "optional_int 1 None (lsq_limit lq) = Some lmt" and f: "optional_int 0 None (lsq_offset lq) = Some ofs"
    and r: "n = 200" "rows = findAll \<lparr>f_q = lsq_q lq, f_enabled = en, f_sort = lsq_sort lq,
                           f_order = lsq_order lq, f_limit = map_option (\<lambda>n. Fin (of_int n)) lmt,
                           f_offset = map_option (\<lambda>n. Fin (of_int n)) ofs\<rparr> t"
    using assms by (auto simp: list_domains_def split: option.splits if_splits)
  let ?fo = "\<lparr>f_q = lsq_q lq, f_enabled = en, f_sort = lsq_sort lq,
                           f_order = lsq_order lq, f_limit = map_option (\<lambda>n. Fin (of_int n)) lmt,
                           f_offset = map_option (\<lambda>n. Fin (of_int n)) ofs\<rparr>"
  have c: "lsq_sort lq \<noteq> None \<longrightarrow> Some (sort_col ?fo) = lsq_sort lq"
    using s by (auto simp: bad_value_def sort_col_def SORT_WHITELIST_def)
  have o: "map_option js_lower (lsq_order lq) = Some (js_lower (sort_dir ?fo))" if nn: "lsq_order lq \<noteq> None"
  proof -
    obtain x where x: "lsq_order lq = Some x" "js_lower x \<in> set ORDER_WHITELIST"
      using d nn by (auto simp: bad_value_def)
    then have "x \<noteq> []" by (auto simp: ORDER_WHITELIST_def js_lower_def)
    moreover have "js_lower (js_upper_ascii (js_lower x)) = js_lower x"
    proof -
      have "js_lower (js_upper_ascii ''asc'') = ''asc''" "js_lower (js_upper_ascii ''desc'') = ''desc''"
        by code_simp+
      with x(2) show ?thesis by (auto simp: ORDER_WHITELIST_def)
    qed
    ultimately show ?thesis
      using x upper_of_asc_desc[OF x(2)] by (simp add: sort_dir_def)
  qed
  have n: "\<exists>k. coerce_int 1 None a = Some k \<and> int (length rows) \<le> k" if a: "lsq_limit lq = Some a" "a \<noteq> []" for a
  proof -
    obtain k where k: "coerce_int 1 None a = Some k" "lmt = Some k"
      using l a by (auto simp: optional_int_def)
    then have p: "1 \<le> k" using coerce_int_range by blast
    then have "positive (f_limit ?fo) = Some k" using k by (simp add: positive_def)
    then have "int (length (findAll ?fo t)) \<le> k"
      using length_sql_page[of k] p by (simp add: findAll_def)
    with k r show ?thesis by blast
  qed
  have "set rows \<subseteq> set t" using set_findAll[of ?fo t] r by auto
  with r c o n show ?thesis by (intro conjI exI[of _ ?fo]) auto
qed

subsection \<open>GET /api/domains/summary\<close>

datatype summary_alert =
    TlsExpiring string string
  | StaleServing string
  | CoalescerLagged int
  | DiskHigh rat int int

record domain_summary =
  sm_total :: nat
  sm_enabled :: nat
  sm_disabled :: nat
  sm_today_requests :: int
  sm_today_requests_delta :: rat
  sm_cache_hit_rate :: rat
  sm_cache_hit_rate_delta :: rat
  sm_today_bandwidth :: int
  sm_hourly_requests :: "int list"
  sm_hourly_cache_hit_rate :: "rat list"
  sm_hourly_bandwidth :: "int list"
  sm_alerts :: "summary_alert list"

definition maxBuckets :: nat where
  "maxBuckets = 24"

definition nth_or_zero :: "int list \<Rightarrow> nat \<Rightarrow> int" where
  "nth_or_zero xs i = (if i < length xs then xs ! i else 0)"

definition last_n :: "nat \<Rightarrow> 'a list \<Rightarrow> 'a list" where
  "last_n n xs = drop (length xs - n) xs"

text \<open>
  One turn of the loop over the hosts: the host's last buckets are added at the right end. The length of
  the list of requests gives the offset for all three lists.
\<close>

definition add_buckets :: "int list \<Rightarrow> int list \<Rightarrow> int list \<Rightarrow> int list" where
  "add_buckets acc reqs xs =
     (let n = length (last_n maxBuckets reqs); o' = maxBuckets - n
      in map (\<lambda>j. acc ! j + (if o' \<le> j \<and> j < o' + n then nth_or_zero (last_n maxBuckets xs) (j - o') else 0))
           [0..<maxBuckets])"

definition merge_hourly :: "(summary \<Rightarrow> int list) \<Rightarrow> summary list \<Rightarrow> int list" where
  "merge_hourly f rs = foldl (\<lambda>acc r. add_buckets acc (su_hourly r) (f r)) (replicate maxBuckets 0) rs"

definition mean_delta :: "(summary \<Rightarrow> rat) \<Rightarrow> summary list \<Rightarrow> rat" where
  "mean_delta f rs = (if rs = [] then 0 else sum_list (map f rs) / of_nat (length rs))"

definition round_tenth :: "rat \<Rightarrow> rat" where
  "round_tenth x = of_int (math_round (x * 10)) / 10"

definition TLS_ALERT_WINDOW_MS :: int where
  "TLS_ALERT_WINDOW_MS = 30 * 86400000"

definition tls_alerts :: "(string \<Rightarrow> int option) \<Rightarrow> int \<Rightarrow> cert list option \<Rightarrow> summary_alert list" where
  "tls_alerts parse now certs =
     map (\<lambda>c. TlsExpiring (ct_domain c) (ct_expires_at c))
       (filter (\<lambda>c. case parse (ct_expires_at c) of
                      None \<Rightarrow> False
                    | Some ms \<Rightarrow> now < ms \<and> ms - now < TLS_ALERT_WINDOW_MS) (or_else certs []))"

definition disk_alerts :: "disk_usage option \<Rightarrow> summary_alert list" where
  "disk_alerts disk =
     (case disk of
        None \<Rightarrow> []
      | Some u \<Rightarrow>
          if 8 / 10 \<le> du_usage_ratio u
          then [DiskHigh (of_int (math_round (du_usage_ratio u * 1000)) / 10) (du_used_bytes u) (du_total_bytes u)]
          else [])"

definition summarize ::
  "(string \<Rightarrow> int option) \<Rightarrow> int \<Rightarrow> cert list option \<Rightarrow> monitor \<Rightarrow> db \<Rightarrow> domain_summary" where
  "summarize parse now certs m s =
     (let allDomains = findAll no_opts (t_domains s);
          enabled = length (filter (\<lambda>d. d_enabled d = 1) allDomains);
          perHost = getSummaryAll (now div 1000) (t_stats s);
          todayRequests = sum_of su_today_requests perHost;
          hourlyRequests = merge_hourly su_hourly perHost;
          hourlyCacheHits = merge_hourly su_hourly_cache_hits perHost;
          stale = findHostsWithRecentDecision ''served_stale_if_error'' (now div 1000 - 600) (t_events s);
          lagged = getCoalescerLaggedLastMinute now m
      in \<lparr>sm_total = length allDomains, sm_enabled = enabled, sm_disabled = length allDomains - enabled,
          sm_today_requests = todayRequests,
          sm_today_requests_delta = round_tenth (mean_delta su_today_requests_delta perHost),
          sm_cache_hit_rate = ratio (sum_of su_today_cache_hits perHost) todayRequests,
          sm_cache_hit_rate_delta = round_tenth (mean_delta su_hit_rate_delta perHost),
          sm_today_bandwidth = sum_of su_today_bandwidth perHost,
          sm_hourly_requests = hourlyRequests,
          sm_hourly_cache_hit_rate = map2 (\<lambda>req hits. ratio hits req) hourlyRequests hourlyCacheHits,
          sm_hourly_bandwidth = merge_hourly su_hourly_bandwidth perHost,
          sm_alerts = tls_alerts parse now certs @ map StaleServing stale
            @ (if 0 < lagged then [CoalescerLagged lagged] else []) @ disk_alerts (hm_disk m)\<rparr>)"

lemma length_add_buckets [simp]: "length (add_buckets acc reqs xs) = maxBuckets"
  by (simp add: add_buckets_def Let_def)

lemma length_merge_hourly: "length (merge_hourly f rs) = maxBuckets"
  by (induction rs rule: rev_induct) (simp_all add: merge_hourly_def)

text \<open>Every list that fits is added without loss: the sum of the merged list is the sum of all lists.\<close>

lemma sum_list_shift:
  "length xs \<le> n \<Longrightarrow>
     sum_list (map (\<lambda>j. if n - length xs \<le> j \<and> j < n then xs ! (j - (n - length xs)) else 0) [0..<n]) = sum_list xs"
  for xs :: "int list"
proof -
  assume l: "length xs \<le> n"
  let ?k = "n - length xs"
  have "map (\<lambda>j. if ?k \<le> j \<and> j < n then xs ! (j - ?k) else 0) [0..<n] = replicate ?k 0 @ xs"
    using l by (intro nth_equalityI) (auto simp: nth_append)
  then show ?thesis by (simp add: sum_list_replicate)
qed

lemma add_buckets_nth:
  assumes "length (su_hourly r) \<le> maxBuckets" and "length (f r) = length (su_hourly r)" and "j < maxBuckets"
  shows "add_buckets acc (su_hourly r) (f r) ! j = acc ! j +
     (if maxBuckets - length (f r) \<le> j \<and> j < maxBuckets then (f r) ! (j - (maxBuckets - length (f r))) else 0)"
  using assms by (auto simp: add_buckets_def last_n_def nth_or_zero_def Let_def)

lemma sum_add_buckets:
  assumes "length acc = maxBuckets" and "length (su_hourly r) \<le> maxBuckets" and "length (f r) = length (su_hourly r)"
  shows "sum_list (add_buckets acc (su_hourly r) (f r)) = sum_list acc + sum_list (f r)"
proof -
  let ?g = "\<lambda>j. if maxBuckets - length (f r) \<le> j \<and> j < maxBuckets then (f r) ! (j - (maxBuckets - length (f r))) else 0"
  have "add_buckets acc (su_hourly r) (f r) = map (\<lambda>j. acc ! j + ?g j) [0..<maxBuckets]"
    using add_buckets_nth[of r f, OF assms(2,3)] by (intro nth_equalityI) simp_all
  then have "sum_list (add_buckets acc (su_hourly r) (f r)) =
      sum_list (map (\<lambda>j. acc ! j) [0..<maxBuckets]) + sum_list (map ?g [0..<maxBuckets])"
    by (simp add: sum_list_addf)
  moreover have "map (\<lambda>j. acc ! j) [0..<maxBuckets] = acc" using assms(1) by (metis map_nth)
  moreover have "sum_list (map ?g [0..<maxBuckets]) = sum_list (f r)"
    by (rule sum_list_shift) (use assms in simp)
  ultimately show ?thesis by simp
qed

lemma sum_merge_hourly:
  "list_all (\<lambda>r. length (su_hourly r) \<le> maxBuckets \<and> length (f r) = length (su_hourly r)) rs \<Longrightarrow>
     sum_list (merge_hourly f rs) = sum_list (map (\<lambda>r. sum_list (f r)) rs)"
proof (induction rs rule: rev_induct)
  case (snoc r rs)
  have "merge_hourly f (rs @ [r]) = add_buckets (merge_hourly f rs) (su_hourly r) (f r)"
    by (simp add: merge_hourly_def)
  with snoc sum_add_buckets[of "merge_hourly f rs" r f, OF length_merge_hourly] show ?case by simp
qed (simp add: merge_hourly_def sum_list_replicate)

subsection \<open>GET /api/domains/:host/summary\<close>

record host_summary =
  hs_host :: string
  hs_today_requests :: int
  hs_today_cache_hits :: int
  hs_today_bandwidth :: int
  hs_hit_rate :: rat
  hs_l1_hit_rate :: rat
  hs_edge_hit_rate :: rat
  hs_bypass_rate :: rat

definition get_host_summary :: "int \<Rightarrow> string \<Rightarrow> db \<Rightarrow> host_summary reply" where
  "get_host_summary now rawHost s =
     (case host_param rawHost of
        None \<Rightarrow> UriError
      | Some host \<Rightarrow>
          if findByHost (t_domains s) host = None then Reject 404 ''domain_not_found''
          else
            let su = getSummaryForHost now host (t_stats s)
            in Ok 200 \<lparr>hs_host = host,
                 hs_today_requests = or_else (map_option su_today_requests su) 0,
                 hs_today_cache_hits = or_else (map_option su_today_cache_hits su) 0,
                 hs_today_bandwidth = or_else (map_option su_today_bandwidth su) 0,
                 hs_hit_rate = or_else (map_option su_hit_rate su) 0,
                 hs_l1_hit_rate = or_else (map_option su_today_l1_hit_rate su) 0,
                 hs_edge_hit_rate = or_else (map_option su_today_edge_hit_rate su) 0,
                 hs_bypass_rate = or_else (map_option su_today_bypass_rate su) 0\<rparr>)"

subsection \<open>GET /api/domains/:host/stats\<close>

definition period_of :: "string \<Rightarrow> stats_period option" where
  "period_of p =
     (if p = ''1h'' then Some P1h else if p = ''24h'' then Some P24h else if p = ''7d'' then Some P7d
      else if p = ''30d'' then Some P30d else if p = ''custom'' then Some PCustom else None)"

text \<open>\<open>Number(from)\<close> and \<open>Number(to)\<close>, both finite, the first smaller.\<close>

definition opt_number :: "string option \<Rightarrow> jsnum" where
  "opt_number raw = (case raw of None \<Rightarrow> NotANum | Some s \<Rightarrow> number_of_string s)"

definition custom_range :: "string option \<Rightarrow> string option \<Rightarrow> (rat \<times> rat) option" where
  "custom_range from to =
     (case opt_number from of
        Fin f \<Rightarrow> (case opt_number to of Fin t \<Rightarrow> if t \<le> f then None else Some (f, t) | _ \<Rightarrow> None)
      | _ \<Rightarrow> None)"

text \<open>
  \<open>new Date(seconds * 1000).toISOString()\<close>: the time is cut to whole milliseconds, and a time out of
  the range of \<open>Date\<close> raises.
\<close>

definition date_iso :: "rat \<Rightarrow> string option" where
  "date_iso sec =
     (let x = sec * 1000; ms = (if 0 \<le> x then \<lfloor>x\<rfloor> else \<lceil>x\<rceil>)
      in if \<bar>ms\<bar> \<le> 8640000000000000 then Some (toISOString ms) else None)"

definition slice :: "nat \<Rightarrow> nat \<Rightarrow> string \<Rightarrow> string" where
  "slice a b s = drop a (take b s)"

definition stats_label :: "stats_period \<Rightarrow> ts_row \<Rightarrow> string option" where
  "stats_label p r =
     map_option (if p = P1h \<or> p = P24h then slice 11 16 else slice 0 10) (date_iso (ts_timestamp r))"

record host_stats =
  ho_host :: string
  ho_period :: stats_period
  ho_total_requests :: int
  ho_requests_delta :: rat
  ho_cache_hit_rate :: rat
  ho_cache_hit_rate_delta :: rat
  ho_bandwidth :: int
  ho_avg_response_time :: int
  ho_response_time_delta :: rat
  ho_labels :: "string list"
  ho_hits :: "int list"
  ho_misses :: "int list"
  ho_bandwidths :: "int list"
  ho_response_times :: "rat list"

definition get_host_stats ::
  "(int \<Rightarrow> int \<Rightarrow> rat) \<Rightarrow> int \<Rightarrow> string \<Rightarrow> string option \<Rightarrow> string option \<Rightarrow> string option \<Rightarrow> db \<Rightarrow> host_stats reply" where
  "get_host_stats bucket now rawHost period from to s =
     (case host_param rawHost of
        None \<Rightarrow> UriError
      | Some host \<Rightarrow>
          if findByHost (t_domains s) host = None then Reject 404 ''domain_not_found''
          else (case (case period of None \<Rightarrow> Some P24h | Some p \<Rightarrow> period_of p) of
                  None \<Rightarrow> Reject 400 ''invalid_period''
                | Some p \<Rightarrow>
                    if p = PCustom \<and> custom_range from to = None then Reject 400 ''invalid_period''
                    else (case getStats bucket now host p (if p = PCustom then custom_range from to else None)
                             (t_stats s) of
                            Inl e \<Rightarrow> Throw
                          | Inr (sm, rows) \<Rightarrow>
                              if None \<in> set (map (stats_label p) rows) then Throw
                              else Ok 200 \<lparr>ho_host = host, ho_period = p,
                                     ho_total_requests = ss_total_requests sm,
                                     ho_requests_delta = ss_requests_delta sm,
                                     ho_cache_hit_rate = ss_hit_rate sm,
                                     ho_cache_hit_rate_delta = ss_hit_rate_delta sm,
                                     ho_bandwidth = ss_total_bandwidth sm,
                                     ho_avg_response_time = ss_avg_response_time sm,
                                     ho_response_time_delta = ss_response_time_delta sm,
                                     ho_labels = map (the \<circ> stats_label p) rows,
                                     ho_hits = map ts_cache_hits rows, ho_misses = map ts_cache_misses rows,
                                     ho_bandwidths = map ts_bandwidth rows,
                                     ho_response_times = map ts_avg_response_time rows\<rparr>)))"

lemma custom_range_order: "custom_range from to = Some (f, t) \<Longrightarrow> f < t"
  by (auto simp: custom_range_def split: jsnum.splits if_splits)

text \<open>The validation of the route leaves nothing for the one of the repository to refuse.\<close>

lemma get_host_stats_no_range_error:
  "p = PCustom \<longrightarrow> custom_range from to \<noteq> None \<Longrightarrow>
     getStats bucket now host p (if p = PCustom then custom_range from to else None) t \<noteq> Inl e"
  by (cases "custom_range from to")
    (auto simp: getStats_def validateRange_def Let_def dest: custom_range_order split: prod.splits if_splits)

lemma length_host_stats:
  assumes "get_host_stats bucket now rawHost period from to s = Ok n h"
  shows "length (ho_hits h) = length (ho_labels h) \<and> length (ho_misses h) = length (ho_labels h) \<and>
    length (ho_bandwidths h) = length (ho_labels h) \<and> length (ho_response_times h) = length (ho_labels h)"
  using assms by (auto simp: get_host_stats_def split: option.splits if_splits sum.splits prod.splits)

subsection \<open>GET /api/domains/:host/logs\<close>

record log_row =
  lg_timestamp :: int
  lg_status_code :: int
  lg_cache_status :: string
  lg_path :: string
  lg_size :: int

text \<open>A row of \<open>access_logs\<close> with its host, and an entry of the proxy's ring buffer.\<close>

type_synonym access_logs = "(string \<times> log_row) list"

record proxy_log =
  pl_host :: string
  pl_url :: string
  pl_status_code :: int
  pl_timestamp :: string
  pl_cache_status :: string
  pl_size :: "int option"

record log_filters =
  lf_host :: string
  lf_since :: "rat option"
  lf_until :: "rat option"
  lf_status :: "string option"
  lf_cache :: "string option"
  lf_q :: "string option"

definition in_times :: "log_filters \<Rightarrow> int \<Rightarrow> bool" where
  "in_times lf t =
     ((case lf_since lf of None \<Rightarrow> True | Some x \<Rightarrow> x \<le> of_int t) \<and>
      (case lf_until lf of None \<Rightarrow> True | Some x \<Rightarrow> of_int t \<le> x))"

definition status_in :: "string option \<Rightarrow> int \<Rightarrow> bool" where
  "status_in st code =
     (if st = Some ''5xx'' then 500 \<le> code
      else if st = Some ''4xx'' then 400 \<le> code \<and> code < 500
      else if st = Some ''error'' then 400 \<le> code else True)"

text \<open>\<open>toUpperCase\<close> on Latin-1; the two letters whose capital is outside stay.\<close>

definition js_upper :: "string \<Rightarrow> string" where
  "js_upper s = concat (map (\<lambda>c. let n = (of_char c :: nat)
      in if n = 223 then ''SS''
         else if (97 \<le> n \<and> n \<le> 122) \<or> (224 \<le> n \<and> n \<le> 254 \<and> n \<noteq> 247) then [char_of (n - 32)] else [c]) s)"

text \<open>The loop of \<open>fetchProxyLogs\<close> keeps an entry when none of its tests continues.\<close>

definition url_path :: "string \<Rightarrow> string" where
  "url_path u = hd (split_on (CHR ''?'') u)"

definition proxy_row :: "(string \<Rightarrow> int option) \<Rightarrow> log_filters \<Rightarrow> proxy_log \<Rightarrow> log_row option" where
  "proxy_row parse lf r =
     (if pl_host r \<noteq> lf_host lf then None
      else (case parse (pl_timestamp r) of
              None \<Rightarrow> None
            | Some ms \<Rightarrow>
                let t = ms div 1000; p = url_path (pl_url r)
                in if \<not> in_times lf t \<or> \<not> status_in (lf_status lf) (pl_status_code r) then None
                   else if lf_cache lf = Some ''hit'' \<and> js_upper (pl_cache_status r) \<noteq> ''HIT'' then None
                   else if lf_cache lf = Some ''miss'' \<and> js_upper (pl_cache_status r) \<noteq> ''MISS'' then None
                   else if (case lf_q lf of None \<Rightarrow> False | Some q \<Rightarrow> q \<noteq> [] \<and> \<not> js_includes q p) then None
                   else Some \<lparr>lg_timestamp = t, lg_status_code = pl_status_code r,
                          lg_cache_status = pl_cache_status r, lg_path = p, lg_size = or_else (pl_size r) 0\<rparr>))"

definition newest_first :: "log_row \<Rightarrow> log_row \<Rightarrow> bool" where
  "newest_first a b = (lg_timestamp b \<le> lg_timestamp a)"

definition fetchProxyLogs ::
  "(string \<Rightarrow> int option) \<Rightarrow> proxy_log list option \<Rightarrow> log_filters \<Rightarrow> int \<Rightarrow> int \<Rightarrow> log_row list" where
  "fetchProxyLogs parse raw lf limit offset =
     sql_page (Some limit) offset
       (order_by newest_first (List.map_filter (proxy_row parse lf) (or_else raw [])))"

definition log_matches :: "log_filters \<Rightarrow> string \<times> log_row \<Rightarrow> bool" where
  "log_matches lf = (\<lambda>(h, r).
     h = lf_host lf \<and> in_times lf (lg_timestamp r) \<and> status_in (lf_status lf) (lg_status_code r) \<and>
     (case lf_cache lf of
        None \<Rightarrow> True
      | Some c \<Rightarrow> (c = ''hit'' \<or> c = ''miss'') \<longrightarrow> lg_cache_status r = js_upper c) \<and>
     (case lf_q lf of
        None \<Rightarrow> True
      | Some q \<Rightarrow> q = [] \<or> sql_like (Some backslash) (CHR ''%'' # escapeLike q @ ''%'') (lg_path r)))"

definition query_logs ::
  "(string \<Rightarrow> int option) \<Rightarrow> access_logs option \<Rightarrow> proxy_log list option \<Rightarrow> log_filters \<Rightarrow> int \<Rightarrow> int \<Rightarrow> log_row list" where
  "query_logs parse tbl raw lf limit offset =
     (case tbl of
        None \<Rightarrow> fetchProxyLogs parse raw lf limit offset
      | Some rows \<Rightarrow> sql_page (Some limit) offset (order_by newest_first (map snd (filter (log_matches lf) rows))))"

record logs_query =
  gq_limit :: "string option"
  gq_offset :: "string option"
  gq_status :: "string option"
  gq_cache :: "string option"
  gq_period :: "string option"
  gq_from :: "string option"
  gq_to :: "string option"
  gq_q :: "string option"

text \<open>
  \<open>since\<close> and \<open>until\<close> of a period; an empty string passes no test of the white list, so the
  \<open>if (period)\<close> of the source only tells an absent one. \<open>None\<close> is the rejected custom range.
\<close>

definition period_seconds :: "stats_period \<Rightarrow> int" where
  "period_seconds p =
     (case p of P1h \<Rightarrow> 3600 | P24h \<Rightarrow> 86400 | P7d \<Rightarrow> 604800 | P30d \<Rightarrow> 2592000 | PCustom \<Rightarrow> 0)"

definition logs_window ::
  "int \<Rightarrow> stats_period option \<Rightarrow> string option \<Rightarrow> string option \<Rightarrow> (rat option \<times> rat option) option" where
  "logs_window now p from to =
     (case p of
        None \<Rightarrow> Some (None, None)
      | Some PCustom \<Rightarrow> map_option (\<lambda>(f, t). (Some f, Some t)) (custom_range from to)
      | Some q \<Rightarrow> Some (Some (of_int (now - period_seconds q)), None))"

definition get_logs ::
  "(string \<Rightarrow> int option) \<Rightarrow> access_logs option \<Rightarrow> proxy_log list option \<Rightarrow> int \<Rightarrow> string \<Rightarrow> logs_query \<Rightarrow> db \<Rightarrow>
     log_row list reply" where
  "get_logs parse tbl raw now rawHost gq s =
     (case host_param rawHost of
        None \<Rightarrow> UriError
      | Some host \<Rightarrow>
          if findByHost (t_domains s) host = None then Reject 404 ''domain_not_found''
          else (case optional_int 1 (Some 1000) (gq_limit gq) of
                  None \<Rightarrow> Reject 400 ''invalid_input''
                | Some lmt \<Rightarrow>
          (case optional_int 0 None (gq_offset gq) of
             None \<Rightarrow> Reject 400 ''invalid_input''
           | Some ofs \<Rightarrow>
               if (case gq_period gq of None \<Rightarrow> False | Some p \<Rightarrow> period_of p = None)
               then Reject 400 ''invalid_period''
               else if bad_value [''5xx'', ''4xx'', ''error''] id (gq_status gq) then Reject 400 ''invalid_status''
               else if bad_value [''hit'', ''miss''] id (gq_cache gq) then Reject 400 ''invalid_cache''
               else (case logs_window now (Option.bind (gq_period gq) period_of) (gq_from gq) (gq_to gq) of
                       None \<Rightarrow> Reject 400 ''invalid_period''
                     | Some (since, until) \<Rightarrow>
                         Ok 200 (query_logs parse tbl raw
                           \<lparr>lf_host = host, lf_since = since, lf_until = until, lf_status = gq_status gq,
                            lf_cache = gq_cache gq, lf_q = gq_q gq\<rparr> (or_else lmt 100) (or_else ofs 0))))))"

subsection \<open>GET /api/domains/:host/top-urls\<close>

text \<open>\<open>Math.min(Math.max(Number(limit ?? 5) || 5, 1), 20)\<close>, which need not be an integer.\<close>

definition top_limit :: "string option \<Rightarrow> rat" where
  "top_limit raw =
     (case raw of
        None \<Rightarrow> 5
      | Some s \<Rightarrow> (case number_of_string s of
            Fin x \<Rightarrow> if x = 0 then 5 else min (max x 1) 20
          | PosInf \<Rightarrow> 20 | NegInf \<Rightarrow> 1 | NotANum \<Rightarrow> 5))"

definition top_window :: "int \<Rightarrow> string option \<Rightarrow> string option \<Rightarrow> string option \<Rightarrow> (rat \<times> rat) option" where
  "top_window now period from to =
     (case Option.bind period period_of of
        Some PCustom \<Rightarrow> custom_range from to
      | Some p \<Rightarrow> Some (of_int (now - period_seconds p), of_int now)
      | None \<Rightarrow> Some (of_int (now - 86400), of_int now))"

definition count_paths :: "log_row list \<Rightarrow> (string \<times> nat) list" where
  "count_paths rows =
     order_by (\<lambda>a b. snd b \<le> snd a) (map (\<lambda>(p, g). (p, length g)) (group_by lg_path rows))"

text \<open>SQLite refuses a \<open>LIMIT\<close> that is no whole number, and the handler then falls back too.\<close>

definition get_top_urls ::
  "(string \<Rightarrow> int option) \<Rightarrow> access_logs option \<Rightarrow> proxy_log list option \<Rightarrow> int \<Rightarrow> string \<Rightarrow>
     string option \<Rightarrow> string option \<Rightarrow> string option \<Rightarrow> string option \<Rightarrow> (string \<times> nat) list reply" where
  "get_top_urls parse tbl raw now rawHost lmt period from to =
     (case host_param rawHost of
        None \<Rightarrow> UriError
      | Some host \<Rightarrow>
          (case top_window now period from to of
             None \<Rightarrow> Reject 400 ''invalid_period''
           | Some (since, until) \<Rightarrow>
               let n = top_limit lmt
               in if tbl \<noteq> None \<and> of_int \<lfloor>n\<rfloor> = n then
                    Ok 200 (take (nat \<lfloor>n\<rfloor>) (count_paths (map snd (filter
                      (\<lambda>(h, r). h = host \<and> since \<le> of_int (lg_timestamp r) \<and> of_int (lg_timestamp r) < until)
                      (the tbl)))))
                  else
                    Ok 200 (take (nat \<lfloor>n\<rfloor>) (count_paths (fetchProxyLogs parse raw
                      \<lparr>lf_host = host, lf_since = Some since, lf_until = Some (until - 1), lf_status = None,
                       lf_cache = None, lf_q = None\<rparr> 1000 0)))))"

subsection \<open>Laws of the log queries\<close>

lemma sorted_newest: "sorted_wrt newest_first (order_by newest_first rows)"
  by (rule sorted_order_by) (auto simp: newest_first_def)

lemma get_logs_rows:
  assumes "get_logs parse tbl raw now rawHost gq s = Ok n rows"
  shows "int (length rows) \<le> 1000 \<and> sorted_wrt newest_first rows \<and>
    (\<forall>r \<in> set rows. status_in (gq_status gq) (lg_status_code r))"
proof -
  obtain host lmt ofs since until where l: "optional_int 1 (Some 1000) (gq_limit gq) = Some lmt"
    and r: "rows = query_logs parse tbl raw
      \<lparr>lf_host = host, lf_since = since, lf_until = until, lf_status = gq_status gq,
       lf_cache = gq_cache gq, lf_q = gq_q gq\<rparr> (or_else lmt 100) (or_else ofs 0)"
    using assms by (auto simp: get_logs_def split: option.splits if_splits prod.splits)
  let ?lf = "\<lparr>lf_host = host, lf_since = since, lf_until = until, lf_status = gq_status gq,
       lf_cache = gq_cache gq, lf_q = gq_q gq\<rparr>"
  have b: "0 \<le> or_else lmt 100" "or_else lmt 100 \<le> 1000"
    using l optional_int_range[of 1 "Some 1000" "gq_limit gq"] by (cases lmt; force simp: or_else_def)+
  obtain ys where y: "rows = sql_page (Some (or_else lmt 100)) (or_else ofs 0) (order_by newest_first ys)"
    "\<forall>x \<in> set ys. status_in (gq_status gq) (lg_status_code x)"
  proof (cases tbl)
    case None
    show ?thesis
      by (rule that[of "List.map_filter (proxy_row parse ?lf) (or_else raw [])"])
        (auto simp: r query_logs_def None fetchProxyLogs_def proxy_row_def Let_def List.map_filter_def
          split: option.splits if_splits)
  next
    case (Some t)
    show ?thesis
      by (rule that[of "map snd (filter (log_matches ?lf) t)"])
        (auto simp: r query_logs_def Some log_matches_def)
  qed
  have "int (length rows) \<le> 1000" 
    unfolding y(1) using order_trans[OF length_sql_page[OF b(1)] b(2)] .
  moreover have "sorted_wrt newest_first rows" unfolding y(1) by (rule sorted_sql_page[OF sorted_newest])
  moreover have "set rows \<subseteq> set ys"
    unfolding y(1) using set_sql_page mset_order_by[of newest_first ys] by (metis set_mset_mset)
  ultimately show ?thesis using y(2) by blast
qed

lemma top_limit_range: "1 \<le> top_limit raw \<and> top_limit raw \<le> 20"
  by (auto simp: top_limit_def split: option.splits jsnum.splits)

lemma length_top_urls:
  assumes "get_top_urls parse tbl raw now rawHost lmt period from to = Ok n us"
  shows "length us \<le> 20 \<and> sorted_wrt (\<lambda>a b. snd b \<le> snd a) us \<and> distinct (map fst us)"
proof -
  obtain rows where u: "us = take (nat \<lfloor>top_limit lmt\<rfloor>) (count_paths rows)"
    using assms by (auto simp: get_top_urls_def Let_def split: option.splits if_splits prod.splits)
  have "\<lfloor>top_limit lmt\<rfloor> \<le> 20" using top_limit_range[of lmt] by (simp add: floor_le_iff)
  then have "nat \<lfloor>top_limit lmt\<rfloor> \<le> 20" by linarith
  moreover have "sorted_wrt (\<lambda>a b. snd b \<le> snd a) (count_paths rows)"
    unfolding count_paths_def by (rule sorted_order_by) auto
  moreover have "distinct (map fst (count_paths rows))"
  proof -
    have "map fst (map (\<lambda>(p, g). (p, length g)) G) = map fst G" for G :: "(string \<times> log_row list) list"
      by (simp add: case_prod_unfold)
    then have "mset (map fst (count_paths rows)) = mset (map fst (group_by lg_path rows))"
      unfolding count_paths_def by (metis mset_map mset_order_by)
    then show ?thesis using distinct_group_by[of lg_path rows] by (metis mset_eq_imp_distinct_iff)
  qed
  ultimately show ?thesis
    unfolding u by (auto simp: sorted_wrt_take distinct_take simp flip: take_map)
qed


subsection \<open>The hours of the summary\<close>

text \<open>
  A host's list has an entry for the hours with traffic alone, and the loop takes its last entry for the
  current hour: with one entry per host all of them meet in the last bucket, whatever their hours.
\<close>

lemma merge_hourly_single:
  "list_all (\<lambda>r. length (su_hourly r) = 1) rs \<Longrightarrow>
     merge_hourly su_hourly rs = replicate 23 0 @ [sum_of (\<lambda>r. hd (su_hourly r)) rs]"
proof (induction rs rule: rev_induct)
  case Nil
  show ?case by (simp add: merge_hourly_def maxBuckets_def replicate_append_same flip: replicate_Suc)
next
  case (snoc r rs)
  then have l: "length (su_hourly r) = 1" by simp
  then obtain x where x: "su_hourly r = [x]" by (auto simp: length_Suc_conv)
  have m: "merge_hourly su_hourly (rs @ [r]) = add_buckets (merge_hourly su_hourly rs) (su_hourly r) (su_hourly r)"
    by (simp add: merge_hourly_def)
  show ?case
  proof (rule nth_equalityI)
    show "length (merge_hourly su_hourly (rs @ [r])) = length (replicate 23 0 @ [sum_of (\<lambda>r. hd (su_hourly r)) (rs @ [r])])"
      by (simp add: length_merge_hourly maxBuckets_def)
  next
    fix j
    assume "j < length (merge_hourly su_hourly (rs @ [r]))"
    then have j: "j < maxBuckets" by (simp add: length_merge_hourly)
    have "merge_hourly su_hourly (rs @ [r]) ! j = merge_hourly su_hourly rs ! j + (if 23 \<le> j then x else 0)"
      unfolding m by (subst add_buckets_nth[where f = su_hourly]) (use l x j in \<open>auto simp: maxBuckets_def\<close>)
    then show "merge_hourly su_hourly (rs @ [r]) ! j = (replicate 23 0 @ [sum_of (\<lambda>r. hd (su_hourly r)) (rs @ [r])]) ! j"
      using snoc x j by (auto simp: nth_append maxBuckets_def sum_of_def)
  qed
qed

end
