(* ===== verification/Events_Routes.thy ===== *)
theory Events_Routes
  imports Domain_Query
begin

section \<open>The routes of the optimization events\<close>

text \<open>
  \<open>routes/optimization-events.ts\<close>, and the URL breakdown of \<open>routes/domains.ts\<close>. An event of the
  batch is an object with primitive members, \<open>None\<close> for anything else.
\<close>

definition ALLOWED_EVENT_TYPES :: "string list" where
  "ALLOWED_EVENT_TYPES = [''media_cache'', ''image_optimize'', ''text_compress'', ''storage_evict'']"

definition ALLOWED_DECISIONS :: "string list" where
  "ALLOWED_DECISIONS =
     [''served_200'', ''served_206'', ''stored_new'', ''invalid_range_416'', ''served_stale_if_error'',
      ''optimized'', ''passthrough_larger'', ''passthrough_error'', ''passthrough_unsupported'',
      ''converted'', ''rejected_size'', ''skipped_small'', ''skipped_type'', ''error'',
      ''compressed_br'', ''compressed_gzip'',
      ''bypass_nocache'', ''bypass_size'', ''bypass_method'', ''bypass_other'', ''auto_evict'']"

subsection \<open>Looking up a period\<close>

text \<open>
  A property of an object literal that is not its own is looked up in \<open>Object.prototype\<close>, where it is a
  function or an object: not \<open>undefined\<close>, and \<open>NaN\<close> in arithmetic.
\<close>

datatype period_value = PSeconds int | PInherited | PMissing

definition prototype_keys :: "string list" where
  "prototype_keys = [''constructor'', ''hasOwnProperty'', ''isPrototypeOf'', ''propertyIsEnumerable'',
     ''toLocaleString'', ''toString'', ''valueOf'', ''__proto__'', ''__defineGetter__'', ''__defineSetter__'',
     ''__lookupGetter__'', ''__lookupSetter__'']"

definition PERIOD_TO_SEC :: "string \<Rightarrow> period_value" where
  "PERIOD_TO_SEC p =
     (if p = ''1h'' then PSeconds 3600 else if p = ''24h'' then PSeconds 86400
      else if p = ''7d'' then PSeconds (86400 * 7) else if p = ''30d'' then PSeconds (86400 * 30)
      else if p \<in> set prototype_keys then PInherited else PMissing)"

subsection \<open>POST /internal/events/batch\<close>

definition normalizeEventHost :: "string \<Rightarrow> string" where
  "normalizeEventHost raw =
     js_lower (rev (dropWhile (\<lambda>c. c = CHR ''.'') (rev (hd (split_on (CHR '':'') raw)))))"

record raw_event =
  re_ts :: jsprim
  re_event_type :: jsprim
  re_host :: jsprim
  re_url :: jsprim
  re_decision :: jsprim
  re_orig_size :: jsprim
  re_out_size :: jsprim
  re_range_header :: jsprim
  re_content_type :: jsprim
  re_elapsed_ms :: jsprim

text \<open>\<open>z.number().int().nonnegative()\<close>, and the nullable optional fields; \<open>None\<close> rejects.\<close>

definition nonneg_int :: "jsprim \<Rightarrow> int option" where
  "nonneg_int v =
     (case v of
        Num (Fin x) \<Rightarrow> if of_int \<lfloor>x\<rfloor> = x \<and> 0 \<le> \<lfloor>x\<rfloor> then Some \<lfloor>x\<rfloor> else None
      | _ \<Rightarrow> None)"

definition size_field :: "jsprim \<Rightarrow> int option option" where
  "size_field v = (if v = Undef \<or> v = Null then Some None else map_option Some (nonneg_int v))"

definition text_field :: "jsprim \<Rightarrow> string option option" where
  "text_field v = (case v of Undef \<Rightarrow> Some None | Null \<Rightarrow> Some None | Str s \<Rightarrow> Some (Some s) | _ \<Rightarrow> None)"

definition eventInputSchema :: "raw_event option \<Rightarrow> event_input option" where
  "eventInputSchema raw =
     (case raw of
        None \<Rightarrow> None
      | Some r \<Rightarrow>
          if (re_ts r = Undef \<or> is_str (re_ts r)) \<and>
             is_str (re_event_type r) \<and> str_of (re_event_type r) \<in> set ALLOWED_EVENT_TYPES \<and>
             is_str (re_host r) \<and> str_of (re_host r) \<noteq> [] \<and>
             is_str (re_url r) \<and> str_of (re_url r) \<noteq> [] \<and>
             is_str (re_decision r) \<and> str_of (re_decision r) \<in> set ALLOWED_DECISIONS
          then (case (size_field (re_orig_size r), size_field (re_out_size r), text_field (re_range_header r),
                      text_field (re_content_type r), nonneg_int (re_elapsed_ms r)) of
                  (Some orig, Some out, Some rng, Some ct, Some ms) \<Rightarrow>
                    Some \<lparr>ei_ts = (if re_ts r = Undef then None else Some (str_of (re_ts r))),
                      ei_event_type = str_of (re_event_type r), ei_host = normalizeEventHost (str_of (re_host r)),
                      ei_url = str_of (re_url r), ei_decision = str_of (re_decision r),
                      ei_orig_size = orig, ei_out_size = out, ei_range_header = rng, ei_content_type = ct,
                      ei_elapsed_ms = ms\<rparr>
                | _ \<Rightarrow> None)
          else None)"

definition eventBatchSchema :: "raw_event option list option \<Rightarrow> event_input list option" where
  "eventBatchSchema body =
     (case body of
        None \<Rightarrow> None
      | Some evs \<Rightarrow>
          if 1000 < length evs \<or> None \<in> set (map eventInputSchema evs) then None
          else Some (map (the \<circ> eventInputSchema) evs))"

definition post_batch ::
  "(string \<Rightarrow> string) \<Rightarrow> (string \<Rightarrow> int option) \<Rightarrow> int \<Rightarrow> raw_event option list option \<Rightarrow> events \<Rightarrow>
     events \<times> nat reply" where
  "post_batch hash parse now body s =
     (case eventBatchSchema body of
        None \<Rightarrow> (s, Reject 400 ''invalid_input'')
      | Some evs \<Rightarrow> (insertBatch hash parse now evs s, Ok 200 (length evs)))"

subsection \<open>GET /api/optimization/events\<close>

definition normalizeHostQuery :: "string option \<Rightarrow> string option" where
  "normalizeHostQuery raw =
     (case raw of
        None \<Rightarrow> None
      | Some s \<Rightarrow> let v = js_lower (js_trim s) in if v = [] then None else Some v)"

definition nonempty :: "string option \<Rightarrow> string option" where
  "nonempty raw = (if raw = Some [] then None else raw)"

record events_params =
  vp_type :: "string option"
  vp_host :: "string option"
  vp_decision :: "string option"
  vp_since :: "string option"
  vp_limit :: "string option"

definition get_events ::
  "(string \<Rightarrow> int option) \<Rightarrow> int \<Rightarrow> events_params \<Rightarrow> events \<Rightarrow> (event \<times> string) list reply" where
  "get_events parse now vp s =
     (if bad_value ([] # ALLOWED_EVENT_TYPES) id (vp_type vp) then Reject 400 ''invalid_type''
      else if bad_value ([] # ALLOWED_DECISIONS) id (vp_decision vp) then Reject 400 ''invalid_decision''
      else if (case vp_since vp of None \<Rightarrow> False | Some x \<Rightarrow> x \<noteq> [] \<and> parse x = None)
      then Reject 400 ''invalid_since''
      else (case optional_int 1 (Some 1000) (vp_limit vp) of
              None \<Rightarrow> Reject 400 ''invalid_input''
            | Some lmt \<Rightarrow>
                Ok 200 (query parse now
                  \<lparr>eq_event_type = nonempty (vp_type vp), eq_host = normalizeHostQuery (vp_host vp),
                   eq_decision = nonempty (vp_decision vp), eq_since = vp_since vp,
                   eq_limit = (case lmt of None \<Rightarrow> Undef | Some n \<Rightarrow> Num (Fin (of_int n)))\<rparr> s)))"

subsection \<open>GET /api/optimization/stats\<close>

text \<open>
  The reply has the seconds (absent in JSON for an inherited property), the total and the rows. With
  \<open>NaN\<close> as the start of the interval, which SQLite reads as \<open>NULL\<close>, no event matches.
\<close>

definition get_event_stats ::
  "int \<Rightarrow> string option \<Rightarrow> string option \<Rightarrow> string option \<Rightarrow> events \<Rightarrow>
     (int option \<times> int \<times> decision_stats list) reply" where
  "get_event_stats now typeRaw host period s =
     (if bad_value ([] # ALLOWED_EVENT_TYPES) id typeRaw then Reject 400 ''invalid_type''
      else (case PERIOD_TO_SEC (or_else period ''24h'') of
              PMissing \<Rightarrow> Reject 400 ''invalid_period''
            | PInherited \<Rightarrow> Ok 200 (None, 0, [])
            | PSeconds n \<Rightarrow>
                let rows = statsByDecision now \<lparr>sq_event_type = nonempty typeRaw,
                             sq_host = normalizeHostQuery host, sq_period_sec = Some n\<rparr> s
                in Ok 200 (Some n, sum_of ds_count rows, rows)))"

subsection \<open>GET /api/domains/:host/optimization/url-breakdown\<close>

record breakdown_params =
  up_period :: "string option"
  up_sort :: "string option"
  up_decision :: "string option"
  up_q :: "string option"
  up_limit :: "string option"
  up_offset :: "string option"

definition int_prim :: "int option \<Rightarrow> jsprim" where
  "int_prim n = (case n of None \<Rightarrow> Undef | Some i \<Rightarrow> Num (Fin (of_int i)))"

definition get_url_breakdown ::
  "int \<Rightarrow> string \<Rightarrow> breakdown_params \<Rightarrow> events \<Rightarrow> (nat \<times> breakdown_item list) reply" where
  "get_url_breakdown now rawHost up s =
     (case host_param rawHost of
        None \<Rightarrow> UriError
      | Some host \<Rightarrow>
          let pv = (if up_period up = Some [] then PSeconds 86400 else PERIOD_TO_SEC (or_else (up_period up) ''24h''))
          in if pv = PMissing then Reject 400 ''invalid_period''
             else if bad_value ([] # [''savings'', ''orig_size'', ''events'']) id (up_sort up)
             then Reject 400 ''invalid_sort''
             else if bad_value ([] # ALLOWED_DECISIONS) id (up_decision up) then Reject 400 ''invalid_decision''
             else (case optional_int 1 (Some 500) (up_limit up) of
                     None \<Rightarrow> Reject 400 ''invalid_input''
                   | Some lmt \<Rightarrow>
             (case optional_int 0 None (up_offset up) of
                None \<Rightarrow> Reject 400 ''invalid_input''
              | Some ofs \<Rightarrow>
                  (case pv of
                     PSeconds n \<Rightarrow>
                       Ok 200 (urlBreakdown now
                         \<lparr>bq_host = host, bq_period_sec = Some n, bq_sort = nonempty (up_sort up),
                          bq_decision = nonempty (up_decision up), bq_search = up_q up,
                          bq_limit = int_prim lmt, bq_offset = int_prim ofs\<rparr> s)
                   | _ \<Rightarrow> Ok 200 (0, [])))))"

subsection \<open>Laws\<close>

lemma hd_split_no_sep: "d \<notin> set (hd (split_on d s))"
proof (induction s)
  case (Cons c cs)
  then show ?case by (cases "split_on d cs") auto
qed simp

lemma of_char_lower:
  "(of_char (lower_char c) :: nat) =
     (if (65 \<le> (of_char c :: nat) \<and> (of_char c :: nat) \<le> 90) \<or>
         (192 \<le> (of_char c :: nat) \<and> (of_char c :: nat) \<le> 222 \<and> (of_char c :: nat) \<noteq> 215)
      then of_char c + 32 else of_char c)"
  by (auto simp: lower_char_def Let_def of_char_of)

lemma lower_char_punct:
  assumes "lower_char c = d" and "(of_char d :: nat) < 65"
  shows "c = d"
proof -
  have "(of_char c :: nat) = of_char d"
    using assms of_char_lower[of c] by (auto split: if_splits)
  then show ?thesis by (metis char_of_char)
qed

lemma normalizeEventHost_no_colon: "CHR '':'' \<notin> set (normalizeEventHost h)"
proof
  assume "CHR '':'' \<in> set (normalizeEventHost h)"
  then obtain c where "c \<in> set (hd (split_on (CHR '':'') h))" "lower_char c = CHR '':''"
    by (auto simp: normalizeEventHost_def js_lower_def dest!: set_dropWhileD)
  then show False using lower_char_punct[of c "CHR '':''"] hd_split_no_sep[of "CHR '':''" h] by auto
qed


lemma normalizeEventHost_lower [simp]: "js_lower (normalizeEventHost h) = normalizeEventHost h"
  by (simp add: normalizeEventHost_def)

lemma js_lower_no_trailing:
  assumes "x = [] \<or> last x \<noteq> CHR ''.''"
  shows "js_lower x = [] \<or> last (js_lower x) \<noteq> CHR ''.''"
proof (cases "x = []")
  case False
  have "lower_char (last x) \<noteq> CHR ''.''" using assms False lower_char_punct[of "last x" "CHR ''.''"] by auto
  then show ?thesis using False by (simp add: js_lower_def last_map)
qed simp

lemma normalizeEventHost_no_dot:
  "normalizeEventHost h = [] \<or> last (normalizeEventHost h) \<noteq> CHR ''.''"
proof -
  let ?y = "dropWhile (\<lambda>c. c = CHR ''.'') (rev (hd (split_on (CHR '':'') h)))"
  have "?y = [] \<or> hd ?y \<noteq> CHR ''.''" by (metis (full_types) hd_dropWhile)
  then have "rev ?y = [] \<or> last (rev ?y) \<noteq> CHR ''.''" by (simp add: last_rev)
  then show ?thesis unfolding normalizeEventHost_def by (rule js_lower_no_trailing)
qed

text \<open>What the schema of an event promises of its result.\<close>

definition event_input_ok :: "event_input \<Rightarrow> bool" where
  "event_input_ok ev \<longleftrightarrow>
     ei_event_type ev \<in> set ALLOWED_EVENT_TYPES \<and> ei_decision ev \<in> set ALLOWED_DECISIONS \<and>
     ei_url ev \<noteq> [] \<and> (\<exists>h. h \<noteq> [] \<and> ei_host ev = normalizeEventHost h) \<and>
     pred_option (\<lambda>n. 0 \<le> n) (ei_orig_size ev) \<and> pred_option (\<lambda>n. 0 \<le> n) (ei_out_size ev) \<and>
     0 \<le> ei_elapsed_ms ev"

lemma nonneg_int_ge: "nonneg_int v = Some n \<Longrightarrow> 0 \<le> n"
  by (auto simp: nonneg_int_def split: jsprim.splits jsnum.splits if_splits)

lemma size_field_ge: "size_field v = Some m \<Longrightarrow> pred_option (\<lambda>n. 0 \<le> n) m"
  by (auto simp: size_field_def nonneg_int_ge split: if_splits)

lemma eventInputSchema_ok: "eventInputSchema raw = Some ev \<Longrightarrow> event_input_ok ev"
  unfolding eventInputSchema_def event_input_ok_def
  by (auto split: option.splits if_splits dest: size_field_ge nonneg_int_ge)

lemma eventBatchSchema_ok:
  assumes "eventBatchSchema body = Some evs"
  shows "length evs \<le> 1000 \<and> list_all event_input_ok evs"
proof -
  obtain raws where "body = Some raws" "length raws \<le> 1000" "None \<notin> set (map eventInputSchema raws)"
    and "evs = map (the \<circ> eventInputSchema) raws"
    using assms by (auto simp: eventBatchSchema_def split: option.splits if_splits)
  then show ?thesis
    by (auto simp: list_all_iff image_iff intro!: eventInputSchema_ok)
qed


lemma event_row_ok:
  assumes "event_input_ok ev \<and> e = event_row hash parse now i ev"
  shows "e_event_type e \<in> set ALLOWED_EVENT_TYPES \<and> e_decision e \<in> set ALLOWED_DECISIONS \<and>
     pred_option (\<lambda>x. 0 \<le> x) (e_orig_size e) \<and> pred_option (\<lambda>x. 0 \<le> x) (e_out_size e) \<and>
     0 \<le> e_elapsed_ms e \<and> e_url e \<noteq> [] \<and> js_lower (e_host e) = e_host e \<and>
     CHR '':'' \<notin> set (e_host e) \<and> (e_host e = [] \<or> last (e_host e) \<noteq> CHR ''.'')"
proof -
  obtain h where "ei_host ev = normalizeEventHost h" using assms by (auto simp: event_input_ok_def)
  with assms normalizeEventHost_no_dot[of h] show ?thesis
    by (auto simp: event_input_ok_def event_row_def normalizeEventHost_no_colon)
qed

end
