(* ===== verification/Cache_Routes.thy ===== *)
theory Cache_Routes
  imports Events_Routes
begin

section \<open>The cache routes\<close>

text \<open>
  \<open>routes/cache.ts\<close>: the figures of the last day, the series for the charts, the popular entries and the
  purge. The answers of the storage service are arguments, \<open>None\<close> standing for a failed call; numbers
  that gRPC hands over as text are \<open>jsprim\<close> and go through \<open>Number\<close>.
\<close>

subsection \<open>GET /api/cache/stats\<close>

record cache_totals =
  ca_requests :: int
  ca_l1_hits :: int
  ca_l2_hits :: int
  ca_miss :: int
  ca_bm :: int
  ca_bn :: int
  ca_bs :: int
  ca_bo :: int

definition cache_totals_of :: "stats \<Rightarrow> cache_totals" where
  "cache_totals_of t =
     \<lparr>ca_requests = sum_of st_requests t, ca_l1_hits = sum_of st_l1_hits t, ca_l2_hits = sum_of st_l2_hits t,
      ca_miss = sum_of st_cache_misses t, ca_bm = sum_of st_bypass_method t, ca_bn = sum_of st_bypass_nocache t,
      ca_bs = sum_of st_bypass_size t, ca_bo = sum_of st_bypass_other t\<rparr>"

definition bypass_of :: "stat_row \<Rightarrow> int" where
  "bypass_of r = st_bypass_method r + st_bypass_nocache r + st_bypass_size r + st_bypass_other r"

record host_cache =
  hc_host :: string
  hc_requests :: int
  hc_l1_hits :: int
  hc_l2_hits :: int
  hc_bypass_total :: int
  hc_l1_hit_rate :: rat
  hc_edge_hit_rate :: rat

definition host_cache_of :: "string \<Rightarrow> stats \<Rightarrow> host_cache" where
  "host_cache_of h g =
     \<lparr>hc_host = h, hc_requests = sum_of st_requests g, hc_l1_hits = sum_of st_l1_hits g,
      hc_l2_hits = sum_of st_l2_hits g, hc_bypass_total = sum_of bypass_of g,
      hc_l1_hit_rate = ratio (sum_of st_l1_hits g) (sum_of st_requests g),
      hc_edge_hit_rate = ratio (sum_of st_l1_hits g + sum_of st_l2_hits g) (sum_of st_requests g)\<rparr>"

definition by_domain :: "stats \<Rightarrow> host_cache list" where
  "by_domain t =
     take 20 (order_by (\<lambda>a b. hc_requests b \<le> hc_requests a)
       (map (\<lambda>(h, g). host_cache_of h g) (group_by st_host t)))"

text \<open>Addition of numbers, and \<open>Number(x ?? 0)\<close>.\<close>

fun num_add :: "jsnum \<Rightarrow> jsnum \<Rightarrow> jsnum" where
  "num_add (Fin x) (Fin y) = Fin (x + y)"
| "num_add (Fin x) PosInf = PosInf"
| "num_add (Fin x) NegInf = NegInf"
| "num_add PosInf (Fin y) = PosInf"
| "num_add NegInf (Fin y) = NegInf"
| "num_add PosInf PosInf = PosInf"
| "num_add NegInf NegInf = NegInf"
| "num_add x y = NotANum"

definition number_or_zero :: "jsprim \<Rightarrow> jsnum" where
  "number_or_zero v = (if v = Undef \<or> v = Null then Fin 0 else js_Number v)"

record storage_stats =
  ss_used_bytes :: jsprim
  ss_total_bytes :: jsprim
  ss_file_counts :: "jsprim list option"

record disk_info =
  di_used_bytes :: jsnum
  di_max_bytes :: jsnum
  di_entry_count :: jsnum

definition disk_info_of :: "storage_stats option \<Rightarrow> disk_info" where
  "disk_info_of outcome =
     (case outcome of
        None \<Rightarrow> \<lparr>di_used_bytes = Fin 0, di_max_bytes = Fin 0, di_entry_count = Fin 0\<rparr>
      | Some s \<Rightarrow>
          \<lparr>di_used_bytes = number_or_zero (ss_used_bytes s), di_max_bytes = number_or_zero (ss_total_bytes s),
           di_entry_count =
             foldl (\<lambda>acc d. num_add acc (number_or_zero d)) (Fin 0) (or_else (ss_file_counts s) [])\<rparr>)"

record cache_stats =
  cs_totals :: cache_totals
  cs_bypass_total :: int
  cs_l1_hit_rate :: rat
  cs_edge_hit_rate :: rat
  cs_bypass_rate :: rat
  cs_disk :: disk_info
  cs_by_domain :: "host_cache list"

definition get_cache_stats :: "storage_stats option \<Rightarrow> int \<Rightarrow> stats \<Rightarrow> cache_stats" where
  "get_cache_stats outcome now t =
     (let recent = filter (\<lambda>r. now - 24 * 3600 \<le> st_timestamp r) t;
          total = cache_totals_of recent;
          bypassTotal = ca_bm total + ca_bn total + ca_bs total + ca_bo total;
          req = ca_requests total
      in \<lparr>cs_totals = total, cs_bypass_total = bypassTotal,
          cs_l1_hit_rate = ratio (ca_l1_hits total) req,
          cs_edge_hit_rate = ratio (ca_l1_hits total + ca_l2_hits total) req,
          cs_bypass_rate = ratio bypassTotal req,
          cs_disk = disk_info_of outcome, cs_by_domain = by_domain recent\<rparr>)"

subsection \<open>GET /api/cache/series\<close>

text \<open>\<open>RANGE_TABLE\<close> gives the window and the bucket; an inherited property gives neither.\<close>

datatype range_cfg = RCfg int int | RInherited | RMissing

definition RANGE_TABLE :: "string \<Rightarrow> range_cfg" where
  "RANGE_TABLE r =
     (if r = ''1h'' then RCfg 3600 60 else if r = ''24h'' then RCfg 86400 3600
      else if r \<in> set prototype_keys then RInherited else RMissing)"

record series_bucket =
  sb_ts :: rat
  sb_l1_hits :: int
  sb_l2_hits :: int
  sb_miss :: int
  sb_bypass :: int

definition series_row :: "rat \<times> stats \<Rightarrow> series_bucket" where
  "series_row = (\<lambda>(b, g).
     \<lparr>sb_ts = b * 1000, sb_l1_hits = sum_of st_l1_hits g, sb_l2_hits = sum_of st_l2_hits g,
      sb_miss = sum_of st_cache_misses g, sb_bypass = sum_of bypass_of g\<rparr>)"

definition get_cache_series ::
  "(int \<Rightarrow> int \<Rightarrow> rat) \<Rightarrow> int \<Rightarrow> string option \<Rightarrow> string option \<Rightarrow> stats \<Rightarrow> series_bucket list reply" where
  "get_cache_series bucket now rangeRaw host t =
     (case RANGE_TABLE (or_else rangeRaw ''1h'') of
        RMissing \<Rightarrow> Reject 400 ''invalid_range''
      | RInherited \<Rightarrow> Ok 200 []
      | RCfg windowSec bucketSec \<Rightarrow>
          Ok 200 (map series_row (order_by (\<lambda>a b. fst a \<le> fst b)
            (group_by (\<lambda>r. bucket bucketSec (st_timestamp r))
              (filter (\<lambda>r. now - windowSec \<le> st_timestamp r \<and>
                           (case host of None \<Rightarrow> True | Some h \<Rightarrow> h = [] \<or> st_host r = h)) t)))))"


subsection \<open>GET /api/cache/popular\<close>

record popular_entry =
  po_url :: "string option"
  po_size_bytes :: jsprim
  po_hit_count :: jsprim

definition popular_limit :: "string option \<Rightarrow> int option" where
  "popular_limit raw = (case raw of None \<Rightarrow> Some 20 | Some s \<Rightarrow> coerce_int 1 (Some 100) s)"

definition get_popular ::
  "url_parser \<Rightarrow> (int \<Rightarrow> popular_entry list option) \<Rightarrow> string option \<Rightarrow> string option \<Rightarrow> popular_entry list reply" where
  "get_popular parse popular limitRaw domain =
     (if domain = Some [] then Reject 400 ''invalid_input''
      else (case popular_limit limitRaw of
              None \<Rightarrow> Reject 400 ''invalid_input''
            | Some n \<Rightarrow>
                (case popular n of
                   None \<Rightarrow> Ok 200 []
                 | Some entries \<Rightarrow>
                     Ok 200 (case domain of
                               None \<Rightarrow> entries
                             | Some d \<Rightarrow>
                                 filter (\<lambda>e. map_option url_hostname (parse (or_else (po_url e) [])) = Some d) entries))))"

subsection \<open>DELETE /api/cache/purge\<close>

datatype purge_body = PbUrl string | PbDomain string | PbAll

text \<open>The members \<open>type\<close> and \<open>target\<close> of the body; \<open>None\<close> is a body that is no object.\<close>

definition purgeBodySchema :: "(jsprim \<times> jsprim) option \<Rightarrow> purge_body option" where
  "purgeBodySchema body =
     (case body of
        None \<Rightarrow> None
      | Some (ty, target) \<Rightarrow>
          if ty = Str ''url'' then (if is_str target \<and> str_of target \<noteq> [] then Some (PbUrl (str_of target)) else None)
          else if ty = Str ''domain''
          then (if is_str target \<and> str_of target \<noteq> [] then Some (PbDomain (str_of target)) else None)
          else if ty = Str ''all'' then Some PbAll else None)"

definition registered :: "domains \<Rightarrow> string \<Rightarrow> bool" where
  "registered t h = (h \<in> set (hosts_of t))"

text \<open>\<open>xs.join(sep)\<close>.\<close>

fun js_join :: "string \<Rightarrow> string list \<Rightarrow> string" where
  "js_join sep [] = []"
| "js_join sep [w] = w"
| "js_join sep (w # ws) = w @ sep @ js_join sep ws"

definition wildcard_candidates :: "string \<Rightarrow> string list" where
  "wildcard_candidates hostname =
     (let parts = split_on (CHR ''.'') hostname
      in (''*.'' @ hostname) # map (\<lambda>i. ''*.'' @ js_join ''.'' (drop i parts)) [1..<length parts])"

definition url_registered :: "domains \<Rightarrow> string \<Rightarrow> bool" where
  "url_registered t hostname =
     (registered t hostname \<or> list_ex (registered t) (wildcard_candidates hostname))"

text \<open>The check of the target: the error code, or the call to the storage service that is due.\<close>

datatype purge_call = PurgeUrl string | PurgeDomain string | PurgeAll

definition purge_check :: "url_parser \<Rightarrow> domains \<Rightarrow> purge_body \<Rightarrow> string + purge_call" where
  "purge_check parse t body =
     (case body of
        PbAll \<Rightarrow> Inr PurgeAll
      | PbDomain target \<Rightarrow>
          if registered t (normalizeHost target) then Inr (PurgeDomain (normalizeHost target))
          else Inl ''domain_not_registered''
      | PbUrl target \<Rightarrow>
          (case parse target of
             None \<Rightarrow> Inl ''invalid_url''
           | Some u \<Rightarrow>
               if url_protocol u \<noteq> ''http:'' \<and> url_protocol u \<noteq> ''https:'' then Inl ''invalid_url_scheme''
               else if normalizeHost (url_hostname u) = [] then Inl ''invalid_url''
               else if \<not> url_registered t (normalizeHost (url_hostname u)) then Inl ''domain_not_registered''
               else Inr (PurgeUrl target)))"

fun purge_kind :: "purge_call \<Rightarrow> string" where
  "purge_kind (PurgeUrl u) = ''url''"
| "purge_kind (PurgeDomain d) = ''domain''"
| "purge_kind PurgeAll = ''all''"

fun purge_target :: "purge_call \<Rightarrow> string" where
  "purge_target (PurgeUrl u) = u"
| "purge_target (PurgeDomain d) = d"
| "purge_target PurgeAll = ''*''"

text \<open>
  The handler: the state, the reply with the two counts, and the call it made. \<open>storage\<close> is the outcome
  of a call, the files and the bytes freed.
\<close>

definition purge ::
  "world \<Rightarrow> (purge_call \<Rightarrow> (jsprim \<times> jsprim) option) \<Rightarrow> (jsprim \<times> jsprim) option \<Rightarrow> conn \<Rightarrow>
     conn \<times> (jsnum \<times> jsnum) reply \<times> purge_call list" where
  "purge w storage rawBody c =
     (case purgeBodySchema rawBody of
        None \<Rightarrow> (c, Reject 400 ''invalid_input'', [])
      | Some body \<Rightarrow>
          (case purge_check (w_url w) (t_domains (c_db c)) body of
             Inl e \<Rightarrow> (c, Reject 400 e, [])
           | Inr call \<Rightarrow>
               (case storage call of
                  None \<Rightarrow> (c, Reject 502 ''storage_unreachable'', [call])
                | Some (files, bytes) \<Rightarrow>
                    (audit w (''cache.purge_'' @ purge_kind call) ''cache'' (purge_target call) None
                       (Some [(''purged_count'', ANum (js_Number files)), (''freed_bytes'', ANum (js_Number bytes))]) c,
                     Ok 200 (js_Number files, js_Number bytes), [call]))))"


subsection \<open>Laws\<close>

lemma js_join_split: "js_join [d] (split_on d s) = s"
proof (induction s)
  case (Cons c cs)
  obtain w ws where "split_on d cs = w # ws" by (metis split_on_nonempty list.exhaust)
  with Cons show ?case by (cases ws) auto
qed simp

lemma drop_tails:
  "(\<lambda>i. f (drop i (x # xs))) ` {1..<length (x # xs)} = (\<lambda>i. f (drop i xs)) ` {0..<length xs}"
proof -
  have s: "{1..<length (x # xs)} = Suc ` {0..<length xs}" by (simp add: image_Suc_atLeastLessThan)
  show ?thesis unfolding s image_image drop_Suc_Cons ..
qed

lemma set_dot_suffixes:
  "(\<lambda>i. js_join [d] (drop i (split_on d s))) ` {1..<length (split_on d s)} = {b. \<exists>p. s = p @ d # b}"
proof (induction s)
  case (Cons c cs)
  obtain w ws where s: "split_on d cs = w # ws" by (metis split_on_nonempty list.exhaust)
  have f: "{0..<length (w # ws)} = insert 0 {1..<length (w # ws)}" by auto
  show ?case
  proof (cases "c = d")
    case True
    then have "(\<lambda>i. js_join [d] (drop i (split_on d (c # cs)))) ` {1..<length (split_on d (c # cs))}
        = insert (js_join [d] (split_on d cs)) ((\<lambda>i. js_join [d] (drop i (split_on d cs))) ` {1..<length (split_on d cs)})"
      using drop_tails[of "js_join [d]" "[]" "w # ws"] unfolding f by (simp add: s)
    also have "\<dots> = {b. \<exists>p. c # cs = p @ d # b}"
      using True Cons by (auto simp: js_join_split Cons_eq_append_conv)
    finally show ?thesis .
  next
    case False
    then have "(\<lambda>i. js_join [d] (drop i (split_on d (c # cs)))) ` {1..<length (split_on d (c # cs))}
        = (\<lambda>i. js_join [d] (drop i (split_on d cs))) ` {1..<length (split_on d cs)}"
      unfolding s using drop_tails[of "js_join [d]" "c # w" ws] drop_tails[of "js_join [d]" w ws] by (simp add: s)
    also have "\<dots> = {b. \<exists>p. c # cs = p @ d # b}"
      using False Cons by (auto simp: Cons_eq_append_conv)
    finally show ?thesis .
  qed
qed simp

text \<open>A wildcard \<open>*.base\<close> is tried exactly for the bases that are the name itself or a parent of it.\<close>

lemma set_wildcard_candidates:
  "set (wildcard_candidates h) = {''*.'' @ b | b. b = h \<or> (\<exists>p. h = p @ ''.'' @ b)}"
proof -
  have "set (wildcard_candidates h) =
      insert (''*.'' @ h) ((\<lambda>b. ''*.'' @ b) ` ((\<lambda>i. js_join ''.'' (drop i (split_on (CHR ''.'') h)))
        ` {1..<length (split_on (CHR ''.'') h)}))"
    by (simp add: wildcard_candidates_def Let_def image_image)
  also have "\<dots> = {''*.'' @ b | b. b = h \<or> (\<exists>p. h = p @ ''.'' @ b)}"
    unfolding set_dot_suffixes by auto
  finally show ?thesis .
qed

definition covers :: "string \<Rightarrow> string \<Rightarrow> bool" where
  "covers d h = (d = h \<or> (\<exists>b. d = ''*.'' @ b \<and> (b = h \<or> (\<exists>p. h = p @ ''.'' @ b))))"

lemma url_registered_iff: "url_registered t h \<longleftrightarrow> (\<exists>d \<in> set t. covers (d_host d) h)"
  by (auto simp: url_registered_def registered_def list_ex_iff set_wildcard_candidates hosts_of_def image_iff covers_def)


text \<open>
  What a call to the storage service may be for: \<open>all\<close> was asked for in so many words, the domain is in
  the table, or the URL is one of HTTP and its host is in the table or below a wildcard of it.
\<close>

definition call_justified :: "url_parser \<Rightarrow> domains \<Rightarrow> (jsprim \<times> jsprim) option \<Rightarrow> purge_call \<Rightarrow> bool" where
  "call_justified parse t body call =
     (case call of
        PurgeAll \<Rightarrow> (case body of None \<Rightarrow> False | Some (ty, target) \<Rightarrow> ty = Str ''all'')
      | PurgeDomain h \<Rightarrow> h \<in> set (hosts_of t)
      | PurgeUrl s \<Rightarrow>
          (case parse s of
             None \<Rightarrow> False
           | Some u \<Rightarrow>
               url_protocol u \<in> {''http:'', ''https:''} \<and>
               (\<exists>d \<in> set t. covers (d_host d) (normalizeHost (url_hostname u)))))"

lemma purge_check_justified:
  assumes "purgeBodySchema raw = Some body" and "purge_check parse t body = Inr call"
  shows "call_justified parse t raw call"
proof (cases body)
  case (PbUrl s)
  with assms(2) show ?thesis
    by (auto simp: purge_check_def call_justified_def url_registered_iff split: option.splits if_splits)
next
  case (PbDomain s)
  with assms(2) show ?thesis
    by (auto simp: purge_check_def call_justified_def registered_def split: if_splits)
next
  case PbAll
  with assms show ?thesis
    by (auto simp: purge_check_def call_justified_def purgeBodySchema_def split: option.splits if_splits)
qed

lemma purge_result:
  assumes "purge w storage raw c = (c', r, calls)"
  shows "length calls \<le> 1 \<and> list_all (call_justified (w_url w) (t_domains (c_db c)) raw) calls \<and>
    (status_of r \<noteq> 200 \<longrightarrow> c' = c) \<and>
    (status_of r = 200 \<longrightarrow> calls \<noteq> [] \<and> (\<exists>a. c' = c\<lparr>c_db := (c_db c)\<lparr>t_audit := a\<rparr>\<rparr> \<and>
       (w_audit_ok w \<longrightarrow> length (au_rows a) = Suc (length (au_rows (t_audit (c_db c)))))))"
proof (cases "purgeBodySchema raw")
  case None
  with assms show ?thesis by (auto simp: purge_def)
next
  case (Some body)
  show ?thesis
  proof (cases "purge_check (w_url w) (t_domains (c_db c)) body")
    case (Inl e)
    with assms Some show ?thesis by (auto simp: purge_def)
  next
    case (Inr call)
    with assms Some purge_check_justified[OF Some Inr] show ?thesis
      by (cases "storage call") (auto simp: purge_def audit_def audit_insert_def)
  qed
qed

subsection \<open>Laws of the figures\<close>

lemma by_domain_top:
  "length (by_domain t) \<le> 20 \<and> sorted_wrt (\<lambda>a b. hc_requests b \<le> hc_requests a) (by_domain t) \<and>
   distinct (map hc_host (by_domain t))"
proof -
  let ?H = "map (\<lambda>(h, g). host_cache_of h g) (group_by st_host t)"
  have "map hc_host ?H = map fst (group_by st_host t)"
    by (simp add: host_cache_of_def case_prod_unfold del: keys_group_by)
  then have "distinct (map hc_host ?H)" by simp
  then have "distinct (map hc_host (order_by (\<lambda>a b. hc_requests b \<le> hc_requests a) ?H))"
    unfolding distinct_map_order_by .
  moreover have "sorted_wrt (\<lambda>a b. hc_requests b \<le> hc_requests a) (order_by (\<lambda>a b. hc_requests b \<le> hc_requests a) ?H)"
    by (rule sorted_order_by) auto
  ultimately show ?thesis
    by (simp add: by_domain_def sorted_wrt_take distinct_take flip: take_map)
qed

lemma sum_bypass: "sum_of bypass_of t =
    sum_of st_bypass_method t + sum_of st_bypass_nocache t + sum_of st_bypass_size t + sum_of st_bypass_other t"
  unfolding bypass_of_def[abs_def] by (simp add: sum_of_add)

lemma series_totals:
  assumes "get_cache_series bucket now rng host t = Ok n bs" and "RANGE_TABLE (or_else rng ''1h'') = RCfg win bsz"
  shows "sorted_wrt (\<lambda>a b. sb_ts a < sb_ts b) bs \<and>
    sum_of sb_l1_hits bs = sum_of st_l1_hits (filter (\<lambda>r. now - win \<le> st_timestamp r \<and>
                           (case host of None \<Rightarrow> True | Some h \<Rightarrow> h = [] \<or> st_host r = h)) t) \<and>
    sum_of sb_bypass bs = sum_of bypass_of (filter (\<lambda>r. now - win \<le> st_timestamp r \<and>
                           (case host of None \<Rightarrow> True | Some h \<Rightarrow> h = [] \<or> st_host r = h)) t)"
proof -
  let ?xs = "filter (\<lambda>r. now - win \<le> st_timestamp r \<and>
                           (case host of None \<Rightarrow> True | Some h \<Rightarrow> h = [] \<or> st_host r = h)) t"
  let ?G = "group_by (\<lambda>r. bucket bsz (st_timestamp r)) ?xs"
  let ?O = "order_by (\<lambda>a b. fst a \<le> fst b) ?G"
  have b: "bs = map series_row ?O" using assms by (simp add: get_cache_series_def)
  have s: "sum_of (\<lambda>x. f (series_row x)) ?O = sum_of g ?xs"
    if "\<And>k rs. f (series_row (k, rs)) = sum_of g rs" for f :: "series_bucket \<Rightarrow> int" and g
  proof -
    have "sum_of (\<lambda>x. f (series_row x)) ?O = sum_of (\<lambda>x. f (series_row x)) ?G"
      by (rule sum_of_mset_eq) simp
    also have "\<dots> = sum_of (\<lambda>(k, rs). sum_of g rs) ?G"
      by (rule sum_of_cong) (auto simp: that)
    finally show ?thesis by (simp add: sum_of_group_by)
  qed
  have "sorted_wrt (\<lambda>a b. sb_ts a < sb_ts b) bs"
    unfolding b sorted_wrt_map
    by (rule sorted_wrt_mono_rel[OF _ sorted_groups]) (auto simp: series_row_def)
  then show ?thesis
    using s[of sb_l1_hits st_l1_hits] s[of sb_bypass bypass_of] by (simp add: b o_def series_row_def)
qed

end
