(* ===== verification/Service_Routes.thy ===== *)
theory Service_Routes
  imports Cache_Routes
begin

section \<open>The routes of the other services\<close>

text \<open>
  \<open>routes/dns.ts\<close>, \<open>routes/optimizer.ts\<close>, \<open>routes/audit.ts\<close>, \<open>routes/internal.ts\<close>,
  \<open>routes/diagnose.ts\<close> and \<open>routes/proxy.ts\<close>. The answers of the gRPC services and of the proxy are
  arguments, \<open>None\<close> standing for a failed call.
\<close>

subsection \<open>DNS\<close>

record dns_stats =
  dz_uptime_secs :: jsprim
  dz_total_queries :: jsprim
  dz_matched :: jsprim
  dz_nxdomain :: jsprim
  dz_forwarded :: jsprim
  dz_top_domains :: "(string \<times> int) list"

record dns_status =
  dn_online :: bool
  dn_uptime_secs :: jsnum
  dn_total :: jsnum
  dn_matched :: jsnum
  dn_nxdomain :: jsnum
  dn_forwarded :: jsnum
  dn_top_domains :: "(string \<times> int) list"

definition get_dns_status :: "dns_stats option \<Rightarrow> dns_status" where
  "get_dns_status outcome =
     (case outcome of
        Some s \<Rightarrow> \<lparr>dn_online = True, dn_uptime_secs = js_Number (dz_uptime_secs s),
          dn_total = js_Number (dz_total_queries s), dn_matched = js_Number (dz_matched s),
          dn_nxdomain = js_Number (dz_nxdomain s), dn_forwarded = js_Number (dz_forwarded s),
          dn_top_domains = dz_top_domains s\<rparr>
      | None \<Rightarrow> \<lparr>dn_online = False, dn_uptime_secs = Fin 0, dn_total = Fin 0, dn_matched = Fin 0,
          dn_nxdomain = Fin 0, dn_forwarded = Fin 0, dn_top_domains = []\<rparr>)"

record dns_record =
  dr_host :: string
  dr_target :: string
  dr_rtype :: string
  dr_source :: string

definition get_dns_records :: "dns_record list option \<Rightarrow> dns_record list" where
  "get_dns_records outcome = or_else outcome []"

record dns_query =
  dq_ts_unix_ms :: jsprim
  dq_client_ip :: string
  dq_qname :: string
  dq_qtype :: string
  dq_result :: string
  dq_latency_us :: int

record dns_query_view =
  dv_ts_unix_ms :: jsnum
  dv_client_ip :: string
  dv_qname :: string
  dv_qtype :: string
  dv_result :: string
  dv_latency_us :: int

definition dns_view :: "dns_query \<Rightarrow> dns_query_view" where
  "dns_view e =
     \<lparr>dv_ts_unix_ms = js_Number (dq_ts_unix_ms e), dv_client_ip = dq_client_ip e, dv_qname = dq_qname e,
      dv_qtype = dq_qtype e, dv_result = dq_result e, dv_latency_us = dq_latency_us e\<rparr>"

definition get_dns_queries :: "(int \<Rightarrow> dns_query list option) \<Rightarrow> string option \<Rightarrow> dns_query_view list reply" where
  "get_dns_queries recent limitRaw =
     (case (case limitRaw of None \<Rightarrow> Some 100 | Some s \<Rightarrow> coerce_int 1 (Some 512) s) of
        None \<Rightarrow> Reject 400 ''invalid_input''
      | Some n \<Rightarrow> Ok 200 (map dns_view (or_else (recent n) [])))"

definition RANGE_MS :: "string \<Rightarrow> period_value" where
  "RANGE_MS r =
     (if r = ''1h'' then PSeconds (60 * 60 * 1000) else if r = ''24h'' then PSeconds (24 * 60 * 60 * 1000)
      else if r \<in> set prototype_keys then PInherited else PMissing)"

text \<open>The window in milliseconds; with \<open>NaN\<close> as its start the table has no row in it.\<close>

definition get_dns_metrics :: "int \<Rightarrow> string option \<Rightarrow> metrics \<Rightarrow> metrics reply" where
  "get_dns_metrics now rangeRaw t =
     (case RANGE_MS (or_else rangeRaw ''1h'') of
        PMissing \<Rightarrow> Reject 400 ''invalid_range''
      | PInherited \<Rightarrow> Ok 200 []
      | PSeconds ms \<Rightarrow> Ok 200 (metrics_range (now - ms) now t))"

subsection \<open>Optimizer\<close>

record profile =
  pf_domain :: string
  pf_quality :: int
  pf_max_width :: int
  pf_enabled :: bool

record profile_body =
  pr_quality :: jsprim
  pr_max_width :: jsprim
  pr_enabled :: jsprim
  pr_other_members :: bool

definition ranged_int :: "int \<Rightarrow> int \<Rightarrow> jsprim \<Rightarrow> int option" where
  "ranged_int lo hi v =
     (case v of
        Num (Fin x) \<Rightarrow> if of_int \<lfloor>x\<rfloor> = x \<and> lo \<le> \<lfloor>x\<rfloor> \<and> \<lfloor>x\<rfloor> \<le> hi then Some \<lfloor>x\<rfloor> else None
      | _ \<Rightarrow> None)"

definition profileBodySchema :: "profile_body option \<Rightarrow> (int \<times> int \<times> bool) option" where
  "profileBodySchema body =
     (case body of
        None \<Rightarrow> None
      | Some b \<Rightarrow>
          if pr_other_members b then None
          else (case (ranged_int 1 100 (pr_quality b), ranged_int 0 65535 (pr_max_width b), pr_enabled b) of
                  (Some q, Some mw, Bool en) \<Rightarrow> Some (q, mw, en)
                | _ \<Rightarrow> None))"

definition get_profiles :: "profile list option \<Rightarrow> profile list" where
  "get_profiles outcome = or_else outcome []"

text \<open>The reply and the profile that was sent; \<open>domainRepo\<close> is optional, and a failed call raises.\<close>

definition put_profile ::
  "domains option \<Rightarrow> (profile \<Rightarrow> bool) \<Rightarrow> string \<Rightarrow> profile_body option \<Rightarrow> unit reply \<times> profile list" where
  "put_profile repo set_ok rawDomain body =
     (case host_param rawDomain of
        None \<Rightarrow> (UriError, [])
      | Some d \<Rightarrow>
          if d = [] \<or> \<not> DOMAIN_RE d then (Reject 400 ''invalid_domain'', [])
          else (case profileBodySchema body of
                  None \<Rightarrow> (Reject 400 ''invalid_input'', [])
                | Some (q, mw, en) \<Rightarrow>
                    if (case repo of None \<Rightarrow> False | Some t \<Rightarrow> findByHost t d = None)
                    then (Reject 404 ''domain_not_found'', [])
                    else let p = \<lparr>pf_domain = d, pf_quality = q, pf_max_width = mw, pf_enabled = en\<rparr>
                         in (if set_ok p then Ok 204 () else Throw, [p])))"

record optimizer_stats =
  os_domain :: string
  os_original_bytes :: jsprim
  os_optimized_bytes :: jsprim
  os_count :: jsprim

definition get_optimization_stats :: "optimizer_stats list option \<Rightarrow> string option \<Rightarrow> optimizer_stats list" where
  "get_optimization_stats outcome domain =
     (case outcome of
        None \<Rightarrow> []
      | Some xs \<Rightarrow>
          (case domain of
             None \<Rightarrow> xs
           | Some d \<Rightarrow> if d = [] then xs else filter (\<lambda>s. os_domain s = d) xs))"


subsection \<open>Audit\<close>

record audit_params =
  ap_action :: "string option"
  ap_actor_user_id :: "string option"
  ap_target_type :: "string option"
  ap_target_id :: "string option"
  ap_from :: "string option"
  ap_to :: "string option"
  ap_limit :: "string option"
  ap_offset :: "string option"

text \<open>\<open>z.coerce.number().int().min(lo)...optional()\<close>; the outer \<open>None\<close> is the rejection.\<close>

definition optional_coerced :: "int \<Rightarrow> int option \<Rightarrow> string option \<Rightarrow> int option option" where
  "optional_coerced lo hi raw =
     (case raw of None \<Rightarrow> Some None | Some s \<Rightarrow> map_option Some (coerce_int lo hi s))"

definition audit_schema :: "audit_params \<Rightarrow> audit_query option" where
  "audit_schema a =
     (if ap_action a = Some [] \<or> ap_target_type a = Some [] \<or> ap_target_id a = Some [] then None
      else (case (optional_coerced 1 None (ap_actor_user_id a), optional_coerced 0 None (ap_from a),
                  optional_coerced 0 None (ap_to a), optional_coerced 1 (Some 1000) (ap_limit a),
                  optional_coerced 0 None (ap_offset a)) of
              (Some uid, Some from, Some to, Some lmt, Some ofs) \<Rightarrow>
                Some \<lparr>aq_action = ap_action a, aq_actor_user_id = map_option (\<lambda>n. Fin (of_int n)) uid,
                  aq_target_type = ap_target_type a, aq_target_id = ap_target_id a,
                  aq_from = map_option of_int from, aq_to = map_option of_int to,
                  aq_limit = Some (Fin (of_int (or_else lmt 50))),
                  aq_offset = Some (Fin (of_int (or_else ofs 0)))\<rparr>
            | _ \<Rightarrow> None))"

text \<open>\<open>JSON.parse\<close> of \<open>JSON.stringify\<close>: numbers that are not finite come back as \<open>null\<close>.\<close>

fun json_value :: "audit_value \<Rightarrow> audit_value" where
  "json_value (ANum x) = (if is_finite x then ANum x else ANull)"
| "json_value v = v"

definition json_object :: "audit_obj \<Rightarrow> audit_obj" where
  "json_object = map (\<lambda>(k, v). (k, json_value v))"

definition audit_view :: "audit_row \<Rightarrow> audit_row" where
  "audit_view r = r\<lparr>al_before := map_option json_object (al_before r),
                    al_after := map_option json_object (al_after r)\<rparr>"

definition get_audit :: "audit_params \<Rightarrow> audit_log \<Rightarrow> (audit_row list \<times> nat) reply" where
  "get_audit a s =
     (case audit_schema a of
        None \<Rightarrow> Reject 400 ''invalid_input''
      | Some q \<Rightarrow> (case audit_list q s of (rows, n) \<Rightarrow> Ok 200 (map audit_view rows, n)))"

subsection \<open>The snapshot for the proxy\<close>

record snapshot_row =
  sn_host :: string
  sn_origin :: string
  sn_enabled :: bool
  sn_description :: string

definition get_snapshot :: "domains \<Rightarrow> snapshot_row list" where
  "get_snapshot t =
     map (\<lambda>d. \<lparr>sn_host = d_host d, sn_origin = d_origin d, sn_enabled = (d_enabled d = 1),
               sn_description = d_description d\<rparr>) (findAll no_opts t)"

subsection \<open>Diagnosis of a URL\<close>

text \<open>\<open>[^\s#\x00-\x1f\x7f]\<close>.\<close>

definition safe_url_char :: "char \<Rightarrow> bool" where
  "safe_url_char c = (\<not> is_ws c \<and> c \<noteq> CHR ''#'' \<and> 32 \<le> (of_char c :: nat) \<and> (of_char c :: nat) \<noteq> 127)"

definition PATH_SAFE_RE :: "string \<Rightarrow> bool" where
  "PATH_SAFE_RE s = (starts_with ''/'' s \<and> list_all safe_url_char (drop 1 s))"

definition QUERY_SAFE_RE :: "string \<Rightarrow> bool" where
  "QUERY_SAFE_RE s = list_all safe_url_char s"

definition PERIOD_SEC :: "string \<Rightarrow> int option" where
  "PERIOD_SEC r =
     (if r = ''1h'' then Some 3600 else if r = ''24h'' then Some 86400
      else if r = ''7d'' then Some 604800 else None)"

text \<open>The path, the query and the seconds of the range.\<close>

definition diagnose_schema ::
  "string option \<Rightarrow> string option \<Rightarrow> string option \<Rightarrow> (string \<times> string \<times> int) option" where
  "diagnose_schema path qs rng =
     (case path of
        None \<Rightarrow> None
      | Some p \<Rightarrow>
          if starts_with ''/'' p \<and> length p \<le> 2048 \<and> PATH_SAFE_RE p \<and>
             length (or_else qs []) \<le> 4096 \<and> QUERY_SAFE_RE (or_else qs [])
          then map_option (\<lambda>n. (p, or_else qs [], n)) (PERIOD_SEC (or_else rng ''1h''))
          else None)"

definition hashUrl :: "(string \<Rightarrow> string) \<Rightarrow> string \<Rightarrow> string" where
  "hashUrl sha u = take 16 (sha u)"

definition cacheKey :: "(string \<Rightarrow> string) \<Rightarrow> string \<Rightarrow> string \<Rightarrow> string \<Rightarrow> string" where
  "cacheKey sha host path qs = sha (''GET:'' @ host @ path @ ''?'' @ qs)"

datatype origin_status = OriginOk | OriginDegraded | OriginDown

definition originStatus :: "int \<Rightarrow> int \<Rightarrow> int \<Rightarrow> origin_status option" where
  "originStatus error5xx timeouts sample =
     (if sample = 0 then None
      else let rate = (of_int (error5xx + timeouts) / of_int sample :: rat)
           in Some (if 1 / 2 \<le> rate then OriginDown else if 1 / 10 \<le> rate then OriginDegraded else OriginOk))"

text \<open>The storage service's entry, and the answer of the proxy, whose form is left open.\<close>

record storage_meta =
  md_exists :: bool
  md_size_bytes :: jsprim
  md_stored_at :: jsprim
  md_expires_at :: jsprim
  md_cached_headers :: "(string \<times> string) list"

record 'a diagnosis =
  dx_cdn :: "'a option"
  dx_origin_status :: "origin_status option"
  dx_avg_rtt_ms :: "int option"
  dx_error_5xx :: int
  dx_timeout_count :: int
  dx_origin_sample_count :: int
  dx_cache_copy :: "(bool \<times> jsprim \<times> jsprim \<times> jsprim) option"
  dx_response_headers :: "(string \<times> string) list option"
  dx_range_single :: int
  dx_range_multi :: int
  dx_range_none :: int
  dx_hit_ratio_pct :: "int option"
  dx_sample_count :: int

definition get_diagnose ::
  "(string \<Rightarrow> string) \<Rightarrow> (string \<Rightarrow> 'a option) \<Rightarrow> (string \<Rightarrow> storage_meta option) \<Rightarrow> int \<Rightarrow> string \<Rightarrow>
     string option \<Rightarrow> string option \<Rightarrow> string option \<Rightarrow> db \<Rightarrow> 'a diagnosis reply" where
  "get_diagnose sha proxy storage now rawHost pathRaw queryRaw rangeRaw s =
     (let host = normalizeHost rawHost
      in case diagnose_schema pathRaw queryRaw rangeRaw of
           None \<Rightarrow> Reject 400 ''invalid_input''
         | Some (path, qs, periodSec) \<Rightarrow>
             if \<not> registered (t_domains s) host then Reject 404 ''domain_not_found''
             else
               let key = cacheKey sha host path qs;
                   eventUrl = path @ (if qs = [] then [] else CHR ''?'' # qs);
                   meta = storage key;
                   agg = diagnoseAggregate (hashUrl sha) now host eventUrl periodSec (t_events s)
               in Ok 200 \<lparr>dx_cdn = proxy key,
                    dx_origin_status = originStatus (dg_error_5xx agg) (dg_timeout_count agg) (dg_origin_sample_count agg),
                    dx_avg_rtt_ms = dg_avg_origin_rtt_ms agg, dx_error_5xx = dg_error_5xx agg,
                    dx_timeout_count = dg_timeout_count agg, dx_origin_sample_count = dg_origin_sample_count agg,
                    dx_cache_copy = map_option (\<lambda>m. (md_exists m, md_size_bytes m, md_stored_at m, md_expires_at m)) meta,
                    dx_response_headers = map_option md_cached_headers meta,
                    dx_range_single = dg_range_single_count agg, dx_range_multi = dg_range_multi_count agg,
                    dx_range_none = dg_range_none_count agg, dx_hit_ratio_pct = dg_hit_ratio_pct agg,
                    dx_sample_count = dg_sample_count agg\<rparr>)"


subsection \<open>Proxy\<close>

record net_error =
  ne_code :: "string option"
  ne_message :: string

text \<open>The \<open>error_code\<close> of \<open>classifyProxyError\<close>; the Korean message follows from it.\<close>

definition classifyProxyError :: "net_error \<Rightarrow> string" where
  "classifyProxyError e =
     (if ne_code e = Some ''ECONNREFUSED'' then ''connection_refused''
      else if ne_code e \<in> {Some ''ENOTFOUND'', Some ''EAI_AGAIN''} then ''host_not_found''
      else if ne_code e \<in> {Some ''ETIMEDOUT'', Some ''ESOCKETTIMEDOUT'', Some ''ECONNABORTED''} then ''timeout''
      else if ne_code e \<in> {Some ''ECONNRESET'', Some ''EPIPE''} then ''connection_reset''
      else if ne_code e \<in> {Some ''CERT_HAS_EXPIRED'', Some ''CERT_NOT_YET_VALID''} then ''cert_expired''
      else if ne_code e \<in> {Some ''DEPTH_ZERO_SELF_SIGNED_CERT'', Some ''SELF_SIGNED_CERT_IN_CHAIN'',
                Some ''UNABLE_TO_VERIFY_LEAF_SIGNATURE'', Some ''UNABLE_TO_GET_ISSUER_CERT'',
                Some ''UNABLE_TO_GET_ISSUER_CERT_LOCALLY''} then ''cert_invalid''
      else if ne_code e = Some ''EPROTO'' \<or> js_includes ''ssl routines'' (nocase (ne_message e)) \<or>
              js_includes ''tlsv1 alert'' (nocase (ne_message e)) \<or> js_includes ''ssl3_'' (nocase (ne_message e))
      then ''tls_handshake_failed''
      else ''unknown'')"

definition RELEVANT_HEADERS :: "string list" where
  "RELEVANT_HEADERS = [''x-cache'', ''x-cache-status'', ''content-type'', ''cache-control'', ''etag'']"

record test_body =
  tb_domain :: jsprim
  tb_path :: jsprim
  tb_protocol :: jsprim

record test_request =
  tr_https :: bool
  tr_host :: jsprim
  tr_path :: string

datatype test_result =
    TestOk int "(string \<times> string) list"
  | TestFailed string

text \<open>
  The domain after normalization; the lookup in the table takes a number as the text SQLite gives it
  (\<open>sql_text\<close>) and cannot bind a truth value (\<open>None\<close>).
\<close>

definition test_domain :: "jsprim \<Rightarrow> jsprim" where
  "test_domain v = (case v of Str s \<Rightarrow> Str (normalizeHost s) | _ \<Rightarrow> v)"

definition test_lookup :: "(jsnum \<Rightarrow> string) \<Rightarrow> domains \<Rightarrow> jsprim \<Rightarrow> domain option option" where
  "test_lookup sql_text t v =
     (case v of
        Str s \<Rightarrow> Some (findByHost t s)
      | Num x \<Rightarrow> Some (findByHost t (sql_text x))
      | _ \<Rightarrow> None)"

definition bad_path :: "string \<Rightarrow> bool" where
  "bad_path p =
     (case decodeURIComponent p of
        None \<Rightarrow> True
      | Some decoded \<Rightarrow>
          js_includes ''..'' decoded \<or> starts_with ''//'' p \<or> js_includes ''@'' p \<or> \<not> starts_with ''/'' p)"

text \<open>The outcome of the request is its error, or its status and headers.\<close>

definition run_test ::
  "(test_request \<Rightarrow> net_error + int \<times> (string \<Rightarrow> string option)) \<Rightarrow> test_request \<Rightarrow> test_result" where
  "run_test send rq =
     (case send rq of
        Inl e \<Rightarrow> TestFailed (classifyProxyError e)
      | Inr (status, headers) \<Rightarrow>
          TestOk status (List.map_filter (\<lambda>k. map_option (\<lambda>v. (k, v)) (headers k)) RELEVANT_HEADERS))"

definition proxy_test ::
  "(jsnum \<Rightarrow> string) \<Rightarrow> domains option \<Rightarrow> (test_request \<Rightarrow> net_error + int \<times> (string \<Rightarrow> string option)) \<Rightarrow>
     test_body option \<Rightarrow> test_result reply \<times> test_request list" where
  "proxy_test sql_text repo send rawBody =
     (let body = or_else rawBody \<lparr>tb_domain = Undef, tb_path = Undef, tb_protocol = Undef\<rparr>
      in if \<not> truthy (tb_domain body) \<or> \<not> truthy (tb_path body) then (Reject 400 ''invalid_input'', [])
         else
           let domain = test_domain (tb_domain body);
               found = (case repo of None \<Rightarrow> Some True
                        | Some t \<Rightarrow> map_option (\<lambda>d. d \<noteq> None) (test_lookup sql_text t domain))
           in if found = None then (Throw, [])
              else if found = Some False then (Reject 400 ''domain_not_registered'', [])
              else if \<not> is_str (tb_path body) then (Throw, [])
              else if bad_path (str_of (tb_path body)) then (Reject 400 ''invalid_path'', [])
              else let rq = \<lparr>tr_https = (tb_protocol body = Str ''https''), tr_host = domain,
                             tr_path = str_of (tb_path body)\<rparr>
                   in (Ok 200 (run_test send rq), [rq]))"

subsection \<open>Laws\<close>

text \<open>What may be sent to the proxy: a registered host, and a path that cannot leave its root.\<close>

definition safe_request :: "(jsnum \<Rightarrow> string) \<Rightarrow> domains \<Rightarrow> test_request \<Rightarrow> bool" where
  "safe_request sql_text t rq \<longleftrightarrow>
     (\<exists>h \<in> set (hosts_of t). tr_host rq = Str h \<or> (\<exists>x. tr_host rq = Num x \<and> h = sql_text x)) \<and>
     starts_with ''/'' (tr_path rq) \<and> \<not> starts_with ''//'' (tr_path rq) \<and> \<not> js_includes ''@'' (tr_path rq) \<and>
     (\<exists>p. decodeURIComponent (tr_path rq) = Some p \<and> \<not> js_includes ''..'' p)"

lemma findByHost_hosts: "findByHost t h = Some d \<Longrightarrow> h \<in> set (hosts_of t)"
  using find_key_Some[of d_host h t d] by (auto simp: findByHost_def hosts_of_def)

lemma test_lookup_mem:
  "test_lookup sql_text t v = Some (Some d) \<Longrightarrow>
     \<exists>h \<in> set (hosts_of t). v = Str h \<or> (\<exists>x. v = Num x \<and> h = sql_text x)"
  by (auto simp: test_lookup_def split: jsprim.splits dest: findByHost_hosts)

lemma proxy_test_safe:
  assumes "proxy_test sql_text (Some t) send body = (r, rqs)"
  shows "length rqs \<le> 1 \<and> list_all (safe_request sql_text t) rqs \<and> (rqs = [] \<longleftrightarrow> status_of r \<noteq> 200)"
proof -
  let ?b = "or_else body \<lparr>tb_domain = Undef, tb_path = Undef, tb_protocol = Undef\<rparr>"
  let ?rq = "\<lparr>tr_https = (tb_protocol ?b = Str ''https''), tr_host = test_domain (tb_domain ?b),
                             tr_path = str_of (tb_path ?b)\<rparr>"
  have "(rqs = [] \<and> status_of r \<noteq> 200) \<or> (rqs = [?rq] \<and> status_of r = 200 \<and>
       (\<exists>d. test_lookup sql_text t (test_domain (tb_domain ?b)) = Some (Some d)) \<and> \<not> bad_path (str_of (tb_path ?b)))"
    using assms by (auto simp: proxy_test_def Let_def simp del: or_else_simps split: if_splits)
  then show ?thesis
  proof
    assume "rqs = [?rq] \<and> status_of r = 200 \<and>
       (\<exists>d. test_lookup sql_text t (test_domain (tb_domain ?b)) = Some (Some d)) \<and> \<not> bad_path (str_of (tb_path ?b))"
    then obtain d where a: "rqs = [?rq]" "status_of r = 200" "\<not> bad_path (str_of (tb_path ?b))"
      "test_lookup sql_text t (test_domain (tb_domain ?b)) = Some (Some d)" by blast
    have "safe_request sql_text t ?rq"
      unfolding safe_request_def using test_lookup_mem[OF a(4)] a(3)
      by (auto simp: bad_path_def split: option.splits)
    with a(1,2) show ?thesis by simp
  qed simp
qed

definition PROXY_ERROR_CODES :: "string list" where
  "PROXY_ERROR_CODES = [''connection_refused'', ''host_not_found'', ''timeout'', ''connection_reset'',
     ''cert_expired'', ''cert_invalid'', ''tls_handshake_failed'', ''unknown'']"

lemma classify_in: "classifyProxyError e \<in> set PROXY_ERROR_CODES"
  by (auto simp: classifyProxyError_def PROXY_ERROR_CODES_def)


lemma put_profile_sent:
  assumes "put_profile (Some t) set_ok raw body = (r, ps)"
  shows "(ps = [] \<longleftrightarrow> status_of r \<in> {400, 404}) \<and>
    (\<forall>p \<in> set ps. pf_domain p \<in> set (hosts_of t) \<and> DOMAIN_RE (pf_domain p) \<and>
       1 \<le> pf_quality p \<and> pf_quality p \<le> 100 \<and> 0 \<le> pf_max_width p \<and> pf_max_width p \<le> 65535)"
proof (cases "host_param raw")
  case None
  with assms show ?thesis by (auto simp: put_profile_def)
next
  case (Some d)
  show ?thesis
  proof (cases "profileBodySchema body")
    case None
    with assms Some show ?thesis by (auto simp: put_profile_def split: if_splits)
  next
    case b: (Some x)
    obtain q mw en where x: "x = (q, mw, en)" by (metis prod_cases3)
    have k: "1 \<le> q \<and> q \<le> 100 \<and> 0 \<le> mw \<and> mw \<le> 65535"
      using b x by (auto simp: profileBodySchema_def ranged_int_def split: option.splits if_splits jsprim.splits jsnum.splits)
    with assms Some b x show ?thesis
      by (cases "findByHost t d") (auto simp: put_profile_def Let_def dest: findByHost_hosts split: if_splits)
  qed
qed

lemma get_audit_ok:
  assumes "get_audit a s = Ok n (rows, k)"
  shows "int (length rows) \<le> 1000 \<and> sorted_wrt audit_row_le rows \<and> length rows \<le> k \<and> k \<le> length (au_rows s)"
proof -
  obtain q where q: "audit_schema a = Some q" and r: "rows = map audit_view (fst (audit_list q s))" "k = snd (audit_list q s)"
    using assms by (auto simp: get_audit_def split: option.splits prod.splits)
  have "sorted_wrt audit_row_le (map audit_view xs) = sorted_wrt audit_row_le xs" for xs
    by (simp add: sorted_wrt_map audit_row_le_def[abs_def] audit_view_def)
  moreover have "length (fst (audit_list q s)) \<le> snd (audit_list q s)"
    by (auto simp: audit_list_def Let_def sql_page_def split: option.splits)
  ultimately show ?thesis
    using r sorted_audit_list[of q s] length_audit_list[of q s] by (auto simp: audit_list_def Let_def)
qed

text \<open>
  The decisions that \<open>diagnoseAggregate\<close> counts as failures of the origin cannot come in: the batch
  route refuses them. So the status of the origin is never more than \<open>ok\<close>.
\<close>

definition ingested :: "events \<Rightarrow> bool" where
  "ingested s = list_all (\<lambda>e. e_decision e \<in> set ALLOWED_DECISIONS) (ev_rows s)"

lemma count_if_none: "(\<And>e. e \<in> set xs \<Longrightarrow> \<not> P e) \<Longrightarrow> count_if P xs = 0"
  by (simp add: count_if_def)

lemma ingested_no_failures:
  assumes "ingested s"
  shows "dg_error_5xx (diagnoseAggregate h now host url sec s) = 0 \<and>
    dg_timeout_count (diagnoseAggregate h now host url sec s) = 0"
proof -
  have a: "''origin_error_5xx'' \<notin> set ALLOWED_DECISIONS" "''origin_timeout'' \<notin> set ALLOWED_DECISIONS"
    by (simp_all add: ALLOWED_DECISIONS_def)
  have "e_decision e \<noteq> ''origin_error_5xx'' \<and> e_decision e \<noteq> ''origin_timeout''" if "e \<in> set (ev_rows s)" for e
    using that assms a by (auto simp: ingested_def list_all_iff)
  then show ?thesis
    unfolding diagnoseAggregate_def Let_def diagnose_row.select_convs
    by (intro conjI count_if_none) auto
qed

lemma ingested_status:
  assumes "ingested (t_events s)" and "get_diagnose sha proxy storage now host path qs rng s = Ok n d"
  shows "dx_error_5xx d = 0 \<and> dx_timeout_count d = 0 \<and> dx_origin_status d \<in> {None, Some OriginOk}"
proof -
  obtain p k where "dx_error_5xx d = dg_error_5xx (diagnoseAggregate (hashUrl sha) now (normalizeHost host) p k (t_events s))"
    "dx_timeout_count d = dg_timeout_count (diagnoseAggregate (hashUrl sha) now (normalizeHost host) p k (t_events s))"
    "dx_origin_status d = originStatus (dx_error_5xx d) (dx_timeout_count d) (dx_origin_sample_count d)"
    using assms(2) by (auto simp: get_diagnose_def Let_def split: option.splits if_splits prod.splits)
  with ingested_no_failures[OF assms(1)] show ?thesis
    by (auto simp: originStatus_def)
qed

lemma post_batch_ingested:
  assumes "ingested s" and "post_batch hash parse now body s = (s', r)"
  shows "ingested s'"
proof (cases "eventBatchSchema body")
  case None
  with assms show ?thesis by (auto simp: post_batch_def)
next
  case (Some evs)
  then have ok: "list_all event_input_ok evs" using eventBatchSchema_ok by blast
  have "e_decision e \<in> set ALLOWED_DECISIONS" if "e \<in> set (ev_rows (insertBatch hash parse now evs s))" for e
    using set_insertBatch[OF that] ok assms(1)
    by (auto simp: ingested_def list_all_iff event_input_ok_def event_row_def)
  with assms Some show ?thesis by (auto simp: post_batch_def ingested_def list_all_iff)
qed

text \<open>A path is checked for \<open>@\<close> and for a second slash before it is decoded.\<close>

lemma encoded_path_passes: "\<not> bad_path ''/%2Fevil%40x'' \<and> decodeURIComponent ''/%2Fevil%40x'' = Some ''//evil@x''"
  by code_simp

end
