(* ===== verification/Log_Stream.thy ===== *)
theory Log_Stream
  imports Events_Routes "HOL-Library.Word"
begin

section \<open>The container logs\<close>

text \<open>
  \<open>routes/logs.ts\<close>: the frames of the Docker stream, the lines, and the two ways of the route, the list
  and the stream of events. Bytes are \<open>8 word\<close>. Decoding a payload (\<open>Buffer.toString('utf8')\<close>, which
  leaves the Latin-1 range of the strings here) and \<open>JSON.parse\<close> of a line are function arguments.
\<close>

subsection \<open>Frames\<close>

type_synonym bytes = "8 word list"

definition readUInt32BE :: "bytes \<Rightarrow> nat \<Rightarrow> nat" where
  "readUInt32BE buf i =
     ((unat (buf ! i) * 256 + unat (buf ! (i + 1))) * 256 + unat (buf ! (i + 2))) * 256 + unat (buf ! (i + 3))"

definition subarray :: "nat \<Rightarrow> nat \<Rightarrow> bytes \<Rightarrow> bytes" where
  "subarray a b buf = drop a (take b buf)"

text \<open>
  The loop over the buffer, which \<open>stripDockerHeader\<close> and the stream share: the payloads, and the offset
  behind the last whole frame.
\<close>

function frames :: "bytes \<Rightarrow> nat \<Rightarrow> bytes list \<times> nat" where
  "frames buf i =
     (if i + 8 \<le> length buf then
        let n = readUInt32BE buf (i + 4)
        in if length buf < i + 8 + n then ([], i)
           else (case frames buf (i + 8 + n) of (ps, e) \<Rightarrow> (subarray (i + 8) (i + 8 + n) buf # ps, e))
      else ([], i))"
  by pat_completeness auto

termination
  by (relation "measure (\<lambda>(buf, i). length buf - i)") auto

declare frames.simps [simp del]

definition stripDockerHeader :: "(bytes \<Rightarrow> string) \<Rightarrow> bytes \<Rightarrow> string" where
  "stripDockerHeader utf8 chunk =
     (let lines = map utf8 (fst (frames chunk 0)) in if lines \<noteq> [] then concat lines else utf8 chunk)"

subsection \<open>Lines\<close>

definition ansi_digit :: "char \<Rightarrow> bool" where
  "ansi_digit c = (is_digit c \<or> c = CHR '';'')"

text \<open>The text behind the escape sequence \<open>\x1b\[[0-9;]*m\<close> at the head of the string.\<close>

definition ansi_rest :: "string \<Rightarrow> string option" where
  "ansi_rest s =
     (case s of
        e # b # r \<Rightarrow>
          if e = CHR 0x1B \<and> b = CHR ''['' then
            (case dropWhile ansi_digit r of
               [] \<Rightarrow> None
             | m # t \<Rightarrow> if m = CHR ''m'' then Some t else None)
          else None
      | _ \<Rightarrow> None)"

lemma ansi_rest_length: "ansi_rest s = Some t \<Longrightarrow> length t < length s"
proof -
  assume a: "ansi_rest s = Some t"
  then obtain e b r where s: "s = e # b # r" and d: "dropWhile ansi_digit r = CHR ''m'' # t"
    by (auto simp: ansi_rest_def split: list.splits if_splits)
  have "length (dropWhile ansi_digit r) \<le> length r" by (rule length_dropWhile_le)
  with s d show ?thesis by simp
qed

function strip_ansi :: "string \<Rightarrow> string" where
  "strip_ansi s =
     (case s of
        [] \<Rightarrow> []
      | c # cs \<Rightarrow> (case ansi_rest s of Some t \<Rightarrow> strip_ansi t | None \<Rightarrow> c # strip_ansi cs))"
  by pat_completeness auto

termination
  by (relation "measure length") (auto dest!: ansi_rest_length)

declare strip_ansi.simps [simp del]

datatype log_level = TRACE | DEBUG | INFO | WARN | ERROR

record log_line =
  ll_timestamp :: string
  ll_level :: log_level
  ll_message :: string
  ll_service :: string

text \<open>\<open>\d{4}-\d{2}-\d{2}T[\d:.Z]+\<close> at the head: the stamp and the rest.\<close>

definition stamp_char :: "char \<Rightarrow> bool" where
  "stamp_char c = (is_digit c \<or> c = CHR '':'' \<or> c = CHR ''.'' \<or> c = CHR ''Z'')"

definition date_head :: "string \<Rightarrow> bool" where
  "date_head s =
     (length s = 11 \<and> list_all (\<lambda>i. is_digit (s ! i)) [0, 1, 2, 3, 5, 6, 8, 9] \<and>
      s ! 4 = CHR ''-'' \<and> s ! 7 = CHR ''-'' \<and> s ! 10 = CHR ''T'')"

definition take_stamp :: "string \<Rightarrow> (string \<times> string) option" where
  "take_stamp s =
     (let t = takeWhile stamp_char (drop 11 s)
      in if date_head (take 11 s) \<and> t \<noteq> [] then Some (take 11 s @ t, drop (11 + length t) s) else None)"

text \<open>\<open>\s+\<close>, which is followed by no space in any of the patterns.\<close>

definition take_ws :: "string \<Rightarrow> string option" where
  "take_ws s = (case s of [] \<Rightarrow> None | c # cs \<Rightarrow> if is_ws c then Some (dropWhile is_ws cs) else None)"

definition level_words :: "(string \<times> log_level) list" where
  "level_words = [(''TRACE'', TRACE), (''DEBUG'', DEBUG), (''INFO'', INFO), (''WARN'', WARN), (''ERROR'', ERROR)]"

definition take_level :: "string \<Rightarrow> (log_level \<times> string) option" where
  "take_level s =
     map_option (\<lambda>(w, l). (l, drop (length w) s)) (List.find (\<lambda>(w, l). starts_with w s) level_words)"

text \<open>\<open>.+\<close> up to the end: not empty, with no line terminator.\<close>

definition rest_of_line :: "string \<Rightarrow> string option" where
  "rest_of_line s = (if s \<noteq> [] \<and> CHR 0x0A \<notin> set s \<and> CHR 0x0D \<notin> set s then Some s else None)"

definition level_message :: "string \<Rightarrow> (log_level \<times> string) option" where
  "level_message s =
     (case take_level s of
        None \<Rightarrow> None
      | Some (l, r) \<Rightarrow>
          (case take_ws r of
             None \<Rightarrow> None
           | Some m \<Rightarrow> map_option (\<lambda>t. (l, t)) (rest_of_line m)))"


text \<open>The four forms of a line, in the order of the code. The text of the second stamp is not used.\<close>

definition stamped :: "string \<Rightarrow> (string \<times> string) option" where
  "stamped s =
     (case take_stamp s of
        None \<Rightarrow> None
      | Some (t, r) \<Rightarrow> map_option (\<lambda>x. (t, x)) (take_ws r))"

definition dockerPlusRustMatch :: "string \<Rightarrow> (string \<times> log_level \<times> string) option" where
  "dockerPlusRustMatch clean =
     (case stamped clean of
        None \<Rightarrow> None
      | Some (t, r) \<Rightarrow>
          (case stamped r of
             None \<Rightarrow> None
           | Some (u, r') \<Rightarrow> map_option (\<lambda>(l, m). (t, l, m)) (level_message r')))"

definition singleMatch :: "string \<Rightarrow> (string \<times> log_level \<times> string) option" where
  "singleMatch clean =
     (case stamped clean of
        None \<Rightarrow> None
      | Some (t, r) \<Rightarrow> map_option (\<lambda>(l, m). (t, l, m)) (level_message r))"

definition pinoMatch :: "string \<Rightarrow> (string \<times> string) option" where
  "pinoMatch clean =
     (case stamped clean of
        None \<Rightarrow> None
      | Some (t, r) \<Rightarrow>
          if 3 \<le> length r \<and> hd r = CHR ''{'' \<and> last r = CHR ''}'' then map_option (\<lambda>x. (t, x)) (rest_of_line r)
          else None)"

fun num_ge :: "jsprim \<Rightarrow> rat \<Rightarrow> bool" where
  "num_ge (Num (Fin x)) y = (y \<le> x)"
| "num_ge (Num PosInf) y = True"
| "num_ge v y = False"

definition pino_level :: "jsprim \<Rightarrow> log_level" where
  "pino_level n =
     (if num_ge n 50 then ERROR else if num_ge n 40 then WARN else if num_ge n 30 then INFO
      else if num_ge n 20 then DEBUG else TRACE)"

definition guess_level :: "string \<Rightarrow> log_level" where
  "guess_level clean =
     (if js_includes ''error'' (nocase clean) then ERROR
      else if js_includes ''warn'' (nocase clean) then WARN
      else if js_includes ''debug'' (nocase clean) then DEBUG else INFO)"

text \<open>\<open>json\<close> gives the members \<open>level\<close> and \<open>msg\<close> of the parsed object, \<open>None\<close> for its exception.\<close>

definition parseLine :: "(string \<Rightarrow> (jsprim \<times> jsprim) option) \<Rightarrow> int \<Rightarrow> string \<Rightarrow> string \<Rightarrow> log_line option" where
  "parseLine json now svc raw =
     (let line = js_trim raw
      in if line = [] then None
         else
           let clean = js_trim (strip_ansi line);
               mk = (\<lambda>t l m. Some \<lparr>ll_timestamp = t, ll_level = l, ll_message = m, ll_service = svc\<rparr>);
               fallback = mk (toISOString now) (guess_level clean) clean
           in (case dockerPlusRustMatch clean of
                 Some (t, l, m) \<Rightarrow> mk t l m
               | None \<Rightarrow>
                   (case singleMatch clean of
                      Some (t, l, m) \<Rightarrow> mk t l m
                    | None \<Rightarrow>
                        (case pinoMatch clean of
                           None \<Rightarrow> fallback
                         | Some (t, text) \<Rightarrow>
                             (case json text of
                                None \<Rightarrow> fallback
                              | Some (level, msg) \<Rightarrow>
                                  mk t (pino_level level) (if is_str msg \<and> str_of msg \<noteq> [] then str_of msg else clean))))))"

definition text_lines :: "(string \<Rightarrow> (jsprim \<times> jsprim) option) \<Rightarrow> int \<Rightarrow> string \<Rightarrow> string \<Rightarrow> log_line list" where
  "text_lines json now svc text = List.map_filter (parseLine json now svc) (split_on (CHR 0x0A) text)"

subsection \<open>The stream of events\<close>

record sse =
  sse_buf :: bytes
  sse_closed :: bool
  sse_sent :: "log_line list"

definition sse_init :: sse where
  "sse_init = \<lparr>sse_buf = [], sse_closed = False, sse_sent = []\<rparr>"

datatype sse_event = Data bytes | End | StreamError | ClientClose

definition sse_step ::
  "(bytes \<Rightarrow> string) \<Rightarrow> (string \<Rightarrow> (jsprim \<times> jsprim) option) \<Rightarrow> int \<Rightarrow> string \<Rightarrow> sse_event \<Rightarrow> sse \<Rightarrow> sse" where
  "sse_step utf8 json now svc ev s =
     (if sse_closed s then s
      else (case ev of
              Data chunk \<Rightarrow>
                (case frames (sse_buf s @ chunk) 0 of
                   (ps, e) \<Rightarrow> s\<lparr>sse_buf := drop e (sse_buf s @ chunk),
                     sse_sent := sse_sent s @ concat (map (\<lambda>p. text_lines json now svc (utf8 p)) ps)\<rparr>)
            | _ \<Rightarrow> s\<lparr>sse_closed := True\<rparr>))"

definition sse_run ::
  "(bytes \<Rightarrow> string) \<Rightarrow> (string \<Rightarrow> (jsprim \<times> jsprim) option) \<Rightarrow> int \<Rightarrow> string \<Rightarrow> sse_event list \<Rightarrow> sse" where
  "sse_run utf8 json now svc evs = foldl (\<lambda>s ev. sse_step utf8 json now svc ev s) sse_init evs"

subsection \<open>GET /api/logs/:service\<close>

text \<open>The container of a service; an inherited property passes the test for a known service too.\<close>

datatype container = Container string | InheritedContainer

definition SERVICE_CONTAINER_MAP :: "string \<Rightarrow> string \<Rightarrow> container option" where
  "SERVICE_CONTAINER_MAP project svc =
     (case map_of [(''proxy'', ''-proxy-1''), (''storage'', ''-storage-service-1''), (''tls'', ''-tls-service-1''),
                   (''dns'', ''-dns-service-1''), (''optimizer'', ''-optimizer-service-1''),
                   (''admin'', ''-admin-server-1'')] svc of
        Some suffix \<Rightarrow> Some (Container (project @ suffix))
      | None \<Rightarrow> if svc \<in> set prototype_keys then Some InheritedContainer else None)"

record docker_request =
  dk_container :: container
  dk_tail :: int
  dk_follow :: bool

definition logs_request ::
  "string \<Rightarrow> string \<Rightarrow> string option \<Rightarrow> string option \<Rightarrow> string + docker_request" where
  "logs_request project svc tailRaw followRaw =
     (case SERVICE_CONTAINER_MAP project svc of
        None \<Rightarrow> Inl ''service_not_allowed''
      | Some ctn \<Rightarrow>
          (case (case tailRaw of None \<Rightarrow> Some 100 | Some s \<Rightarrow> coerce_int 1 (Some 500) s) of
             None \<Rightarrow> Inl ''invalid_input''
           | Some n \<Rightarrow> Inr \<lparr>dk_container = ctn, dk_tail = n, dk_follow = (followRaw \<noteq> Some ''false'')\<rparr>))"

text \<open>The reply without \<open>follow\<close>: the chunks of the whole response, or where it failed.\<close>

datatype docker_outcome = Body "bytes list" | SocketError | ResponseError

definition logs_reply ::
  "(bytes \<Rightarrow> string) \<Rightarrow> (string \<Rightarrow> (jsprim \<times> jsprim) option) \<Rightarrow> int \<Rightarrow> string \<Rightarrow> docker_outcome \<Rightarrow> log_line list reply" where
  "logs_reply utf8 json now svc outcome =
     (case outcome of
        SocketError \<Rightarrow> Reject 500 ''docker_socket_error''
      | ResponseError \<Rightarrow> Reject 500 ''docker_api_error''
      | Body chunks \<Rightarrow> Ok 200 (text_lines json now svc (stripDockerHeader utf8 (concat chunks))))"


subsection \<open>Laws\<close>

lemma frames_shift:
  assumes "k \<le> length buf"
  shows "frames buf (k + i) = (case frames (drop k buf) i of (ps, e) \<Rightarrow> (ps, k + e))"
proof -
  have "frames buf (k + i) = (case frames b i of (ps, e) \<Rightarrow> (ps, k + e))" if "b = drop k buf" for b
    using that
  proof (induction b i rule: frames.induct)
    case (1 b i)
    have n: "readUInt32BE buf (k + i + 4) = readUInt32BE b (i + 4)" if "i + 8 \<le> length b"
      using 1(2) assms that by (simp add: readUInt32BE_def ac_simps)
    have s: "subarray (k + x) (k + y) buf = subarray x y b" for x y
      using 1(2) by (simp add: subarray_def take_drop drop_drop add.commute)
    show ?case
      unfolding frames.simps[of buf "k + i"] frames.simps[of b i]
      using 1 assms n s[of "i + 8" "i + 8 + readUInt32BE b (i + 4)"]
      by (auto simp: Let_def add.assoc split: prod.splits)
  qed
  then show ?thesis by simp
qed

lemma frames_append:
  "frames buf i = (ps, e) \<Longrightarrow>
     frames (buf @ ext) i = (case frames (buf @ ext) e of (qs, e') \<Rightarrow> (ps @ qs, e'))"
proof (induction buf i arbitrary: ps e rule: frames.induct)
  case (1 buf i)
  let ?n = "readUInt32BE buf (i + 4)"
  show ?case
  proof (cases "i + 8 \<le> length buf \<and> i + 8 + ?n \<le> length buf")
    case True
    obtain qs e' where r: "frames buf (i + 8 + ?n) = (qs, e')" by (metis surj_pair)
    with 1(2) True have p: "ps = subarray (i + 8) (i + 8 + ?n) buf # qs" "e = e'"
      by (auto simp: frames.simps[of buf i] Let_def)
    have n: "readUInt32BE (buf @ ext) (i + 4) = ?n"
      using True by (simp add: readUInt32BE_def nth_append)
    have s: "subarray (i + 8) (i + 8 + ?n) (buf @ ext) = subarray (i + 8) (i + 8 + ?n) buf"
      using True by (simp add: subarray_def)
    have "frames (buf @ ext) (i + 8 + ?n) = (case frames (buf @ ext) e' of (zs, x) \<Rightarrow> (qs @ zs, x))"
      using 1(1) True r by simp
    then show ?thesis
      using True n s p by (subst frames.simps) (auto simp: Let_def split: prod.splits)
  next
    case False
    with 1(2) show ?thesis
      by (auto simp: frames.simps[of buf i] Let_def split: if_splits prod.splits)
  qed
qed

lemma frames_end: "i \<le> length buf \<Longrightarrow> snd (frames buf i) \<le> length buf"
proof (induction buf i rule: frames.induct)
  case (1 buf i)
  then show ?case
    by (subst frames.simps) (auto simp: Let_def split: prod.splits)
qed

text \<open>What the stream has sent after some chunks depends on their concatenation alone.\<close>

lemma sse_run_chunks:
  "sse_run utf8 json now svc (map Data cs) =
     \<lparr>sse_buf = drop (snd (frames (concat cs) 0)) (concat cs), sse_closed = False,
      sse_sent = concat (map (\<lambda>p. text_lines json now svc (utf8 p)) (fst (frames (concat cs) 0)))\<rparr>"
proof (induction cs rule: rev_induct)
  case Nil
  show ?case by (simp add: sse_run_def sse_init_def frames.simps)
next
  case (snoc c cs)
  obtain ps e where f: "frames (concat cs) 0 = (ps, e)" by (metis surj_pair)
  obtain qs e' where g: "frames (drop e (concat cs) @ c) 0 = (qs, e')" by (metis surj_pair)
  have e: "e \<le> length (concat cs)" using frames_end[of 0 "concat cs"] f by simp
  then have "frames (concat cs @ c) e = (qs, e + e')"
    using frames_shift[of e "concat cs @ c" 0] g by simp
  then have "frames (concat cs @ c) 0 = (ps @ qs, e + e')"
    using frames_append[OF f, of c] by simp
  moreover have "drop (e + e') (concat cs @ c) = drop e' (drop e (concat cs) @ c)"
    using e by (simp add: add.commute flip: drop_drop)
  ultimately show ?case
    using snoc f g by (simp add: sse_run_def sse_step_def)
qed

lemma parseLine_Nil [simp]: "parseLine json now svc [] = None"
  by (simp add: parseLine_def js_trim_def)

lemma split_on_snoc: "split_on d (x @ d # y) = split_on d x @ split_on d y"
proof (induction x)
  case (Cons c cs)
  then show ?case by (cases "split_on d cs") auto
qed simp

lemma map_filter_append: "List.map_filter f (xs @ ys) = List.map_filter f xs @ List.map_filter f ys"
  by (simp add: List.map_filter_def)

lemma text_lines_append:
  assumes "t \<noteq> []" "last t = CHR 0x0A"
  shows "text_lines json now svc (t @ u) = text_lines json now svc t @ text_lines json now svc u"
proof -
  obtain x where x: "t = x @ [CHR 0x0A]" using assms by (metis append_butlast_last_id)
  show ?thesis
    using split_on_snoc[of "CHR 0x0A" x u] split_on_snoc[of "CHR 0x0A" x "[]"]
    by (simp add: text_lines_def x map_filter_append map_filter_simps)
qed

lemma text_lines_concat:
  "list_all (\<lambda>t. t \<noteq> [] \<and> last t = CHR 0x0A) ts \<Longrightarrow>
     text_lines json now svc (concat ts) = concat (map (text_lines json now svc) ts)"
proof (induction ts)
  case Nil
  show ?case by (simp add: text_lines_def map_filter_simps)
qed (simp add: text_lines_append)


text \<open>The documented form of a frame: the stream, three zero bytes, the length, the payload.\<close>

definition be32 :: "nat \<Rightarrow> bytes" where
  "be32 n = [word_of_nat (n div 16777216), word_of_nat (n div 65536), word_of_nat (n div 256), word_of_nat n]"

definition docker_frame :: "8 word \<times> bytes \<Rightarrow> bytes" where
  "docker_frame = (\<lambda>(st, p). [st, 0, 0, 0] @ be32 (length p) @ p)"

lemma be32_value:
  assumes "n < 4294967296"
  shows "(((n div 16777216 :: nat) mod 256 * 256 + (n div 65536) mod 256) * 256 + (n div 256) mod 256) * 256 + n mod 256 = n"
proof -
  have d: "n div 65536 = n div 256 div 256" "n div 16777216 = n div 256 div 256 div 256"
    using div_mult2_eq[of n 256 256] div_mult2_eq[of n 65536 256] by simp_all
  have "n div 256 div 256 div 256 < 256"
    using assms less_mult_imp_div_less[of n 256 16777216] unfolding d(2)[symmetric] by simp
  then show ?thesis unfolding d by (simp add: div_mult_mod_eq)
qed

lemma read_header: "readUInt32BE (x # y # z # w # a # b # c # d # r) 4 =
    ((unat a * 256 + unat b) * 256 + unat c) * 256 + unat d"
  by (simp add: readUInt32BE_def)

lemma unat_byte: "unat (word_of_nat n :: 8 word) = n mod 256"
  by (simp add: unat_of_nat)

lemma read_frame:
  assumes "length p < 4294967296"
  shows "readUInt32BE (docker_frame (st, p) @ r) 4 = length p"
  using be32_value[OF assms]
  by (simp only: docker_frame_def be32_def prod.case append_Cons append_Nil read_header unat_byte)

lemma length_docker_frame: "length (docker_frame (st, p)) = 8 + length p"
  by (simp add: docker_frame_def be32_def)

lemma frames_docker_frame:
  assumes "length p < 4294967296"
  shows "frames (docker_frame (st, p) @ r) 0 = (case frames r 0 of (ps, e) \<Rightarrow> (p # ps, 8 + length p + e))"
proof -
  have "subarray 8 (8 + length p) (docker_frame (st, p) @ r) = p"
  proof -
    obtain h where "docker_frame (st, p) = h @ p" "length h = 8"
      by (simp add: docker_frame_def be32_def)
    then show ?thesis by (simp add: subarray_def)
  qed
  moreover have "frames (docker_frame (st, p) @ r) (8 + length p) = (case frames r 0 of (ps, e) \<Rightarrow> (ps, 8 + length p + e))"
    using frames_shift[of "8 + length p" "docker_frame (st, p) @ r" 0] length_docker_frame[of st p] by simp
  ultimately show ?thesis
    using read_frame[OF assms, of st r] length_docker_frame[of st p]
    by (subst frames.simps) (simp add: Let_def split: prod.splits)
qed

lemma frames_roundtrip:
  "list_all (\<lambda>(st, p). length p < 4294967296) fs \<Longrightarrow>
     frames (concat (map docker_frame fs)) 0 = (map snd fs, length (concat (map docker_frame fs)))"
proof (induction fs)
  case Nil
  show ?case by (simp add: frames.simps)
next
  case (Cons f fs)
  then show ?case
    using frames_docker_frame[of "snd f" "fst f" "concat (map docker_frame fs)"] length_docker_frame[of "fst f" "snd f"]
    by (simp add: case_prod_unfold)
qed

end
