(* ===== verification/Route_Properties.thy ===== *)
theory Route_Properties
  imports Service_Routes Log_Stream
begin

section \<open>Properties of the reading, ingest and service routes\<close>

text \<open>
  The properties of the routes beside the write routes of domains and the accounts: the ingest of events,
  the purge, the proxy test, the diagnosis, the lists and figures, and the logs of the containers. Each is
  a few steps over the laws of its component.
\<close>

subsection \<open>Ingest\<close>


definition sample_raw :: "string \<Rightarrow> raw_event" where
  "sample_raw d = \<lparr>re_ts = Undef, re_event_type = Str ''media_cache'', re_host = Str ''A.com:80'', re_url = Str ''/x'',
     re_decision = Str d, re_orig_size = Null, re_out_size = Num (Fin 3), re_range_header = Undef,
     re_content_type = Undef, re_elapsed_ms = Num (Fin 0)\<rparr>"

definition no_events :: events where
  "no_events = \<lparr>ev_rows = [], ev_seq = 0\<rparr>"


subsection \<open>Purge\<close>

text \<open>
  C23. A purge never reaches the storage service for a foreign host: at most one call is made, a URL's host
  is in the table or below a registered wildcard, a domain is in the table, and everything is purged only
  when the body says \<open>all\<close>. Without success the state is unchanged; with success the only change is the
  audit entry.
\<close>

theorem purge_only_registered:
  assumes "purge w storage raw c = (c', r, calls)"
  shows "length calls \<le> 1 \<and> list_all (call_justified (w_url w) (t_domains (c_db c)) raw) calls \<and>
    (status_of r \<noteq> 200 \<longrightarrow> c' = c) \<and>
    (status_of r = 200 \<longrightarrow> calls \<noteq> [] \<and> (\<exists>a. c' = c\<lparr>c_db := (c_db c)\<lparr>t_audit := a\<rparr>\<rparr> \<and>
       (w_audit_ok w \<longrightarrow> length (au_rows a) = Suc (length (au_rows (t_audit (c_db c)))))))"
  by (rule purge_result[OF assms])

definition route_url :: url_parser where
  "route_url s =
     (if starts_with ''http://'' s
      then Some \<lparr>url_protocol = ''http:'', url_hostname = drop 7 s, url_pathname = ''/'', url_search = [],
                 url_hash = [], url_origin = s\<rparr>
      else None)"

definition route_world :: world where
  "route_world =
     \<lparr>w_now = 100, w_later = 200, w_proxy_ok = True, w_tls_ok = True, w_dns_ok = True,
      w_profile_ok = (\<lambda>_. True), w_remove_ok = (\<lambda>_. True), w_purge_ok = (\<lambda>_. True), w_audit_ok = True,
      w_url = route_url, w_insert_err = (\<lambda>_ _. None), w_num_text = (\<lambda>_. ''0''), w_sub = Some ''1'',
      w_ip = ''::1''\<rparr>"

definition route_db :: db where
  "route_db =
     \<lparr>t_domains = [new_domain 10 ''*.b.com'' ''http://o'' []], t_stats = [], t_events = no_events,
      t_users = \<lparr>us_rows = [], us_seq = 0\<rparr>, t_audit = \<lparr>au_rows = [], au_seq = 0\<rparr>\<rparr>"

lemma purge_only_registered_witness:
  "(case purge route_world (\<lambda>_. Some (Num (Fin 2), Str ''10'')) (Some (Str ''url'', Str ''http://x.b.com''))
          \<lparr>c_db = route_db, c_saved = None\<rparr> of
      (c', r, calls) \<Rightarrow> status_of r = 200 \<and> length (au_rows (t_audit (c_db c'))) = 1)"
proof -
  let ?p = "purge route_world (\<lambda>_. Some (Num (Fin 2), Str ''10'')) (Some (Str ''url'', Str ''http://x.b.com''))
          \<lparr>c_db = route_db, c_saved = None\<rparr>"
  obtain c' r calls where x: "?p = (c', r, calls)" by (metis prod_cases3)
  have "(case ?p of (c', r, calls) \<Rightarrow> status_of r) = 200" by code_simp
  then have s: "status_of r = 200" using x by simp
  have "w_audit_ok route_world" by (simp add: route_world_def)
  with purge_only_registered[OF x] s x show ?thesis by (auto simp: route_db_def)
qed


subsection \<open>Proxy test\<close>


definition sample_send :: "test_request \<Rightarrow> net_error + int \<times> (string \<Rightarrow> string option)" where
  "sample_send rq = Inl \<lparr>ne_code = Some ''EPIPE'', ne_message = []\<rparr>"


subsection \<open>Diagnosis\<close>

text \<open>
  C25. The decisions that the diagnosis counts as failures of the origin are not in the white list of the
  ingest: starting from a table of white-listed decisions, no batch and no diagnosis after it ever shows
  an error of the origin, so the status is \<open>ok\<close> or missing, never \<open>degraded\<close> or \<open>down\<close>.
\<close>

theorem origin_never_degraded:
  assumes "ingested (t_events s)"
    and "post_batch hash parse now body (t_events s) = (ev, r)"
    and "get_diagnose sha proxy storage now' host path qs rng (s\<lparr>t_events := ev\<rparr>) = Ok n d"
  shows "dx_error_5xx d = 0 \<and> dx_timeout_count d = 0 \<and> dx_origin_status d \<in> {None, Some OriginOk}"
  using ingested_status[OF _ assms(3)] post_batch_ingested[OF assms(1,2)] by simp

definition diag_db :: db where
  "diag_db = route_db\<lparr>t_domains := [new_domain 10 ''a.com'' ''http://o'' []]\<rparr>"

lemma origin_never_degraded_witness:
  "(case get_diagnose id (\<lambda>_. None :: nat option) (\<lambda>_. None) 6 ''a.com'' (Some ''/x'') None None
      (diag_db\<lparr>t_events := fst (post_batch id (\<lambda>_. None) 5 (Some [Some (sample_raw ''stored_new'')]) no_events)\<rparr>) of
     Ok n d \<Rightarrow> dx_origin_status d \<in> {None, Some OriginOk} | _ \<Rightarrow> False)"
proof -
  let ?b = "post_batch id (\<lambda>_. None) 5 (Some [Some (sample_raw ''stored_new'')]) no_events"
  let ?g = "get_diagnose id (\<lambda>_. None :: nat option) (\<lambda>_. None) 6 ''a.com'' (Some ''/x'') None None
      (diag_db\<lparr>t_events := fst ?b\<rparr>)"
  have "status_of ?g = 200" by code_simp
  moreover have "dx_origin_status d \<in> {None, Some OriginOk}" if g: "?g = Ok n d" for n d
  proof -
    have i: "ingested (t_events diag_db)" by code_simp
    have p: "post_batch id (\<lambda>_. None) 5 (Some [Some (sample_raw ''stored_new'')]) (t_events diag_db) = (fst ?b, snd ?b)"
      by (simp add: diag_db_def route_db_def)
    from origin_never_degraded[OF i p g] show ?thesis by blast
  qed
  moreover have "\<forall>e. ?g \<noteq> Reject 200 e"
    by (auto simp: get_diagnose_def Let_def split: option.splits prod.splits if_splits)
  ultimately show ?thesis by (cases ?g) auto
qed

subsection \<open>Lists\<close>

text \<open>
  A list of domains that is answered honours its query: the rows are those of the table, for the text
  asked for, sorted by the column and in the direction named, and no more than the limit named.
\<close>

theorem list_query_honoured:
  assumes "list_domains lq t = Ok n rows"
  shows "n = 200 \<and> set rows \<subseteq> set t \<and>
     (\<exists>fo. rows = findAll fo t \<and> f_q fo = lsq_q lq \<and>
       (lsq_sort lq \<noteq> None \<longrightarrow> Some (sort_col fo) = lsq_sort lq) \<and>
       (lsq_order lq \<noteq> None \<longrightarrow> map_option js_lower (lsq_order lq) = Some (js_lower (sort_dir fo)))) \<and>
     (\<forall>l. lsq_limit lq = Some l \<and> l \<noteq> [] \<longrightarrow>
        (\<exists>k. coerce_int 1 None l = Some k \<and> int (length rows) \<le> k))"
  by (rule list_domains_ok[OF assms])

definition sample_list_query :: "string \<Rightarrow> list_query" where
  "sample_list_query l = \<lparr>lsq_q = None, lsq_enabled = Some ''YES'', lsq_sort = Some ''host'', lsq_order = Some ''Desc'',
     lsq_limit = Some l, lsq_offset = None\<rparr>"

lemma list_query_honoured_witness:
  "(case list_domains (sample_list_query ''1'') [new_domain 1 ''a.com'' ''x'' [], new_domain 1 ''b.com'' ''x'' []] of
      Ok n rows \<Rightarrow> int (length rows) \<le> 1 | _ \<Rightarrow> False)"
proof -
  let ?g = "list_domains (sample_list_query ''1'') [new_domain 1 ''a.com'' ''x'' [], new_domain 1 ''b.com'' ''x'' []]"
  have "(case ?g of Ok n rows \<Rightarrow> True | _ \<Rightarrow> False)" by code_simp
  then obtain n rows where g: "?g = Ok n rows" by (cases ?g) auto
  have "coerce_int 1 None ''1'' = Some 1" by code_simp
  with list_query_honoured[OF g] g show ?thesis by (auto simp: sample_list_query_def)
qed

text \<open>
  The logs of a host come newest first, at most a thousand, and with the class of status that was
  asked for, from the table or, without one, from the proxy's buffer.
\<close>

theorem host_logs_bounded:
  assumes "get_logs parse tbl raw now rawHost gq s = Ok n rows"
  shows "int (length rows) \<le> 1000 \<and> sorted_wrt newest_first rows \<and>
    (\<forall>r \<in> set rows. status_in (gq_status gq) (lg_status_code r))"
  by (rule get_logs_rows[OF assms])

definition sample_logs_query :: logs_query where
  "sample_logs_query = \<lparr>gq_limit = Some ''5'', gq_offset = None, gq_status = Some ''5xx'', gq_cache = None,
     gq_period = None, gq_from = None, gq_to = None, gq_q = None\<rparr>"

definition sample_log :: "string \<Rightarrow> int \<Rightarrow> proxy_log" where
  "sample_log ts code = \<lparr>pl_host = ''a.com'', pl_url = ''/x?y'', pl_status_code = code, pl_timestamp = ts,
     pl_cache_status = ''hit'', pl_size = None\<rparr>"

lemma host_logs_bounded_witness:
  "(case get_logs (\<lambda>t. Some (int (length t) * 1000)) None (Some [sample_log ''a'' 500, sample_log ''aa'' 502, sample_log ''aaa'' 200])
        9 ''a.com'' sample_logs_query diag_db of
      Ok n rows \<Rightarrow> sorted_wrt newest_first rows \<and> length rows = 2 | _ \<Rightarrow> False)"
proof -
  let ?g = "get_logs (\<lambda>t. Some (int (length t) * 1000)) None
     (Some [sample_log ''a'' 500, sample_log ''aa'' 502, sample_log ''aaa'' 200]) 9 ''a.com'' sample_logs_query diag_db"
  have "(case ?g of Ok n rows \<Rightarrow> length rows = 2 | _ \<Rightarrow> False)" by code_simp
  then obtain n rows where g: "?g = Ok n rows" "length rows = 2" by (cases ?g) auto
  with host_logs_bounded[OF g(1)] show ?thesis by simp
qed


subsection \<open>Figures\<close>

text \<open>
  The dashboard adds up the hourly lists of the hosts by position from the right. As long as no host
  has more than 24 entries the requests are conserved; but the hours are not: a list has no entry for an
  hour without traffic, and hosts with one entry each all land in the last bucket, whatever their hours.
\<close>

theorem summary_hours_by_position:
  assumes "rs = getSummaryAll (now div 1000) (t_stats s)"
  shows "(list_all (\<lambda>r. length (su_hourly r) \<le> maxBuckets) rs \<longrightarrow>
       sum_list (sm_hourly_requests (summarize parse now certs m s)) = sum_list (map (\<lambda>r. sum_list (su_hourly r)) rs)) \<and>
     (list_all (\<lambda>r. length (su_hourly r) = 1) rs \<longrightarrow>
       sm_hourly_requests (summarize parse now certs m s) = replicate 23 0 @ [sum_of (\<lambda>r. hd (su_hourly r)) rs])"
  using sum_merge_hourly[of su_hourly rs] merge_hourly_single[of rs]
  by (simp add: summarize_def Let_def assms)

definition hour_stat :: "string \<Rightarrow> int \<Rightarrow> int \<Rightarrow> stat_row" where
  "hour_stat h ts n = \<lparr>st_host = h, st_timestamp = ts, st_requests = n, st_cache_hits = 1, st_cache_misses = 0,
     st_bandwidth = 7, st_avg_response_time = 3, st_l1_hits = 0, st_l2_hits = 0, st_bypass_method = 0,
     st_bypass_nocache = 0, st_bypass_size = 0, st_bypass_other = 0\<rparr>"

definition hour_db :: db where
  "hour_db = diag_db\<lparr>t_stats := [hour_stat ''a.com'' 180000 5, hour_stat ''b.com'' 250000 7]\<rparr>"

lemma summary_hours_by_position_witness:
  "sm_hourly_requests (summarize (\<lambda>_. None) 259000000 None monitor_init hour_db) = replicate 23 0 @ [12]"
proof -
  let ?rs = "getSummaryAll (259000000 div 1000) (t_stats hour_db)"
  have "list_all (\<lambda>r. length (su_hourly r) = 1) ?rs" by code_simp
  moreover have "sum_of (\<lambda>r. hd (su_hourly r)) ?rs = 12" by code_simp
  ultimately show ?thesis
    using summary_hours_by_position[of ?rs 259000000 hour_db "\<lambda>_. None" None monitor_init] by simp
qed

text \<open>
  The series of the cache chart loses nothing: its points are strictly increasing in time and add up
  to the hits and bypasses of the rows in the window, of one host or of all.
\<close>

theorem cache_series_totals:
  assumes "get_cache_series bucket now rng host t = Ok n bs" and "RANGE_TABLE (or_else rng ''1h'') = RCfg win bsz"
  shows "sorted_wrt (\<lambda>a b. sb_ts a < sb_ts b) bs \<and>
    sum_of sb_l1_hits bs = sum_of st_l1_hits (filter (\<lambda>r. now - win \<le> st_timestamp r \<and>
                           (case host of None \<Rightarrow> True | Some h \<Rightarrow> h = [] \<or> st_host r = h)) t) \<and>
    sum_of sb_bypass bs = sum_of bypass_of (filter (\<lambda>r. now - win \<le> st_timestamp r \<and>
                           (case host of None \<Rightarrow> True | Some h \<Rightarrow> h = [] \<or> st_host r = h)) t)"
  by (rule series_totals[OF assms])

lemma cache_series_totals_witness:
  "(case get_cache_series (\<lambda>n x. of_int (sql_quot x n * n)) 172800 (Some ''24h'') None
      [hour_stat ''a.com'' 100000 5, hour_stat ''b.com'' 160000 7] of
     Ok n bs \<Rightarrow> length bs = 2 \<and> sorted_wrt (\<lambda>a b. sb_ts a < sb_ts b) bs | _ \<Rightarrow> False)"
proof -
  let ?g = "get_cache_series (\<lambda>n x. of_int (sql_quot x n * n)) 172800 (Some ''24h'') None
      [hour_stat ''a.com'' 100000 5, hour_stat ''b.com'' 160000 7]"
  have "(case ?g of Ok n bs \<Rightarrow> length bs = 2 | _ \<Rightarrow> False)" by code_simp
  then obtain n bs where g: "?g = Ok n bs" "length bs = 2" by (cases ?g) auto
  have "RANGE_TABLE (or_else (Some ''24h'') ''1h'') = RCfg 86400 3600" by code_simp
  from cache_series_totals[OF g(1) this] g show ?thesis by simp
qed

text \<open>
  The audit list is a page of at most a thousand entries, the newest first and the later entry first
  within a second, and the total beside it counts the whole selection.
\<close>

theorem audit_page:
  assumes "get_audit a s = Ok n (rows, k)"
  shows "int (length rows) \<le> 1000 \<and> sorted_wrt audit_row_le rows \<and> length rows \<le> k \<and> k \<le> length (au_rows s)"
  by (rule get_audit_ok[OF assms])

definition sample_audit :: "int \<Rightarrow> int \<Rightarrow> audit_row" where
  "sample_audit i t = \<lparr>al_id = i, al_actor_user_id = None, al_actor_ip = None, al_action = ''user.create'',
     al_target_type = ''user'', al_target_id = None, al_before = None, al_after = None, al_created_at = t\<rparr>"

definition sample_audit_log :: audit_log where
  "sample_audit_log = \<lparr>au_rows = [sample_audit 1 5, sample_audit 2 6, sample_audit 3 6], au_seq = 3\<rparr>"

definition sample_audit_params :: audit_params where
  "sample_audit_params = \<lparr>ap_action = None, ap_actor_user_id = None, ap_target_type = Some ''user'',
     ap_target_id = None, ap_from = None, ap_to = None, ap_limit = Some ''2'', ap_offset = None\<rparr>"

lemma audit_page_witness:
  "(case get_audit sample_audit_params sample_audit_log of
      Ok n (rows, k) \<Rightarrow> length rows = 2 \<and> sorted_wrt audit_row_le rows \<and> k = 3 | _ \<Rightarrow> False)"
proof -
  let ?g = "get_audit sample_audit_params sample_audit_log"
  have "(case ?g of Ok n (rows, k) \<Rightarrow> length rows = 2 \<and> k = 3 | _ \<Rightarrow> False)" by code_simp
  then obtain n rows k where g: "?g = Ok n (rows, k)" "length rows = 2" "k = 3" by (cases ?g) auto
  with audit_page[OF g(1)] show ?thesis by simp
qed

text \<open>
  An optimizer profile is sent only for a registered domain of valid form, with a quality from 1 to
  100 and a width from 0 to 65535; it is not sent exactly when the reply is 400 or 404.
\<close>

theorem profile_sent_valid:
  assumes "put_profile (Some t) set_ok raw body = (r, ps)"
  shows "(ps = [] \<longleftrightarrow> status_of r \<in> {400, 404}) \<and>
    (\<forall>p \<in> set ps. pf_domain p \<in> set (hosts_of t) \<and> DOMAIN_RE (pf_domain p) \<and>
       1 \<le> pf_quality p \<and> pf_quality p \<le> 100 \<and> 0 \<le> pf_max_width p \<and> pf_max_width p \<le> 65535)"
  by (rule put_profile_sent[OF assms])

lemma profile_sent_valid_witness:
  "snd (put_profile (Some [new_domain 10 ''a.com'' ''http://o'' []]) (\<lambda>_. True) ''A.com''
     (Some \<lparr>pr_quality = Num (Fin 101), pr_max_width = Num (Fin 0), pr_enabled = Bool True, pr_other_members = False\<rparr>)) = []"
proof -
  let ?g = "put_profile (Some [new_domain 10 ''a.com'' ''http://o'' []]) (\<lambda>_. True) ''A.com''
     (Some \<lparr>pr_quality = Num (Fin 101), pr_max_width = Num (Fin 0), pr_enabled = Bool True, pr_other_members = False\<rparr>)"
  obtain r ps where g: "?g = (r, ps)" by fastforce
  have "status_of (fst ?g) = 400" by code_simp
  with profile_sent_valid[OF g] g show ?thesis by simp
qed

subsection \<open>Container logs\<close>


definition latin1 :: "bytes \<Rightarrow> string" where
  "latin1 = map (\<lambda>b. char_of (unat b))"


text \<open>
  The payloads that were framed in Docker's format come out again, in order and whole, and the parser
  stops exactly at the end.
\<close>

theorem docker_frames_roundtrip:
  assumes "list_all (\<lambda>(st, p). length p < 4294967296) fs"
  shows "frames (concat (map docker_frame fs)) 0 = (map snd fs, length (concat (map docker_frame fs)))"
  by (rule frames_roundtrip[OF assms])

lemma docker_frames_roundtrip_witness:
  "frames (concat (map docker_frame [(1, [65, 66]), (2, [])])) 0 = ([[65, 66], []], 18)"
  using docker_frames_roundtrip[of "[(1, [65, 66]), (2, [])]"] by (simp add: length_docker_frame)

text \<open>
  The list and the stream agree: for payloads that end with a newline, the lines of the one-shot reply
  are the lines the stream sends, however it is cut.
\<close>

theorem list_equals_stream:
  assumes "list_all (\<lambda>p. utf8 p \<noteq> [] \<and> last (utf8 p) = CHR 0x0A) (fst (frames (concat cs) 0))"
    and "fst (frames (concat cs) 0) \<noteq> []"
  shows "logs_reply utf8 json now svc (Body cs) = Ok 200 (sse_sent (sse_run utf8 json now svc (map Data cs)))"
  using assms text_lines_concat[of "map utf8 (fst (frames (concat cs) 0))" json now svc]
  by (simp add: logs_reply_def stripDockerHeader_def sse_run_chunks list_all_iff o_def)

lemma list_equals_stream_witness:
  "logs_reply latin1 (\<lambda>_. None) 0 ''dns'' (Body [docker_frame (1, [65, 10])]) =
     Ok 200 (sse_sent (sse_run latin1 (\<lambda>_. None) 0 ''dns'' (map Data [docker_frame (1, [65, 10])])))"
proof -
  have f: "fst (frames (concat [docker_frame (1, [65, 10])]) 0) = [[65, 10]]"
    using frames_roundtrip[of "[(1, [65, 10])]"] by simp
  show ?thesis
    by (rule list_equals_stream) (simp_all only: f, code_simp+)
qed

end
