(* ===== verification/Startup.thy ===== *)
theory Startup
  imports Accounts
begin

section \<open>Start-up: the migrations of the tables\<close>

text \<open>
  The migrations of \<open>index.ts\<close> that change data: the origins of the domains, and the user names that
  differ in case or outer spaces alone (issue 190), with \<open>formatUsername\<close> of the web client, which reads
  the names the migration archives. An exception of the driver, \<open>None\<close>, rolls the migration back and ends
  the start.
\<close>

subsection \<open>Origins\<close>

definition normalize_origins :: "url_parser \<Rightarrow> domains \<Rightarrow> domains" where
  "normalize_origins parse t =
     map (\<lambda>d. case parse (d_origin d) of
                None \<Rightarrow> d
              | Some u \<Rightarrow> if url_origin u \<noteq> d_origin d then d\<lparr>d_origin := url_origin u\<rparr> else d) t"

subsection \<open>User names\<close>

text \<open>
  The columns the migration touches, the times as the texts it writes; the rows of a table may have more
  columns, as in \<open>Rebuild\<close>. \<open>same\<close> is the collation of the
  \<open>UNIQUE\<close> constraint, with or without \<open>NOCASE\<close>.
\<close>

record dup_row =
  dp_id :: int
  dp_username :: string
  dp_disabled_at :: "string option"
  dp_updated_at :: string

type_synonym 'a dup_rows = "'a dup_row_scheme list"

definition name_key :: "string \<Rightarrow> string" where
  "name_key u = js_lower (js_trim u)"

definition keeper_le :: "'a dup_row_scheme \<Rightarrow> 'a dup_row_scheme \<Rightarrow> bool" where
  "keeper_le a b =
     (let aActive = (if dp_disabled_at a = None then 0 else 1 :: int);
          bActive = (if dp_disabled_at b = None then 0 else 1)
      in if aActive \<noteq> bActive then aActive < bActive else dp_id a \<le> dp_id b)"

definition set_username ::
  "(string \<Rightarrow> string \<Rightarrow> bool) \<Rightarrow> int \<Rightarrow> ('a dup_row_scheme \<Rightarrow> 'a dup_row_scheme) \<Rightarrow> string \<Rightarrow> 'a dup_rows \<Rightarrow> 'a dup_rows option" where
  "set_username same i f name t =
     (if \<exists>r \<in> set t. dp_id r \<noteq> i \<and> same (dp_username r) name then None
      else Some (update_where (\<lambda>r. dp_id r = i) (\<lambda>r. f (r\<lparr>dp_username := name\<rparr>)) t))"

definition archive_name :: "int \<Rightarrow> string \<Rightarrow> string" where
  "archive_name i u = ''__dup_'' @ int_text i @ ''__'' @ u"

definition migrate_loser ::
  "(string \<Rightarrow> string \<Rightarrow> bool) \<Rightarrow> string \<Rightarrow> 'a dup_row_scheme \<Rightarrow> 'a dup_rows \<Rightarrow> 'a dup_rows option" where
  "migrate_loser same now l t =
     (let t1 = (if dp_disabled_at l = None
                then update_where (\<lambda>r. dp_id r = dp_id l) (\<lambda>r. r\<lparr>dp_disabled_at := Some now, dp_updated_at := now\<rparr>) t
                else t)
      in if \<not> starts_with ''__dup_'' (dp_username l)
         then set_username same (dp_id l) id (archive_name (dp_id l) (dp_username l)) t1
         else Some t1)"

fun migrate_losers ::
  "(string \<Rightarrow> string \<Rightarrow> bool) \<Rightarrow> string \<Rightarrow> 'a dup_rows \<Rightarrow> 'a dup_rows \<Rightarrow> 'a dup_rows option" where
  "migrate_losers same now [] t = Some t"
| "migrate_losers same now (l # ls) t = Option.bind (migrate_loser same now l t) (migrate_losers same now ls)"

definition migrate_group ::
  "(string \<Rightarrow> string \<Rightarrow> bool) \<Rightarrow> string \<Rightarrow> string \<times> 'a dup_rows \<Rightarrow> 'a dup_rows \<Rightarrow> 'a dup_rows option" where
  "migrate_group same now = (\<lambda>(lower, rows) t.
     if length rows = 1 \<and> dp_username (hd rows) = lower then Some t
     else (case order_by keeper_le rows of
             [] \<Rightarrow> Some t
           | keeper # losers \<Rightarrow>
               Option.bind (migrate_losers same now losers t)
                 (\<lambda>t1. if dp_username keeper \<noteq> lower
                       then set_username same (dp_id keeper) (\<lambda>r. r\<lparr>dp_updated_at := now\<rparr>) lower t1
                       else Some t1)))"

fun migrate_groups ::
  "(string \<Rightarrow> string \<Rightarrow> bool) \<Rightarrow> string \<Rightarrow> (string \<times> 'a dup_rows) list \<Rightarrow> 'a dup_rows \<Rightarrow> 'a dup_rows option" where
  "migrate_groups same now [] t = Some t"
| "migrate_groups same now (g # gs) t = Option.bind (migrate_group same now g t) (migrate_groups same now gs)"

definition migrate_usernames :: "(string \<Rightarrow> string \<Rightarrow> bool) \<Rightarrow> string \<Rightarrow> 'a dup_rows \<Rightarrow> 'a dup_rows option" where
  "migrate_usernames same now t = migrate_groups same now (group_by (\<lambda>r. name_key (dp_username r)) t) t"

subsection \<open>The name that is shown\<close>

text \<open>\<open>formatUsername\<close>: the text behind \<open>^__dup_\d+__\<close>, of at least one character and no line break.\<close>

definition formatUsername :: "string \<Rightarrow> string \<times> bool" where
  "formatUsername u =
     (let r = drop 6 u; ds = takeWhile is_digit r; rest = drop (length ds) r; m = drop 2 rest
      in if starts_with ''__dup_'' u \<and> ds \<noteq> [] \<and> starts_with ''__'' rest \<and> m \<noteq> [] \<and>
            CHR 0x0A \<notin> set m \<and> CHR 0x0D \<notin> set m
         then (m, True) else (u, False))"

subsection \<open>What becomes of each row\<close>

definition loser_row :: "string \<Rightarrow> 'a dup_row_scheme \<Rightarrow> 'a dup_row_scheme" where
  "loser_row now r =
     (let r1 = (if dp_disabled_at r = None then r\<lparr>dp_disabled_at := Some now, dp_updated_at := now\<rparr> else r)
      in if starts_with ''__dup_'' (dp_username r) then r1
         else r1\<lparr>dp_username := archive_name (dp_id r) (dp_username r)\<rparr>)"

definition keeper_row :: "string \<Rightarrow> 'a dup_row_scheme \<Rightarrow> 'a dup_row_scheme" where
  "keeper_row now r =
     (if dp_username r = name_key (dp_username r) then r
      else r\<lparr>dp_username := name_key (dp_username r), dp_updated_at := now\<rparr>)"

definition keeper_of :: "'a dup_rows \<Rightarrow> string \<Rightarrow> 'a dup_row_scheme" where
  "keeper_of t k = hd (order_by keeper_le (filter (\<lambda>r. name_key (dp_username r) = k) t))"

definition migrated :: "string \<Rightarrow> 'a dup_rows \<Rightarrow> 'a dup_row_scheme \<Rightarrow> 'a dup_row_scheme" where
  "migrated now t r = (if r = keeper_of t (name_key (dp_username r)) then keeper_row now r else loser_row now r)"


subsection \<open>Steps of the migration\<close>

lemma loser_row_id [simp]: "dp_id (loser_row now r) = dp_id r"
  by (simp add: loser_row_def Let_def)

lemma keeper_row_id [simp]: "dp_id (keeper_row now r) = dp_id r"
  by (simp add: keeper_row_def)

lemma loser_row_disabled: "dp_disabled_at (loser_row now r) \<noteq> None"
  by (simp add: loser_row_def Let_def)

lemma keeper_row_disabled: "dp_disabled_at (keeper_row now r) = dp_disabled_at r"
  by (simp add: keeper_row_def)

lemma keeper_row_name [simp]: "dp_username (keeper_row now r) = name_key (dp_username r)"
  by (simp add: keeper_row_def)

lemma migrated_id [simp]: "dp_id (migrated now t r) = dp_id r"
  by (simp add: migrated_def)

text \<open>A state in the middle of the migration is \<open>map g t\<close>, where \<open>g\<close> says what has become of each row.\<close>

lemma update_at:
  assumes "inj_on dp_id (set t)" and "l \<in> set t" and "\<And>r. dp_id (g r) = dp_id r"
  shows "update_where (\<lambda>r. dp_id r = dp_id l) f (map g t) = map (g(l := f (g l))) t"
  using assms by (auto simp: update_where_def inj_on_def)

lemma migrate_loser_at:
  assumes "inj_on dp_id (set t)" and "l \<in> set t" and "\<And>r. dp_id (g r) = dp_id r" and "g l = l"
    and "\<And>r. r \<in> set t \<Longrightarrow> r \<noteq> l \<Longrightarrow> \<not> same (dp_username (g r)) (archive_name (dp_id l) (dp_username l))"
  shows "migrate_loser same now l (map g t) = Some (map (g(l := loser_row now l)) t)"
proof -
  let ?f = "\<lambda>r. r\<lparr>dp_disabled_at := Some now, dp_updated_at := now\<rparr>"
  let ?n = "archive_name (dp_id l) (dp_username l)"
  define h where "h = (if dp_disabled_at l = None then g(l := ?f l) else g)"
  have g: "(if dp_disabled_at l = None then update_where (\<lambda>r. dp_id r = dp_id l) ?f (map g t) else map g t) = map h t"
    using update_at[OF assms(1-3), of ?f] assms(4) by (simp add: h_def)
  have i: "dp_id (h r) = dp_id r" for r using assms(3,4) by (simp add: h_def)
  have n: "\<not> (\<exists>r \<in> set (map h t). dp_id r \<noteq> dp_id l \<and> same (dp_username r) ?n)"
    using assms(3-5) by (auto simp: h_def)
  show ?thesis
  proof (cases "starts_with ''__dup_'' (dp_username l)")
    case True
    then have "h = g(l := loser_row now l)" using assms(4) by (auto simp: h_def loser_row_def Let_def)
    with True show ?thesis unfolding migrate_loser_def Let_def g by simp
  next
    case False
    then have "h(l := id ((h l)\<lparr>dp_username := ?n\<rparr>)) = g(l := loser_row now l)"
      using assms(4) by (auto simp: h_def loser_row_def Let_def)
    with False n update_at[OF assms(1,2) i, of "\<lambda>r. id (r\<lparr>dp_username := ?n\<rparr>)"] show ?thesis
      unfolding migrate_loser_def Let_def g set_username_def by simp
  qed
qed

text \<open>The losers of a group one after the other, and the group.\<close>

lemma migrate_losers_at:
  assumes "inj_on dp_id (set t)" and "set ls \<subseteq> set t" and "distinct ls" and "\<And>r. dp_id (g r) = dp_id r"
    and "\<And>l. l \<in> set ls \<Longrightarrow> g l = l"
    and "\<And>r l. r \<in> set t \<Longrightarrow> l \<in> set ls \<Longrightarrow> r \<noteq> l \<Longrightarrow> \<not> same (dp_username (g r)) (archive_name (dp_id l) (dp_username l))"
    and "\<And>r l. r \<in> set ls \<Longrightarrow> l \<in> set ls \<Longrightarrow> r \<noteq> l \<Longrightarrow>
           \<not> same (dp_username (loser_row now r)) (archive_name (dp_id l) (dp_username l))"
  shows "migrate_losers same now ls (map g t) = Some (map (\<lambda>r. if r \<in> set ls then loser_row now r else g r) t)"
  using assms(2-)
proof (induction ls arbitrary: g)
  case (Cons l ls)
  have s: "migrate_loser same now l (map g t) = Some (map (g(l := loser_row now l)) t)"
    by (rule migrate_loser_at[OF assms(1)]) (use Cons.prems in auto)
  have "migrate_losers same now ls (map (g(l := loser_row now l)) t) =
      Some (map (\<lambda>r. if r \<in> set ls then loser_row now r else (g(l := loser_row now l)) r) t)"
    by (rule Cons.IH) (use Cons.prems in \<open>auto split: if_splits\<close>)
  moreover have "(\<lambda>r. if r \<in> set ls then loser_row now r else (g(l := loser_row now l)) r) =
      (\<lambda>r. if r \<in> set (l # ls) then loser_row now r else g r)" by auto
  ultimately show ?case by (simp add: s)
qed simp


definition no_clash :: "(string \<Rightarrow> string \<Rightarrow> bool) \<Rightarrow> string \<Rightarrow> 'a dup_rows \<Rightarrow> bool" where
  "no_clash same now t \<longleftrightarrow>
     (\<forall>r \<in> set t. \<forall>r' \<in> set t. r \<noteq> r' \<longrightarrow>
        (\<forall>x \<in> {dp_username r', name_key (dp_username r'), dp_username (loser_row now r')}.
           \<not> same x (archive_name (dp_id r) (dp_username r))) \<and>
        \<not> same (dp_username (loser_row now r')) (name_key (dp_username r)) \<and>
        (name_key (dp_username r) \<noteq> name_key (dp_username r') \<longrightarrow>
           \<not> same (dp_username r') (name_key (dp_username r)) \<and>
           \<not> same (name_key (dp_username r')) (name_key (dp_username r))))"

lemma no_clash_archive:
  assumes "no_clash same now t" "r \<in> set t" "r' \<in> set t" "r \<noteq> r'"
  shows "\<not> same (dp_username r') (archive_name (dp_id r) (dp_username r))"
    "\<not> same (name_key (dp_username r')) (archive_name (dp_id r) (dp_username r))"
    "\<not> same (dp_username (loser_row now r')) (archive_name (dp_id r) (dp_username r))"
    "\<not> same (dp_username (migrated now t r')) (archive_name (dp_id r) (dp_username r))"
  using assms unfolding no_clash_def migrated_def by auto

lemma no_clash_key:
  assumes "no_clash same now t" "r \<in> set t" "r' \<in> set t" "r \<noteq> r'"
  shows "\<not> same (dp_username (loser_row now r')) (name_key (dp_username r))"
    "name_key (dp_username r) \<noteq> name_key (dp_username r') \<Longrightarrow> \<not> same (dp_username r') (name_key (dp_username r))"
    "name_key (dp_username r) \<noteq> name_key (dp_username r') \<Longrightarrow>
       \<not> same (dp_username (migrated now t r')) (name_key (dp_username r))"
  using assms unfolding no_clash_def migrated_def by auto

lemma set_username_at:
  assumes "inj_on dp_id (set t)" and "l \<in> set t" and "\<And>r. dp_id (g r) = dp_id r"
    and "\<And>r. r \<in> set t \<Longrightarrow> r \<noteq> l \<Longrightarrow> \<not> same (dp_username (g r)) n"
  shows "set_username same (dp_id l) f n (map g t) = Some (map (g(l := f ((g l)\<lparr>dp_username := n\<rparr>))) t)"
proof -
  have "\<not> (\<exists>r \<in> set (map g t). dp_id r \<noteq> dp_id l \<and> same (dp_username r) n)"
    using assms(3,4) by auto
  with update_at[OF assms(1-3), of "\<lambda>r. f (r\<lparr>dp_username := n\<rparr>)"] show ?thesis
    unfolding set_username_def by simp
qed

lemma migrate_group_at:
  assumes d: "distinct (map dp_id t)" and c: "no_clash same now t"
    and k: "k \<in> (\<lambda>r. name_key (dp_username r)) ` set t" "k \<notin> K"
  shows "migrate_group same now (k, filter (\<lambda>r. name_key (dp_username r) = k) t)
            (map (\<lambda>r. if name_key (dp_username r) \<in> K then migrated now t r else r) t) =
         Some (map (\<lambda>r. if name_key (dp_username r) \<in> insert k K then migrated now t r else r) t)"
proof -
  let ?key = "\<lambda>r. name_key (dp_username r)"
  let ?G = "filter (\<lambda>r. ?key r = k) t"
  let ?g = "\<lambda>r. if ?key r \<in> K then migrated now t r else r"
  have inj: "inj_on dp_id (set t)" using d by (simp add: distinct_map)
  have dt: "distinct ?G" using d by (simp add: distinct_map)
  have "set (order_by keeper_le ?G) \<noteq> {}" using k(1) by auto
  then obtain k0 ls where o: "order_by keeper_le ?G = k0 # ls" by (cases "order_by keeper_le ?G") auto
  then have k0: "keeper_of t k = k0" by (simp add: keeper_of_def)
  have sG: "insert k0 (set ls) = {r \<in> set t. ?key r = k}" using set_order_by[of keeper_le ?G] o by simp
  have dls: "distinct ls" "k0 \<notin> set ls" using distinct_order_by[of keeper_le ?G] o dt by auto
  have m: "migrated now t r = (if r = k0 then keeper_row now r else loser_row now r)" if "?key r = k" for r
    using that k0 by (simp add: migrated_def)
  have id: "dp_id (?g r) = dp_id r" for r by simp
  show ?thesis
  proof (cases "length ?G = 1 \<and> dp_username (hd ?G) = k")
    case True
    then obtain r0 where r0: "?G = [r0]" by (auto simp: length_Suc_conv)
    then have "set ?G = {r0}" by (simp only: list.set)
    then have e: "\<And>r. r \<in> set t \<Longrightarrow> ?key r = k \<Longrightarrow> r = r0" "?key r0 = k" by auto
    have "k0 \<in> {r \<in> set t. ?key r = k}" unfolding sG[symmetric] by simp
    then have "k0 = r0" using e(1) by blast
    moreover have "dp_username r0 = k" using True r0 by simp
    ultimately have "migrated now t r = r" if "r \<in> set t" "?key r = k" for r
      using m[OF that(2)] e(1)[OF that] e(2) by (simp add: keeper_row_def)
    then have "map ?g t = map (\<lambda>r. if ?key r \<in> insert k K then migrated now t r else r) t"
      using k(2) by auto
    with True show ?thesis by (simp add: migrate_group_def)
  next
    case False
    let ?h = "\<lambda>r. if r \<in> set ls then loser_row now r else ?g r"
    have l: "migrate_losers same now ls (map ?g t) = Some (map ?h t)"
    proof (rule migrate_losers_at[OF inj _ dls(1) id])
      show "set ls \<subseteq> set t" using sG by auto
      fix l assume l: "l \<in> set ls"
      then have "?key l = k" "l \<in> set t" using sG by auto
      then show "?g l = l" using k(2) by simp
      fix r assume "r \<in> set t" "r \<noteq> l"
      then show "\<not> same (dp_username (?g r)) (archive_name (dp_id l) (dp_username l))"
        using no_clash_archive[OF c \<open>l \<in> set t\<close>, of r] by auto
    next
      fix r l assume "r \<in> set ls" "l \<in> set ls" "r \<noteq> l"
      then show "\<not> same (dp_username (loser_row now r)) (archive_name (dp_id l) (dp_username l))"
        using sG no_clash_archive(3)[OF c, of l r] by auto
    qed
    define h where "h = ?h"
    have k0t: "k0 \<in> set t" "?key k0 = k" "h k0 = k0" using sG k(2) dls(2) by (auto simp: h_def)
    have r: "\<not> same (dp_username (h r)) k" if "r \<in> set t" "r \<noteq> k0" for r
    proof (cases "?key r = k")
      case True
      then have "r \<in> set ls" using sG that by auto
      with no_clash_key(1)[OF c k0t(1) that(1)] that(2) k0t(2) show ?thesis by (auto simp: h_def)
    next
      case False
      then have "r \<notin> set ls" using sG by auto
      with False no_clash_key(2,3)[OF c k0t(1) that(1)] that(2) k0t(2) show ?thesis by (auto simp: h_def)
    qed
    have idh: "dp_id (h r) = dp_id r" for r by (simp add: h_def)
    have u: "set_username same (dp_id k0) (\<lambda>r. r\<lparr>dp_updated_at := now\<rparr>) k (map h t) =
        Some (map (h(k0 := (h k0)\<lparr>dp_username := k, dp_updated_at := now\<rparr>)) t)"
      by (rule set_username_at[where g = h, OF inj k0t(1)]) (use idh r in auto)
    have w: "(if dp_username k0 \<noteq> k then set_username same (dp_id k0) (\<lambda>r. r\<lparr>dp_updated_at := now\<rparr>) k (map h t)
           else Some (map h t)) = Some (map (h(k0 := keeper_row now k0)) t)"
    proof (cases "dp_username k0 = k")
      case True
      then have "keeper_row now k0 = h k0" using k0t(2,3) by (simp add: keeper_row_def)
      with True show ?thesis by (simp only: fun_upd_triv if_True if_False not_True_eq_False simp_thms)
    next
      case False
      then have "(h k0)\<lparr>dp_username := k, dp_updated_at := now\<rparr> = keeper_row now k0"
        using k0t(2,3) by (simp add: keeper_row_def)
      with False u show ?thesis by simp
    qed
    have "map (h(k0 := keeper_row now k0)) t = map (\<lambda>r. if ?key r \<in> insert k K then migrated now t r else r) t"
    proof (rule map_cong[OF refl])
      fix x assume x: "x \<in> set t"
      show "(h(k0 := keeper_row now k0)) x = (if ?key x \<in> insert k K then migrated now t x else x)"
        using x sG m[of x] k0t k(2) dls(2) by (cases "?key x = k") (auto simp: h_def)
    qed
    with w show ?thesis
      unfolding migrate_group_def prod.case if_not_P[OF False] o list.case l[folded h_def] Option.bind.simps
      by simp
  qed
qed


lemma migrate_groups_at:
  assumes "distinct (map dp_id t)" and "no_clash same now t"
    and "distinct ks" and "set ks \<subseteq> (\<lambda>r. name_key (dp_username r)) ` set t" and "set ks \<inter> K = {}"
  shows "migrate_groups same now (map (\<lambda>k. (k, filter (\<lambda>r. name_key (dp_username r) = k) t)) ks)
            (map (\<lambda>r. if name_key (dp_username r) \<in> K then migrated now t r else r) t) =
         Some (map (\<lambda>r. if name_key (dp_username r) \<in> set ks \<union> K then migrated now t r else r) t)"
  using assms(3-)
proof (induction ks arbitrary: K)
  case (Cons k ks)
  then have k: "k \<in> (\<lambda>r. name_key (dp_username r)) ` set t" "k \<notin> K" by auto
  have "migrate_groups same now (map (\<lambda>k. (k, filter (\<lambda>r. name_key (dp_username r) = k) t)) ks)
            (map (\<lambda>r. if name_key (dp_username r) \<in> insert k K then migrated now t r else r) t) =
         Some (map (\<lambda>r. if name_key (dp_username r) \<in> set ks \<union> insert k K then migrated now t r else r) t)"
    by (rule Cons.IH) (use Cons.prems in auto)
  then show ?case
    unfolding list.map migrate_groups.simps migrate_group_at[OF assms(1,2) k] Option.bind.simps by simp
qed simp

text \<open>Where no names clash the migration succeeds, and it does to each row what \<open>migrated\<close> says.\<close>

lemma migrate_usernames_map:
  assumes "distinct (map dp_id t)" and "no_clash same now t"
  shows "migrate_usernames same now t = Some (map (migrated now t) t)"
proof -
  let ?key = "\<lambda>r. name_key (dp_username r)"
  have "migrate_groups same now (group_by ?key t) (map (\<lambda>r. if ?key r \<in> {} then migrated now t r else r) t) =
      Some (map (\<lambda>r. if ?key r \<in> set (uniq (map ?key t)) \<union> {} then migrated now t r else r) t)"
    unfolding group_by_def by (rule migrate_groups_at[OF assms]) auto
  then show ?thesis by (simp add: migrate_usernames_def cong: map_cong)
qed

subsection \<open>Fresh names do not clash\<close>

text \<open>
  A table in which no name looks like an archive. No more is needed for a collation that tells apart what
  \<open>NOCASE\<close> tells apart.
\<close>

definition fresh_names :: "'a dup_rows \<Rightarrow> bool" where
  "fresh_names t \<longleftrightarrow>
     distinct (map dp_id t) \<and>
     (\<forall>r \<in> set t. 0 \<le> dp_id r \<and> \<not> starts_with ''__dup_'' (nocase (dp_username r)) \<and>
        \<not> starts_with ''__dup_'' (name_key (dp_username r)))"

lemma starts_with_nocase_archive: "starts_with ''__dup_'' (nocase (archive_name i u))"
  by (simp add: archive_name_def nocase_def starts_with_def nocase_char_def Let_def)

lemma nocase_digit: "is_digit c \<Longrightarrow> nocase_char c = c"
  by (auto simp: is_digit_def nocase_char_def Let_def)

lemma int_text_digits: "0 \<le> i \<Longrightarrow> list_all is_digit (int_text i)"
  by (simp add: int_text_def nat_text_fuel_digits del: nat_text_fuel.simps)

lemma takeWhile_digits: "0 \<le> i \<Longrightarrow> takeWhile is_digit (int_text i @ ''__'' @ x) = int_text i"
  using int_text_digits[of i] is_digit_facts
  by (subst takeWhile_append2) (auto simp: list_all_iff is_digit_def Let_def)

lemma archive_name_inj:
  assumes "nocase (archive_name i u) = nocase (archive_name j v)" and "0 \<le> i" and "0 \<le> j"
  shows "i = j"
proof -
  have n: "map nocase_char (int_text k) = int_text k" if "0 \<le> k" for k
    using int_text_digits[OF that] by (auto simp: list_all_iff nocase_digit intro!: map_idI)
  have "int_text i @ ''__'' @ nocase u = int_text j @ ''__'' @ nocase v"
    using assms n by (simp add: archive_name_def nocase_def) (simp add: nocase_char_def)
  then have "int_text i = int_text j" using takeWhile_digits assms(2,3) by metis
  then show ?thesis using number_of_int_text assms(2,3) by (metis jsnum.inject of_int_eq_iff)
qed


lemma name_key_nocase: "name_key (nocase u) = name_key u"
proof -
  have "js_lower (nocase u) = js_lower u" by (simp add: js_lower_def nocase_def)
  then show ?thesis by (metis js_trim_lower name_key_def)
qed

lemma name_key_idem [simp]: "name_key (name_key u) = name_key u"
  by (simp add: name_key_def js_trim_lower)

lemma nocase_name_key [simp]: "nocase (name_key u) = name_key u"
  by (simp add: name_key_def)

lemma loser_row_name:
  "\<not> starts_with ''__dup_'' (nocase (dp_username r)) \<Longrightarrow>
     dp_username (loser_row now r) = archive_name (dp_id r) (dp_username r)"
proof -
  assume a: "\<not> starts_with ''__dup_'' (nocase (dp_username r))"
  have "starts_with ''__dup_'' (nocase x)" if "starts_with ''__dup_'' x" for x
    using that by (auto simp: starts_with_iff nocase_def nocase_char_def)
  with a show ?thesis by (auto simp: loser_row_def Let_def)
qed

lemma fresh_no_clash:
  assumes "fresh_names t" and s: "\<And>a b. same a b \<Longrightarrow> nocase a = nocase b"
  shows "no_clash same now t"
proof -
  have "nocase x \<noteq> nocase (archive_name i u)" if "\<not> starts_with ''__dup_'' (nocase x)" for x i u
    using that starts_with_nocase_archive by metis
  then have a: "\<not> same x (archive_name i u)" "\<not> same (archive_name i u) x"
    if "\<not> starts_with ''__dup_'' (nocase x)" for x i u using that s by metis+
  have k: "\<not> same x (name_key u)" if "name_key x \<noteq> name_key u" for x u
    using that s[of x "name_key u"] by (metis name_key_idem name_key_nocase nocase_name_key)
  show ?thesis
    unfolding no_clash_def
  proof (intro ballI impI)
    fix r r' assume r: "r \<in> set t" "r' \<in> set t" "r \<noteq> r'"
    then have f: "\<not> starts_with ''__dup_'' (nocase (dp_username r'))" "\<not> starts_with ''__dup_'' (name_key (dp_username r))"
      "\<not> starts_with ''__dup_'' (name_key (dp_username r'))" "dp_id r \<noteq> dp_id r'" "0 \<le> dp_id r" "0 \<le> dp_id r'"
      using assms(1) by (auto simp: fresh_names_def distinct_map inj_on_def)
    have "\<not> same (archive_name (dp_id r') u) (archive_name (dp_id r) v)" for u v
      using archive_name_inj f(4-6) s by metis
    then show "(\<forall>x \<in> {dp_username r', name_key (dp_username r'), dp_username (loser_row now r')}.
           \<not> same x (archive_name (dp_id r) (dp_username r))) \<and>
        \<not> same (dp_username (loser_row now r')) (name_key (dp_username r)) \<and>
        (name_key (dp_username r) \<noteq> name_key (dp_username r') \<longrightarrow>
           \<not> same (dp_username r') (name_key (dp_username r)) \<and>
           \<not> same (name_key (dp_username r')) (name_key (dp_username r)))"
      using f a k[of "dp_username r'" "dp_username r"] k[of "name_key (dp_username r')" "dp_username r"]
        loser_row_name[OF f(1), of now] by auto
  qed
qed

text \<open>One keeper per key, an enabled one where there is one.\<close>

lemma keeper_of_in:
  assumes "r \<in> set t"
  shows "keeper_of t (name_key (dp_username r)) \<in> set t \<and>
    name_key (dp_username (keeper_of t (name_key (dp_username r)))) = name_key (dp_username r) \<and>
    (dp_disabled_at r = None \<longrightarrow> dp_disabled_at (keeper_of t (name_key (dp_username r))) = None)"
proof -
  let ?G = "filter (\<lambda>x. name_key (dp_username x) = name_key (dp_username r)) t"
  let ?O = "order_by keeper_le ?G"
  have r: "r \<in> set ?O" using assms by simp
  then obtain k ls where o: "?O = k # ls" by (cases ?O) auto
  have "sorted_wrt keeper_le ?O" by (rule sorted_order_by) (auto simp: keeper_le_def Let_def split: if_splits)
  with r o have "r = k \<or> keeper_le k r" by auto
  then have "dp_disabled_at r = None \<longrightarrow> dp_disabled_at k = None" by (auto simp: keeper_le_def Let_def split: if_splits)
  moreover have "k \<in> set ?G" using o by (metis list.set_intros(1) set_order_by)
  ultimately show ?thesis using o by (simp add: keeper_of_def)
qed

lemma formatUsername_archive:
  assumes "0 \<le> i" and "u \<noteq> []" and "CHR 0x0A \<notin> set u" and "CHR 0x0D \<notin> set u"
  shows "formatUsername (archive_name i u) = (u, True)"
proof -
  have "int_text i \<noteq> []"
    using nat_text_fuel_val[of "nat i" "Suc (nat i)"] assms(1) by (simp add: int_text_def del: nat_text_fuel.simps)
  moreover have "takeWhile is_digit (drop 6 (archive_name i u)) = int_text i"
    using takeWhile_digits[OF assms(1), of u] by (simp add: archive_name_def)
  ultimately show ?thesis
    using assms(2-4) by (simp add: formatUsername_def Let_def archive_name_def starts_with_def)
qed

lemma migrated_distinct:
  assumes "fresh_names t"
  shows "distinct (map (nocase \<circ> dp_username \<circ> migrated now t) t)"
proof -
  have "nocase (dp_username (migrated now t r)) \<noteq> nocase (dp_username (migrated now t r'))"
    if r: "r \<in> set t" "r' \<in> set t" "r \<noteq> r'" for r r'
  proof -
    have c: "no_clash same_name now t"
      by (rule fresh_no_clash) (use assms in \<open>auto simp: fresh_names_def same_name_def\<close>)
    have f: "\<not> starts_with ''__dup_'' (nocase (dp_username r))" "\<not> starts_with ''__dup_'' (nocase (dp_username r'))"
      using assms r by (auto simp: fresh_names_def)
    show ?thesis
      using no_clash_archive[OF c r] no_clash_archive[OF c r(2,1)] no_clash_key[OF c r] no_clash_key[OF c r(2,1)] r
        loser_row_name[OF f(1), of now] loser_row_name[OF f(2), of now]
      unfolding migrated_def same_name_def by (auto split: if_splits)
  qed
  moreover have "distinct t" using assms by (simp add: fresh_names_def distinct_map)
  ultimately show ?thesis by (auto simp: distinct_map inj_on_def)
qed


subsection \<open>The migration as a whole\<close>

text \<open>
  On a table in which no name looks like an archive the migration of the user names always succeeds.
  It keeps every account under its id; afterwards no two names agree without case; each account either
  has its name in normal form and is enabled or disabled as before, or is disabled under an archive name
  from which the web client reads the old name; and a name with an enabled account still has one.
\<close>

theorem users_migrated:
  assumes "fresh_names t" and "\<And>a b. same a b \<Longrightarrow> nocase a = nocase b"
  shows "\<exists>t'. migrate_usernames same now t = Some t' \<and> map dp_id t' = map dp_id t \<and>
     distinct (map (nocase \<circ> dp_username) t') \<and>
     list_all2 (\<lambda>r r'. (dp_username r' = name_key (dp_username r) \<and> dp_disabled_at r' = dp_disabled_at r) \<or>
        (dp_disabled_at r' \<noteq> None \<and>
          (dp_username r \<noteq> [] \<and> CHR 0x0A \<notin> set (dp_username r) \<and> CHR 0x0D \<notin> set (dp_username r) \<longrightarrow>
             formatUsername (dp_username r') = (dp_username r, True)))) t t' \<and>
     (\<forall>r \<in> set t. dp_disabled_at r = None \<longrightarrow>
        (\<exists>r' \<in> set t'. dp_username r' = name_key (dp_username r) \<and> dp_disabled_at r' = None))"
proof (intro exI conjI)
  show "migrate_usernames same now t = Some (map (migrated now t) t)"
    by (rule migrate_usernames_map[OF _ fresh_no_clash[OF assms]]) (use assms(1) in \<open>simp_all add: fresh_names_def\<close>)
  show "map dp_id (map (migrated now t) t) = map dp_id t" by simp
  show "distinct (map (nocase \<circ> dp_username) (map (migrated now t) t))"
    using migrated_distinct[OF assms(1), of now] by (simp add: o_assoc)
  show "list_all2 (\<lambda>r r'. (dp_username r' = name_key (dp_username r) \<and> dp_disabled_at r' = dp_disabled_at r) \<or>
        (dp_disabled_at r' \<noteq> None \<and>
          (dp_username r \<noteq> [] \<and> CHR 0x0A \<notin> set (dp_username r) \<and> CHR 0x0D \<notin> set (dp_username r) \<longrightarrow>
             formatUsername (dp_username r') = (dp_username r, True)))) t (map (migrated now t) t)"
    using assms(1)
    by (auto simp: list_all2_conv_all_nth migrated_def keeper_row_disabled fresh_names_def formatUsername_archive
        loser_row_name loser_row_disabled simp del: not_None_eq)
  show "\<forall>r \<in> set t. dp_disabled_at r = None \<longrightarrow>
        (\<exists>r' \<in> set (map (migrated now t) t). dp_username r' = name_key (dp_username r) \<and> dp_disabled_at r' = None)"
  proof (intro ballI impI)
    fix r assume "r \<in> set t" "dp_disabled_at r = None"
    with keeper_of_in[of r t] show "\<exists>r' \<in> set (map (migrated now t) t).
        dp_username r' = name_key (dp_username r) \<and> dp_disabled_at r' = None"
      by (intro bexI[of _ "migrated now t (keeper_of t (name_key (dp_username r)))"])
        (auto simp: migrated_def keeper_row_disabled)
  qed
qed

definition sample_dups :: "unit dup_rows" where
  "sample_dups =
     [\<lparr>dp_id = 1, dp_username = ''A@b.c'', dp_disabled_at = Some ''x'', dp_updated_at = ''x''\<rparr>,
      \<lparr>dp_id = 2, dp_username = ''a@b.c '', dp_disabled_at = None, dp_updated_at = ''x''\<rparr>]"

lemma users_migrated_witness:
  "map dp_id (the (migrate_usernames (=) ''y'' sample_dups)) = [1, 2]"
proof -
  have "fresh_names sample_dups" by code_simp
  from users_migrated[OF this, of "(=)" "''y''"] show ?thesis by (auto simp: sample_dups_def)
qed

lemma sample_dups_result:
  "map dp_username (the (migrate_usernames (=) ''y'' sample_dups)) = [''__dup_1__A@b.c'', ''a@b.c'']"
  by code_simp

end
