(* ===== verification/Maintenance.thy ===== *)
theory Maintenance
  imports Startup Domain_Query
begin

section \<open>The maintenance of the database\<close>

text \<open>
  \<open>sqlite-maintenance.ts\<close>: the daily backup and the removal of old backups. A directory is a list of file
  names with their times of change in milliseconds, \<open>None\<close> where \<open>stat\<close> fails. The checkpoint of the write-
  ahead log changes no state of the model; the timer is not modelled.
\<close>

definition backup_hour :: "string option \<Rightarrow> rat" where
  "backup_hour env =
     (case opt_number env of Fin x \<Rightarrow> if 0 \<le> x \<and> x \<le> 23 then x else 4 | _ \<Rightarrow> 4)"

definition retention_of :: "jsnum option \<Rightarrow> string option \<Rightarrow> jsnum" where
  "retention_of opt env =
     (case opt of
        Some d \<Rightarrow> d
      | None \<Rightarrow>
          (case opt_number env of
             Fin x \<Rightarrow> if 0 < x then Fin x else Fin 7
           | PosInf \<Rightarrow> PosInf
           | _ \<Rightarrow> Fin 7))"

definition utc_hour :: "int \<Rightarrow> int" where
  "utc_hour ms = ms mod 86400000 div 3600000"

definition day_key :: "int \<Rightarrow> string" where
  "day_key ms = (case civil_of_days (ms div 86400000) of
     (y, m, d) \<Rightarrow> int_text y @ padded 2 (nat m) @ padded 2 (nat d))"

definition stamp :: "int \<Rightarrow> string" where
  "stamp ms =
     (let rest = ms mod 86400000
      in day_key ms @ ''-'' @ padded 2 (nat (rest div 3600000)) @ padded 2 (nat (rest div 60000 mod 60))
         @ padded 2 (nat (rest div 1000 mod 60)))"

definition backup_file :: "int \<Rightarrow> string" where
  "backup_file now = ''admin-'' @ stamp now @ ''.db''"

text \<open>\<open>^admin-\d{8}-\d{6}\.db$\<close>.\<close>

definition is_backup_name :: "string \<Rightarrow> bool" where
  "is_backup_name s =
     (length s = 24 \<and> take 6 s = ''admin-'' \<and> list_all is_digit (take 8 (drop 6 s)) \<and> s ! 14 = CHR ''-'' \<and>
      list_all is_digit (take 6 (drop 15 s)) \<and> drop 21 s = ''.db'')"

type_synonym files = "(string \<times> rat option) list"

text \<open>\<open>stat.mtimeMs < now - retentionDays * 86400_000\<close>.\<close>

definition too_old :: "int \<Rightarrow> jsnum \<Rightarrow> rat \<Rightarrow> bool" where
  "too_old now days mtime =
     (case days of
        Fin x \<Rightarrow> mtime < of_int now - x * 86400000
      | NegInf \<Rightarrow> True
      | _ \<Rightarrow> False)"

definition prunable :: "int \<Rightarrow> jsnum \<Rightarrow> string \<times> rat option \<Rightarrow> bool" where
  "prunable now days = (\<lambda>(name, mtime).
     is_backup_name name \<and> (case mtime of None \<Rightarrow> False | Some t \<Rightarrow> too_old now days t))"

text \<open>A file that cannot be removed is counted all the same; \<open>None\<close> is an unreadable directory.\<close>

definition pruneBackups :: "int \<Rightarrow> jsnum \<Rightarrow> (string \<Rightarrow> bool) \<Rightarrow> files option \<Rightarrow> files option \<times> nat" where
  "pruneBackups now days unlink_ok dir =
     (map_option (filter (\<lambda>f. \<not> (prunable now days f \<and> unlink_ok (fst f)))) dir,
      length (filter (prunable now days) (or_else dir [])))"

record job =
  jb_backup_hour :: rat
  jb_retention :: jsnum
  jb_last_day :: "string option"
  jb_dir :: "files option"

text \<open>\<open>runBackup\<close>: the directory with the new file, or its failure; then the tick.\<close>

definition runBackup :: "bool \<Rightarrow> int \<Rightarrow> files option \<Rightarrow> files option \<times> string option" where
  "runBackup ok now dir =
     (if ok then (map_option (\<lambda>fs. fs @ [(backup_file now, Some (of_int now))]) dir, Some (backup_file now))
      else (dir, None))"

definition maintenance_tick ::
  "bool \<Rightarrow> (string \<Rightarrow> bool) \<Rightarrow> int \<Rightarrow> job \<Rightarrow> job \<times> string option \<times> nat" where
  "maintenance_tick ok unlink_ok now j =
     (if of_int (utc_hour now) = jb_backup_hour j \<and> jb_last_day j \<noteq> Some (day_key now) then
        (case runBackup ok now (jb_dir j) of
           (dir, None) \<Rightarrow> (j\<lparr>jb_dir := dir\<rparr>, None, 0)
         | (dir, Some file) \<Rightarrow>
             (case pruneBackups now (jb_retention j) unlink_ok dir of
                (dir', n) \<Rightarrow> (j\<lparr>jb_last_day := Some (day_key now), jb_dir := dir'\<rparr>, Some file, n)))
      else (j, None, 0))"

subsection \<open>Laws\<close>

lemma digits_padded: "list_all is_digit (padded w n) \<and> length (padded w n) = w"
proof -
  have "list_all is_digit (digits_rev w n) \<and> length (digits_rev w n) = w"
    by (induction w arbitrary: n) (auto simp: is_digit_of)
  then show ?thesis by (simp add: padded_def list_all_rev)
qed

lemma is_backup_nameI:
  assumes "length a = 8" "list_all is_digit a" "length b = 6" "list_all is_digit b"
  shows "is_backup_name (''admin-'' @ a @ ''-'' @ b @ ''.db'')"
proof -
  let ?r = "CHR ''-'' # b @ ''.db''"
  have "take 8 (drop 6 (''admin-'' @ a @ ?r)) = a" "drop 14 (''admin-'' @ a @ ?r) = ?r"
    using assms(1) by (simp_all add: numeral_eq_Suc)
  moreover have "(''admin-'' @ a @ ?r) ! 14 = drop 14 (''admin-'' @ a @ ?r) ! 0"
    using assms(1) by (subst nth_drop) (simp_all)
  moreover have "drop 15 (''admin-'' @ a @ ?r) = drop 1 (drop 14 (''admin-'' @ a @ ?r))"
    "drop 21 (''admin-'' @ a @ ?r) = drop 7 (drop 14 (''admin-'' @ a @ ?r))"
    by (simp_all only: drop_drop) simp_all
  ultimately show ?thesis
    using assms unfolding is_backup_name_def by simp
qed

text \<open>The name of a backup is one the removal knows, for years of four digits.\<close>

lemma backup_file_known:
  assumes "length (int_text (fst (civil_of_days (now div 86400000)))) = 4"
    and "0 \<le> fst (civil_of_days (now div 86400000))"
  shows "is_backup_name (backup_file now)"
proof -
  obtain y m d where c: "civil_of_days (now div 86400000) = (y, m, d)" by (metis prod_cases3)
  have k: "length (day_key now) = 8" "list_all is_digit (day_key now)"
    using assms c digits_padded int_text_digits[of y] by (simp_all add: day_key_def)
  let ?t = "padded 2 (nat (now mod 86400000 div 3600000)) @ padded 2 (nat (now mod 86400000 div 60000 mod 60))
         @ padded 2 (nat (now mod 86400000 div 1000 mod 60))"
  have t: "length ?t = 6" "list_all is_digit ?t" using digits_padded by simp_all
  have f: "backup_file now = ''admin-'' @ day_key now @ ''-'' @ ?t @ ''.db''"
    unfolding backup_file_def stamp_def Let_def by simp
  show ?thesis unfolding f by (rule is_backup_nameI[OF k t])
qed

text \<open>The removal touches nothing but backups that are too old; the fresh backup stays.\<close>

lemma pruneBackups_keeps:
  assumes "pruneBackups now days ok (Some fs) = (dir, n)" and "f \<in> set fs" and "\<not> prunable now days f"
  shows "f \<in> set (the dir)"
  using assms by (auto simp: pruneBackups_def)

lemma fresh_backup_kept: "0 \<le> x \<Longrightarrow> \<not> prunable now (Fin x) (backup_file now, Some (of_int now))"
  by (simp add: prunable_def too_old_def)

text \<open>A tick makes a backup at the hour alone, and not again on the day of the last one.\<close>

lemma maintenance_tick_backup:
  assumes "maintenance_tick ok u now j = (j', Some file, n)"
  shows "of_int (utc_hour now) = jb_backup_hour j \<and> jb_last_day j \<noteq> Some (day_key now) \<and>
    jb_last_day j' = Some (day_key now) \<and> file = backup_file now"
  using assms by (auto simp: maintenance_tick_def runBackup_def split: if_splits prod.splits)

lemma maintenance_tick_none:
  assumes "maintenance_tick ok u now j = (j', None, n)"
  shows "j' = j \<and> n = 0"
  using assms by (auto simp: maintenance_tick_def runBackup_def split: if_splits prod.splits option.splits)

end
