(* ===== verification/Url_State.thy ===== *)
theory Url_State
  imports Domain_Query Accounts
begin

section \<open>The web client: page state in the address\<close>

text \<open>
  The pages of \<open>src/services/admin-web\<close> keep their filters, tabs and periods in the query of the address.
  Here: the operations of \<open>URLSearchParams\<close>, the update of the address with its history entry, the effect
  that takes invalid values out of the address, and the DNS page (\<open>pages/DnsPage.tsx\<close>). What a page shows
  is a function of the query; a callback turns one query into the next.
\<close>

subsection \<open>URLSearchParams\<close>

type_synonym params = "(string \<times> string) list"

definition url_get :: "string \<Rightarrow> params \<Rightarrow> string option" where
  "url_get k u = map_of u k"

definition url_delete :: "string \<Rightarrow> params \<Rightarrow> params" where
  "url_delete k u = filter (\<lambda>p. fst p \<noteq> k) u"

text \<open>\<open>set\<close> gives the first entry of the name the value and removes its other entries, or appends one.\<close>

fun url_set :: "string \<Rightarrow> string \<Rightarrow> params \<Rightarrow> params" where
  "url_set k v [] = [(k, v)]"
| "url_set k v (p # u) = (if fst p = k then (k, v) # url_delete k u else p # url_set k v u)"

named_theorems url "reading the address after an update"

lemma url_get_delete [simp, url]: "url_get k' (url_delete k u) = (if k' = k then None else url_get k' u)"
  by (induction u) (auto simp: url_get_def url_delete_def)

lemma url_get_set [simp, url]: "url_get k' (url_set k v u) = (if k' = k then Some v else url_get k' u)"
  using url_get_delete[of k' k] by (induction u) (auto simp: url_get_def)

lemma url_get_Nil [simp, url]: "url_get k [] = None"
  by (simp add: url_get_def)

text \<open>The address with the entries of the history behind it; \<open>replace\<close> adds none.\<close>

record nav =
  nv_back :: "params list"
  nv_here :: params

definition set_search_params :: "bool \<Rightarrow> (params \<Rightarrow> params) \<Rightarrow> nav \<Rightarrow> nav" where
  "set_search_params replace f n =
     \<lparr>nv_back = (if replace then nv_back n else nv_here n # nv_back n), nv_here = f (nv_here n)\<rparr>"

lemma set_search_params_here [simp]: "nv_here (set_search_params r f n) = f (nv_here n)"
  by (simp add: set_search_params_def)

definition joined :: "string \<Rightarrow> string list \<Rightarrow> string" where
  "joined sep ws = (case ws of [] \<Rightarrow> [] | w # vs \<Rightarrow> w @ concat (map (\<lambda>v. sep @ v) vs))"

text \<open>\<open>split\<close> undoes \<open>join\<close> where no part has the separator.\<close>

lemma split_on_notin: "d \<notin> set w \<Longrightarrow> split_on d w = [w]"
  by (induction w) auto

lemma split_on_append: "d \<notin> set w \<Longrightarrow> split_on d (w @ d # r) = w # split_on d r"
  by (induction w) auto

lemma split_on_joined: "ws \<noteq> [] \<Longrightarrow> \<forall>w \<in> set ws. d \<notin> set w \<Longrightarrow> split_on d (joined [d] ws) = ws"
proof (induction ws)
  case (Cons w ws)
  have "joined [d] (w # ws) = (case ws of [] \<Rightarrow> w | _ \<Rightarrow> w @ d # joined [d] ws)"
    by (cases ws) (simp_all add: joined_def)
  with Cons show ?case by (cases ws) (simp_all add: split_on_notin split_on_append)
qed simp

subsection \<open>The effect that corrects the address\<close>

text \<open>
  An effect over the address runs after every change of it. The correction answers \<open>None\<close> when there is
  nothing to correct; otherwise it sets the address and the effect runs again. \<open>None\<close> as the result of the
  loop would be an endless run of corrections.
\<close>

partial_function (option) effect_loop :: "(params \<Rightarrow> params option) \<Rightarrow> nav \<Rightarrow> nav option" where
  "effect_loop correct n =
     (case correct (nv_here n) of
        None \<Rightarrow> Some n
      | Some u \<Rightarrow> effect_loop correct (set_search_params True (\<lambda>_. u) n))"

text \<open>The contract of such a page: a correction changes nothing that is shown, and one is enough.\<close>

locale corrected_page =
  fixes correct :: "params \<Rightarrow> params option" and shown :: "params \<Rightarrow> 'v"
  assumes shown_kept: "correct u = Some u' \<Longrightarrow> shown u' = shown u"
    and corrected: "correct u = Some u' \<Longrightarrow> correct u' = None"
begin

lemma loop_ends:
  "\<exists>n'. effect_loop correct n = Some n' \<and> correct (nv_here n') = None \<and>
     shown (nv_here n') = shown (nv_here n) \<and> nv_back n' = nv_back n"
proof (cases "correct (nv_here n)")
  case None
  then show ?thesis by (subst effect_loop.simps) simp
next
  case (Some u)
  let ?n = "set_search_params True (\<lambda>_. u) n"
  have "effect_loop correct ?n = Some ?n"
    using corrected[OF Some] by (subst effect_loop.simps) simp
  with Some show ?thesis
    using shown_kept[OF Some] corrected[OF Some]
    by (subst effect_loop.simps) (simp add: set_search_params_def)
qed

end

subsection \<open>The DNS page\<close>

definition DNS_TABS :: "string list" where
  "DNS_TABS = [''records'', ''stats'', ''queries'']"

definition DNS_RANGES :: "string list" where
  "DNS_RANGES = [''1h'', ''24h'']"

definition VALID_RESULTS :: "string list" where
  "VALID_RESULTS = [''matched'', ''forwarded'', ''nxdomain'']"

definition result_parts :: "string \<Rightarrow> string list" where
  "result_parts s =
     filter (\<lambda>w. w \<in> set VALID_RESULTS) (filter (\<lambda>w. w \<noteq> []) (map js_trim (split_on (CHR '','') s)))"

definition parseResultFilter :: "string option \<Rightarrow> string set" where
  "parseResultFilter value =
     (case value of
        None \<Rightarrow> set VALID_RESULTS
      | Some s \<Rightarrow>
          if s = [] then {}
          else if result_parts s = [] then set VALID_RESULTS else set (result_parts s))"

definition isResultParamValid :: "string option \<Rightarrow> bool" where
  "isResultParamValid value =
     (case value of None \<Rightarrow> True | Some s \<Rightarrow> s = [] \<or> result_parts s \<noteq> [])"

record dns_page =
  dn_tab :: string
  dn_range :: string
  dn_q :: string
  dn_filter :: "string set"

definition listed :: "string list \<Rightarrow> string option \<Rightarrow> bool" where
  "listed xs v = (case v of None \<Rightarrow> False | Some s \<Rightarrow> s \<in> set xs)"

definition dns_shown :: "params \<Rightarrow> dns_page" where
  "dns_shown u =
     \<lparr>dn_tab = (if listed DNS_TABS (url_get ''tab'' u) then the (url_get ''tab'' u) else ''records''),
      dn_range = (if listed DNS_RANGES (url_get ''range'' u) then the (url_get ''range'' u) else ''1h''),
      dn_q = or_else (url_get ''q'' u) [],
      dn_filter = parseResultFilter (url_get ''result'' u)\<rparr>"

definition invalid :: "string list \<Rightarrow> string option \<Rightarrow> bool" where
  "invalid xs v = (v \<noteq> None \<and> \<not> listed xs v)"

definition dns_correct :: "params \<Rightarrow> params option" where
  "dns_correct u =
     (let tabInvalid = invalid DNS_TABS (url_get ''tab'' u);
          rangeInvalid = invalid DNS_RANGES (url_get ''range'' u);
          resultInvalid = \<not> isResultParamValid (url_get ''result'' u)
      in if \<not> tabInvalid \<and> \<not> rangeInvalid \<and> \<not> resultInvalid then None
         else
           let u1 = (if tabInvalid then url_delete ''tab'' u else u);
               u2 = (if rangeInvalid then url_delete ''range'' u1 else u1)
           in Some (if resultInvalid then url_delete ''result'' u2 else u2))"

definition dns_tab_change :: "string \<Rightarrow> nav \<Rightarrow> nav" where
  "dns_tab_change v = set_search_params False (url_set ''tab'' v)"

definition dns_range_change :: "string \<Rightarrow> nav \<Rightarrow> nav" where
  "dns_range_change v = set_search_params True (url_set ''range'' v)"

definition dns_query_change :: "string \<Rightarrow> nav \<Rightarrow> nav" where
  "dns_query_change v = set_search_params True (if v \<noteq> [] then url_set ''q'' v else url_delete ''q'')"

definition dns_result_change :: "string set \<Rightarrow> nav \<Rightarrow> nav" where
  "dns_result_change F =
     set_search_params True
       (if card F = length VALID_RESULTS then url_delete ''result''
        else url_set ''result'' (joined '','' (filter (\<lambda>r. r \<in> F) VALID_RESULTS)))"

text \<open>\<open>QueriesTab\<close>: the toggle of one result, the rows shown, and the text for an empty list.\<close>

definition toggle_result :: "string \<Rightarrow> string set \<Rightarrow> string set" where
  "toggle_result r F = (if r \<in> F then F - {r} else insert r F)"

definition visible_queries :: "('q \<Rightarrow> string) \<Rightarrow> string set \<Rightarrow> 'q list \<Rightarrow> 'q list" where
  "visible_queries result F = filter (\<lambda>e. result e \<in> F)"

definition offers_reset :: "('q \<Rightarrow> string) \<Rightarrow> string set \<Rightarrow> 'q list \<Rightarrow> bool" where
  "offers_reset result F qs =
     (visible_queries result F qs = [] \<and> card F < length VALID_RESULTS \<and> 0 < length qs)"

text \<open>\<open>RecordsTab\<close>: the search of the hosts; the text is not searched while it is being composed.\<close>

definition filtered_records :: "('r \<Rightarrow> string) \<Rightarrow> string \<Rightarrow> 'r list \<Rightarrow> 'r list" where
  "filtered_records host q = filter (\<lambda>r. js_includes (js_lower (js_trim q)) (js_lower (host r)))"

record search_box =
  sb_local :: "string option"
  sb_composing :: bool

definition records_change :: "string \<Rightarrow> bool \<Rightarrow> search_box \<times> nav \<Rightarrow> search_box \<times> nav" where
  "records_change value native = (\<lambda>(b, n).
     if sb_composing b \<or> native then (b\<lparr>sb_local := Some value\<rparr>, n)
     else (b\<lparr>sb_local := None\<rparr>, dns_query_change value n))"

definition records_composition_start :: "search_box \<times> nav \<Rightarrow> search_box \<times> nav" where
  "records_composition_start = (\<lambda>(b, n). (b\<lparr>sb_composing := True\<rparr>, n))"

definition records_composition_end :: "string \<Rightarrow> search_box \<times> nav \<Rightarrow> search_box \<times> nav" where
  "records_composition_end value = (\<lambda>(b, n).
     (b\<lparr>sb_composing := False, sb_local := None\<rparr>, dns_query_change value n))"

definition records_text :: "search_box \<times> nav \<Rightarrow> string" where
  "records_text = (\<lambda>(b, n). or_else (sb_local b) (dn_q (dns_shown (nv_here n))))"


text \<open>\<open>StatsTab\<close> and \<open>StatusStrip\<close>: the totals of the buckets, and the rate of the minute before this one.\<close>

record dns_bucket =
  dk_ts :: int
  dk_total :: int
  dk_matched :: int
  dk_nxdomain :: int
  dk_forwarded :: int

definition dns_totals :: "dns_bucket list \<Rightarrow> int \<times> int \<times> int \<times> int" where
  "dns_totals metrics =
     foldl (\<lambda>(t, m, x, f) b. (t + dk_total b, m + dk_matched b, x + dk_nxdomain b, f + dk_forwarded b))
       (0, 0, 0, 0) metrics"

definition qps_recent :: "dns_bucket list option \<Rightarrow> rat" where
  "qps_recent metrics =
     (case metrics of
        None \<Rightarrow> 0
      | Some ms \<Rightarrow> if 2 \<le> length ms then of_int (dk_total (ms ! (length ms - 2))) / 60 else 0)"

subsection \<open>Laws of the DNS page\<close>

lemma set_VALID_RESULTS: "set VALID_RESULTS = {''matched'', ''forwarded'', ''nxdomain''}"
  by (simp add: VALID_RESULTS_def)

lemma result_word: "w \<in> set VALID_RESULTS \<Longrightarrow> w \<noteq> [] \<and> js_trim w = w \<and> CHR '','' \<notin> set w"
  unfolding VALID_RESULTS_def by (simp, elim disjE) (simp_all, code_simp+)

lemma result_parts_joined:
  assumes "ws \<noteq> []" and "set ws \<subseteq> set VALID_RESULTS"
  shows "result_parts (joined '','' ws) = ws"
proof -
  have w: "\<forall>w \<in> set ws. w \<noteq> [] \<and> js_trim w = w \<and> CHR '','' \<notin> set w"
    using assms(2) result_word by blast
  then have "split_on CHR '','' (joined '','' ws) = ws" using assms(1) split_on_joined by blast
  moreover have "map js_trim ws = ws" using w by (simp add: map_idI)
  moreover have "filter (\<lambda>w. w \<noteq> []) ws = ws" using w by (auto intro: filter_True)
  moreover have "filter (\<lambda>w. w \<in> set VALID_RESULTS) ws = ws" using assms(2) by (auto intro: filter_True)
  ultimately show ?thesis by (simp only: result_parts_def)
qed

lemma filter_of_full:
  assumes "F \<subseteq> set VALID_RESULTS" and "card F = length VALID_RESULTS"
  shows "F = set VALID_RESULTS"
  by (rule card_subset_eq) (use assms in \<open>simp_all add: VALID_RESULTS_def\<close>)

lemma dns_result_change_shown:
  assumes "F \<subseteq> set VALID_RESULTS"
  shows "dn_filter (dns_shown (nv_here (dns_result_change F n))) = F"
proof (cases "card F = length VALID_RESULTS")
  case True
  with filter_of_full[OF assms] show ?thesis
    by (simp add: dns_result_change_def dns_shown_def parseResultFilter_def)
next
  case False
  let ?ws = "filter (\<lambda>r. r \<in> F) VALID_RESULTS"
  have s: "set ?ws = F" using assms by auto
  show ?thesis
  proof (cases "F = {}")
    case True
    then have "joined '','' ?ws = []" by (simp add: joined_def)
    with False True show ?thesis
      by (simp add: dns_result_change_def dns_shown_def parseResultFilter_def)
  next
    case ne: False
    then have w: "?ws \<noteq> []" using s by fastforce
    then have p: "result_parts (joined '','' ?ws) = ?ws" by (rule result_parts_joined) auto
    then have "joined '','' ?ws \<noteq> []" using w by (auto simp: result_parts_def VALID_RESULTS_def js_trim_def)
    with False p w s show ?thesis
      by (simp add: dns_result_change_def dns_shown_def parseResultFilter_def)
  qed
qed

lemma toggle_result_valid: "F \<subseteq> set VALID_RESULTS \<Longrightarrow> r \<in> set VALID_RESULTS \<Longrightarrow> toggle_result r F \<subseteq> set VALID_RESULTS"
  by (auto simp: toggle_result_def)

lemma toggle_result_twice: "toggle_result r (toggle_result r F) = F"
  by (auto simp: toggle_result_def)

text \<open>Each callback sets its own part of what is shown and leaves the others.\<close>

lemma dns_changes_shown:
  "v \<in> set DNS_TABS \<Longrightarrow> dns_shown (nv_here (dns_tab_change v n)) = (dns_shown (nv_here n))\<lparr>dn_tab := v\<rparr>"
  "v \<in> set DNS_RANGES \<Longrightarrow> dns_shown (nv_here (dns_range_change v n)) = (dns_shown (nv_here n))\<lparr>dn_range := v\<rparr>"
  "dns_shown (nv_here (dns_query_change q n)) = (dns_shown (nv_here n))\<lparr>dn_q := q\<rparr>"
  "F \<subseteq> set VALID_RESULTS \<Longrightarrow>
     dns_shown (nv_here (dns_result_change F n)) = (dns_shown (nv_here n))\<lparr>dn_filter := F\<rparr>"
proof -
  assume F: "F \<subseteq> set VALID_RESULTS"
  have "dns_shown (nv_here (dns_result_change F n)) = (dns_shown (nv_here n))
      \<lparr>dn_filter := dn_filter (dns_shown (nv_here (dns_result_change F n)))\<rparr>"
    by (simp add: dns_result_change_def dns_shown_def)
  with dns_result_change_shown[OF F] show "dns_shown (nv_here (dns_result_change F n)) =
      (dns_shown (nv_here n))\<lparr>dn_filter := F\<rparr>" by simp
qed (simp_all add: dns_tab_change_def dns_range_change_def dns_query_change_def dns_shown_def listed_def or_else_def)

interpretation dns: corrected_page dns_correct dns_shown
proof
  fix u u' assume c: "dns_correct u = Some u'"
  let ?d = "\<lambda>b k u. if b then url_delete k u else u"
  let ?t = "invalid DNS_TABS (url_get ''tab'' u)" and ?r = "invalid DNS_RANGES (url_get ''range'' u)"
    and ?f = "\<not> isResultParamValid (url_get ''result'' u)"
  have u': "u' = ?d ?f ''result'' (?d ?r ''range'' (?d ?t ''tab'' u))"
    using c by (simp add: dns_correct_def Let_def split: if_splits)
  have g: "url_get ''tab'' u' = (if ?t then None else url_get ''tab'' u)"
    "url_get ''range'' u' = (if ?r then None else url_get ''range'' u)"
    "url_get ''result'' u' = (if ?f then None else url_get ''result'' u)"
    "url_get ''q'' u' = url_get ''q'' u"
    unfolding u' by simp_all
  show "dns_shown u' = dns_shown u"
    by (auto simp: dns_shown_def g invalid_def listed_def parseResultFilter_def isResultParamValid_def
        split: option.splits)
  show "dns_correct u' = None"
    by (auto simp: dns_correct_def g invalid_def isResultParamValid_def Let_def)
qed

text \<open>What is sent while a text is composed is nothing; the end of the composition sends the whole text.\<close>

lemma records_composition:
  assumes "sb_composing (fst s)"
  shows "snd (records_change v native s) = snd s"
    and "records_text (records_change v native s) = v"
    and "dn_q (dns_shown (nv_here (snd (records_composition_end w s)))) = w"
    and "records_text (records_composition_end w s) = w"
  using assms dns_changes_shown(3)
  by (cases s; simp add: records_change_def records_composition_end_def records_text_def or_else_def)+

lemma dns_totals_sums:
  "dns_totals ms = (sum_of dk_total ms, sum_of dk_matched ms, sum_of dk_nxdomain ms, sum_of dk_forwarded ms)"
proof -
  have "foldl (\<lambda>(t, m, x, f) b. (t + dk_total b, m + dk_matched b, x + dk_nxdomain b, f + dk_forwarded b)) (a, b, c, d) ms
      = (a + sum_of dk_total ms, b + sum_of dk_matched ms, c + sum_of dk_nxdomain ms, d + sum_of dk_forwarded ms)"
    for a b c d by (induction ms arbitrary: a b c d) simp_all
  from this[of 0 0 0 0] show ?thesis by (simp add: dns_totals_def)
qed

end
