(* ===== verification/Detail_Tabs.thy ===== *)
theory Detail_Tabs
  imports Url_State Events_Routes
begin

section \<open>The web client: the detail page of a domain\<close>

text \<open>
  \<open>components/domains/detail\<close>: the tabs with their periods and refresh intervals (\<open>DomainDetailTabs.tsx\<close>),
  the choice of a period (\<open>PeriodSelector.tsx\<close>), the requests for statistics, logs and URLs that follow
  from it, and the tables that page through their answers. The conversion between a local date and a time,
  which depends on the time zone, and the text of a number are arguments.
\<close>

subsection \<open>Tabs, periods, refresh intervals\<close>

definition DETAIL_TABS :: "string list" where
  "DETAIL_TABS = [''overview'', ''optimizer'', ''traffic'', ''diagnose'', ''settings'']"

definition VALID_PERIODS :: "string list" where
  "VALID_PERIODS = [''1h'', ''24h'', ''7d'', ''30d'', ''custom'']"

text \<open>A period, with the range of times in seconds where one is chosen.\<close>

type_synonym 'n chosen_period = "string \<times> ('n \<times> 'n) option"

text \<open>The test that \<open>readPeriod\<close> and the correction share: two finite numbers, positive, the first smaller.\<close>

definition url_range :: "string option \<Rightarrow> string option \<Rightarrow> (rat \<times> rat) option" where
  "url_range fromRaw toRaw =
     (case (fromRaw, toRaw) of
        (Some f, Some t) \<Rightarrow>
          (case (number_of_string f, number_of_string t) of
             (Fin x, Fin y) \<Rightarrow> if x \<le> 0 \<or> y \<le> x then None else Some (x, y)
           | _ \<Rightarrow> None)
      | _ \<Rightarrow> None)"

definition readPeriod :: "params \<Rightarrow> string \<Rightarrow> rat chosen_period" where
  "readPeriod u pre =
     (let period = url_get (pre @ ''Period'') u
      in if \<not> listed VALID_PERIODS period then (''24h'', None)
         else if period \<noteq> Some ''custom'' then (the period, None)
         else (''custom'', url_range (url_get (pre @ ''From'') u) (url_get (pre @ ''To'') u)))"

definition ALLOWED_REFRESH :: "int list" where
  "ALLOWED_REFRESH = [0, 10000, 30000, 60000, 300000]"

definition readRefresh :: "string \<Rightarrow> params \<Rightarrow> int" where
  "readRefresh k u =
     (case url_get k u of
        None \<Rightarrow> 30000
      | Some raw \<Rightarrow>
          (case number_of_string raw of
             Fin x \<Rightarrow> if of_int \<lfloor>x\<rfloor> = x \<and> \<lfloor>x\<rfloor> \<in> set ALLOWED_REFRESH then \<lfloor>x\<rfloor> else 30000
           | _ \<Rightarrow> 30000))"

record detail_page =
  dt_tab :: string
  dt_op :: "rat chosen_period"
  dt_tf :: "rat chosen_period"
  dt_op_refresh :: int
  dt_tf_refresh :: int

definition detail_shown :: "params \<Rightarrow> detail_page" where
  "detail_shown u =
     \<lparr>dt_tab = (if listed DETAIL_TABS (url_get ''tab'' u) then the (url_get ''tab'' u) else ''overview''),
      dt_op = readPeriod u ''op'', dt_tf = readPeriod u ''tf'',
      dt_op_refresh = readRefresh ''opRefresh'' u, dt_tf_refresh = readRefresh ''tfRefresh'' u\<rparr>"

datatype bad = BadPeriod | BadRange

definition diagnose :: "params \<Rightarrow> string \<Rightarrow> bad option" where
  "diagnose u pre =
     (let period = url_get (pre @ ''Period'') u; f = url_get (pre @ ''From'') u; t = url_get (pre @ ''To'') u
      in if invalid VALID_PERIODS period then Some BadPeriod
         else if period = Some ''custom'' \<and> \<not> (f = None \<and> t = None) \<and> url_range f t = None then Some BadRange
         else None)"

definition remove_bad :: "string \<Rightarrow> bad option \<Rightarrow> params \<Rightarrow> params" where
  "remove_bad pre b u =
     (case b of
        None \<Rightarrow> u
      | Some BadPeriod \<Rightarrow> url_delete (pre @ ''To'') (url_delete (pre @ ''From'') (url_delete (pre @ ''Period'') u))
      | Some BadRange \<Rightarrow> url_delete (pre @ ''To'') (url_delete (pre @ ''From'') u))"

definition detail_correct :: "params \<Rightarrow> params option" where
  "detail_correct u =
     (let tabInvalid = invalid DETAIL_TABS (url_get ''tab'' u); opBad = diagnose u ''op''; tfBad = diagnose u ''tf''
      in if \<not> tabInvalid \<and> opBad = None \<and> tfBad = None then None
         else Some (remove_bad ''tf'' tfBad (remove_bad ''op'' opBad (if tabInvalid then url_delete ''tab'' u else u))))"

definition detail_tab_change :: "string \<Rightarrow> nav \<Rightarrow> nav" where
  "detail_tab_change v = set_search_params False (url_set ''tab'' v)"

text \<open>The times that reach \<open>writePeriod\<close> are whole seconds; 0 counts as missing.\<close>

definition writePeriod :: "string \<Rightarrow> int chosen_period \<Rightarrow> nav \<Rightarrow> nav" where
  "writePeriod pre v =
     set_search_params True (\<lambda>u.
       let u1 = url_set (pre @ ''Period'') (fst v) u
       in case snd v of
            Some (f, t) \<Rightarrow>
              if fst v = ''custom'' \<and> f \<noteq> 0 \<and> t \<noteq> 0
              then url_set (pre @ ''To'') (int_text t) (url_set (pre @ ''From'') (int_text f) u1)
              else url_delete (pre @ ''To'') (url_delete (pre @ ''From'') u1)
          | None \<Rightarrow> url_delete (pre @ ''To'') (url_delete (pre @ ''From'') u1))"

definition writeRefresh :: "string \<Rightarrow> int \<Rightarrow> nav \<Rightarrow> nav" where
  "writeRefresh k v = set_search_params True (if v = 30000 then url_delete k else url_set k (int_text v))"

subsection \<open>The choice of a period\<close>

text \<open>
  What the component hands to \<open>onChange\<close>, or the message. \<open>epoch\<close> is \<open>dateStrToEpoch\<close> in the local
  time zone, \<open>None\<close> when it is not finite, \<open>day\<close> is \<open>epochToDateStr\<close>.
\<close>

record selector =
  ps_custom_open :: bool
  ps_error :: bool

definition select_preset :: "string \<Rightarrow> selector \<Rightarrow> selector \<times> int chosen_period option" where
  "select_preset p s = (s\<lparr>ps_custom_open := False, ps_error := False\<rparr>, Some (p, None))"

definition select_custom :: "string \<Rightarrow> selector \<Rightarrow> selector \<times> int chosen_period option" where
  "select_custom period s =
     (s\<lparr>ps_custom_open := True\<rparr>, if period \<noteq> ''custom'' then Some (''custom'', None) else None)"

definition applyCustom ::
  "(string \<Rightarrow> bool \<Rightarrow> int option) \<Rightarrow> string \<Rightarrow> string \<Rightarrow> selector \<Rightarrow> selector \<times> int chosen_period option" where
  "applyCustom epoch fromStr toStr s =
     (if fromStr = [] \<or> toStr = [] then (s, None)
      else (case (epoch fromStr False, epoch toStr True) of
              (Some f, Some t) \<Rightarrow>
                if t \<le> f then (s\<lparr>ps_error := True\<rparr>, None)
                else (s\<lparr>ps_error := False\<rparr>, Some (''custom'', Some (f, t)))
            | _ \<Rightarrow> (s, None)))"

definition change_from ::
  "(string \<Rightarrow> bool \<Rightarrow> int option) \<Rightarrow> (rat \<Rightarrow> string) \<Rightarrow> int \<Rightarrow> rat chosen_period \<Rightarrow> string \<Rightarrow> selector \<Rightarrow>
     selector \<times> int chosen_period option" where
  "change_from epoch day now v x =
     applyCustom epoch x (case snd v of Some (f, t) \<Rightarrow> if t \<noteq> 0 then day t else day (of_int now)
                          | None \<Rightarrow> day (of_int now))"

definition change_to ::
  "(string \<Rightarrow> bool \<Rightarrow> int option) \<Rightarrow> (rat \<Rightarrow> string) \<Rightarrow> rat chosen_period \<Rightarrow> string \<Rightarrow> selector \<Rightarrow>
     selector \<times> int chosen_period option" where
  "change_to epoch day v x =
     applyCustom epoch (case snd v of Some (f, t) \<Rightarrow> if f \<noteq> 0 then day f else x | None \<Rightarrow> x) x"


subsection \<open>The requests of the tabs\<close>

text \<open>
  \<open>useDomainStats\<close>, \<open>useDomainTopUrls\<close> and \<open>useDomainLogs\<close> with the calls behind them: no request for a
  custom period without a range. \<open>txt\<close> is the text of a number.
\<close>

definition tab_range :: "rat chosen_period \<Rightarrow> (rat \<times> rat) option" where
  "tab_range v = (if fst v = ''custom'' then snd v else None)"

definition stats_request ::
  "(rat \<Rightarrow> string) \<Rightarrow> rat chosen_period \<Rightarrow> (string \<times> string option \<times> string option) option" where
  "stats_request txt v =
     (if fst v \<noteq> ''custom'' \<or> tab_range v \<noteq> None
      then Some (fst v, map_option (\<lambda>r. txt (fst r)) (tab_range v), map_option (\<lambda>r. txt (snd r)) (tab_range v))
      else None)"

text \<open>The table of the logs: the search, the errors alone, 50 rows and 50 more with each click.\<close>

record log_table =
  lt_search :: string
  lt_errors_only :: bool
  lt_limit :: int
  lt_prev_period :: string
  lt_prev_errors :: bool

definition log_table_init :: "string \<Rightarrow> log_table" where
  "log_table_init period =
     \<lparr>lt_search = [], lt_errors_only = False, lt_limit = 50, lt_prev_period = period, lt_prev_errors = False\<rparr>"

definition log_table_render :: "string \<Rightarrow> log_table \<Rightarrow> log_table" where
  "log_table_render period s =
     (if period \<noteq> lt_prev_period s \<or> lt_errors_only s \<noteq> lt_prev_errors s
      then s\<lparr>lt_prev_period := period, lt_prev_errors := lt_errors_only s, lt_limit := 50\<rparr> else s)"

definition logs_query_of ::
  "(rat \<Rightarrow> string) \<Rightarrow> rat chosen_period \<Rightarrow> string \<Rightarrow> log_table \<Rightarrow> logs_query option" where
  "logs_query_of txt v debounced s =
     (if fst v \<noteq> ''custom'' \<or> tab_range v \<noteq> None
      then Some \<lparr>gq_limit = Some (int_text (lt_limit s)), gq_offset = Some (int_text 0),
        gq_status = (if lt_errors_only s then Some ''error'' else None), gq_cache = None, gq_period = Some (fst v),
        gq_from = map_option (\<lambda>r. txt (fst r)) (tab_range v), gq_to = map_option (\<lambda>r. txt (snd r)) (tab_range v),
        gq_q = (if debounced \<noteq> [] then Some debounced else None)\<rparr>
      else None)"

definition logs_filtered :: "log_table \<Rightarrow> log_row list \<Rightarrow> log_row list" where
  "logs_filtered s =
     filter (\<lambda>r. lt_search s = [] \<or> js_includes (js_lower (lt_search s)) (js_lower (lg_path r)))"

definition more_offered :: "log_table \<Rightarrow> log_row list option \<Rightarrow> bool" where
  "more_offered s data = (case data of None \<Rightarrow> False | Some rows \<Rightarrow> lt_limit s \<le> int (length rows))"

definition more_click :: "log_table \<Rightarrow> log_table" where
  "more_click s = s\<lparr>lt_limit := lt_limit s + 50\<rparr>"

definition logs_clear_filters :: "log_table \<Rightarrow> log_table" where
  "logs_clear_filters s = s\<lparr>lt_search := [], lt_errors_only := False\<rparr>"

text \<open>\<open>DomainStatsTab\<close>: what the sections show for a period they have no data for.\<close>

definition toSeriesRange :: "'n chosen_period \<Rightarrow> string" where
  "toSeriesRange p = (if fst p = ''1h'' then ''1h'' else ''24h'')"

definition isSeriesDegraded :: "'n chosen_period \<Rightarrow> bool" where
  "isSeriesDegraded p = (fst p \<noteq> ''1h'' \<and> fst p \<noteq> ''24h'')"

definition effectiveStatsPeriod :: "'n chosen_period \<Rightarrow> string" where
  "effectiveStatsPeriod p = (if fst p = ''custom'' then ''24h'' else fst p)"

text \<open>The table of the optimized URLs, which pages by 50 through the answer.\<close>

definition PAGE :: int where
  "PAGE = 50"

record url_table =
  ut_q :: string
  ut_sort :: string
  ut_decision :: string
  ut_offset :: int
  ut_prev_period :: string

definition url_table_init :: "string \<Rightarrow> url_table" where
  "url_table_init period =
     \<lparr>ut_q = [], ut_sort = ''savings'', ut_decision = ''all'', ut_offset = 0, ut_prev_period = period\<rparr>"

definition UT_DECISIONS :: "string list" where
  "UT_DECISIONS =
     [''all'', ''optimized'', ''passthrough_larger'', ''passthrough_error'', ''passthrough_unsupported'',
      ''compressed_br'', ''compressed_gzip'', ''skipped_small'', ''skipped_type'']"

definition UT_SORTS :: "string list" where
  "UT_SORTS = [''savings'', ''orig_size'', ''events'']"

datatype ut_event =
  UtRender string
| UtSearch string
| UtDecision string
| UtSort string
| UtPrev
| UtNext
| UtClear

fun url_table_step :: "ut_event \<Rightarrow> url_table \<Rightarrow> url_table" where
  "url_table_step (UtRender period) s =
     (if period \<noteq> ut_prev_period s then s\<lparr>ut_prev_period := period, ut_offset := 0\<rparr> else s)"
| "url_table_step (UtSearch v) s = s\<lparr>ut_q := v, ut_offset := 0\<rparr>"
| "url_table_step (UtDecision v) s = s\<lparr>ut_decision := v, ut_offset := 0\<rparr>"
| "url_table_step (UtSort v) s = s\<lparr>ut_sort := v, ut_offset := 0\<rparr>"
| "url_table_step UtPrev s = s\<lparr>ut_offset := max (ut_offset s - PAGE) 0\<rparr>"
| "url_table_step UtNext s = s\<lparr>ut_offset := ut_offset s + PAGE\<rparr>"
| "url_table_step UtClear s = s\<lparr>ut_q := [], ut_decision := ''all'', ut_offset := 0\<rparr>"

text \<open>The choices on offer, and the buttons that are enabled beside a table with rows.\<close>

fun ut_possible :: "nat option \<Rightarrow> url_table \<Rightarrow> ut_event \<Rightarrow> bool" where
  "ut_possible shown s (UtRender period) = (period \<in> set VALID_PERIODS - {''custom''})"
| "ut_possible shown s (UtSearch v) = True"
| "ut_possible shown s (UtDecision v) = (v \<in> set UT_DECISIONS)"
| "ut_possible shown s (UtSort v) = (v \<in> set UT_SORTS)"
| "ut_possible shown s UtPrev = (shown \<noteq> None \<and> ut_offset s \<noteq> 0)"
| "ut_possible shown s UtNext = (case shown of None \<Rightarrow> False | Some n \<Rightarrow> ut_offset s + PAGE < int n)"
| "ut_possible shown s UtClear = True"

definition url_table_request :: "url_table \<Rightarrow> breakdown_params" where
  "url_table_request s =
     \<lparr>up_period = Some (ut_prev_period s), up_sort = Some (ut_sort s),
      up_decision = (if ut_decision s = ''all'' then None else Some (ut_decision s)),
      up_q = (if js_trim (ut_q s) \<noteq> [] then Some (js_trim (ut_q s)) else None),
      up_limit = Some (int_text PAGE), up_offset = Some (int_text (ut_offset s))\<rparr>"


subsection \<open>Laws\<close>

text \<open>Deleting, as a function of what is read.\<close>

lemma url_get_remove_bad:
  "url_get k (remove_bad pre b u) =
     (if (b = Some BadPeriod \<and> k \<in> {pre @ ''Period'', pre @ ''From'', pre @ ''To''}) \<or>
         (b = Some BadRange \<and> k \<in> {pre @ ''From'', pre @ ''To''}) then None else url_get k u)"
  by (cases b) (auto simp: remove_bad_def split: bad.splits)

lemma url_range_None [simp]: "url_range None t = None" "url_range f None = None"
  by (simp_all add: url_range_def split: option.splits)

lemma period_cases:
  "\<not> listed VALID_PERIODS None" "listed VALID_PERIODS (Some ''custom'')"
  by (simp_all add: listed_def VALID_PERIODS_def)

lemma readPeriod_removed:
  assumes r: "\<And>k. k \<in> {pre @ ''Period'', pre @ ''From'', pre @ ''To''} \<Longrightarrow>
      url_get k u' = url_get k (remove_bad pre (diagnose u pre) u)"
  shows "readPeriod u' pre = readPeriod u pre" and "diagnose u' pre = None"
proof -
  let ?b = "diagnose u pre"
  have g: "url_get (pre @ ''Period'') u' = (if ?b = Some BadPeriod then None else url_get (pre @ ''Period'') u)"
    "url_get (pre @ ''From'') u' = (if ?b = None then url_get (pre @ ''From'') u else None)"
    "url_get (pre @ ''To'') u' = (if ?b = None then url_get (pre @ ''To'') u else None)"
    using r by (cases ?b; simp add: url_get_remove_bad; metis bad.exhaust)+
  show "readPeriod u' pre = readPeriod u pre"
  proof (cases ?b)
    case None
    then show ?thesis unfolding readPeriod_def g by simp
  next
    case (Some b)
    then show ?thesis
      unfolding readPeriod_def g by (cases b) (auto simp: diagnose_def invalid_def period_cases Let_def split: if_splits)
  qed
  show "diagnose u' pre = None"
  proof (cases ?b)
    case None
    then show ?thesis unfolding diagnose_def g by (simp split: if_splits)
  next
    case (Some b)
    then show ?thesis
      unfolding diagnose_def[of u'] g by (cases b) (auto simp: diagnose_def[of u] invalid_def period_cases Let_def split: if_splits)
  qed
qed

interpretation detail: corrected_page detail_correct detail_shown
proof
  fix u u' assume "detail_correct u = Some u'"
  then have u': "u' = remove_bad ''tf'' (diagnose u ''tf'') (remove_bad ''op'' (diagnose u ''op'')
      (if invalid DETAIL_TABS (url_get ''tab'' u) then url_delete ''tab'' u else u))"
    by (simp add: detail_correct_def Let_def split: if_splits)
  have op: "url_get k u' = url_get k (remove_bad ''op'' (diagnose u ''op'') u)"
    if "k \<in> {''op'' @ ''Period'', ''op'' @ ''From'', ''op'' @ ''To''}" for k
    using that unfolding u' by (auto simp: url_get_remove_bad)
  have tf: "url_get k u' = url_get k (remove_bad ''tf'' (diagnose u ''tf'') u)"
    if "k \<in> {''tf'' @ ''Period'', ''tf'' @ ''From'', ''tf'' @ ''To''}" for k
    using that unfolding u' by (auto simp: url_get_remove_bad)
  have tab: "url_get ''tab'' u' = (if invalid DETAIL_TABS (url_get ''tab'' u) then None else url_get ''tab'' u)"
    unfolding u' by (simp add: url_get_remove_bad)
  have rf: "url_get ''opRefresh'' u' = url_get ''opRefresh'' u" "url_get ''tfRefresh'' u' = url_get ''tfRefresh'' u"
    unfolding u' by (simp_all add: url_get_remove_bad)
  show "detail_shown u' = detail_shown u"
    using readPeriod_removed(1)[OF op] readPeriod_removed(1)[OF tf]
    by (auto simp: detail_shown_def tab rf readRefresh_def invalid_def listed_def split: option.splits)
  show "detail_correct u' = None"
    using readPeriod_removed(2)[OF op] readPeriod_removed(2)[OF tf]
    by (auto simp: detail_correct_def tab invalid_def Let_def)
qed

text \<open>A period that is written is the period that is read, and the other tab keeps its own.\<close>

definition period_ok :: "int chosen_period \<Rightarrow> bool" where
  "period_ok v =
     (fst v \<in> set VALID_PERIODS \<and>
      (case snd v of None \<Rightarrow> True | Some (f, t) \<Rightarrow> fst v = ''custom'' \<and> 0 < f \<and> f < t))"

definition exact :: "int chosen_period \<Rightarrow> rat chosen_period" where
  "exact v = (fst v, map_option (\<lambda>(f, t). (of_int f, of_int t)) (snd v))"

lemma readPeriod_write:
  assumes "period_ok v" and "pre \<in> {''op'', ''tf''}"
  shows "readPeriod (nv_here (writePeriod pre v n)) pre = exact v"
proof (cases "snd v")
  case None
  with assms show ?thesis
    by (auto simp: readPeriod_def writePeriod_def exact_def period_ok_def listed_def Let_def)
next
  case (Some r)
  then obtain f t where r: "snd v = Some (f, t)" by force
  then have v: "fst v = ''custom''" "0 < f" "f < t" using assms(1) by (auto simp: period_ok_def)
  have l: "listed VALID_PERIODS (Some ''custom'')" by (simp add: listed_def VALID_PERIODS_def)
  have "url_range (Some (int_text f)) (Some (int_text t)) = Some (of_int f, of_int t)"
    using v number_of_int_text[of f] number_of_int_text[of t] by (simp add: url_range_def)
  with v r l assms(2) show ?thesis
    by (auto simp: readPeriod_def writePeriod_def exact_def Let_def)
qed

lemma readPeriod_write_other:
  "pre \<in> {''op'', ''tf''} \<Longrightarrow> pre' \<in> {''op'', ''tf''} \<Longrightarrow> pre \<noteq> pre' \<Longrightarrow>
     readPeriod (nv_here (writePeriod pre v n)) pre' = readPeriod (nv_here n) pre'"
  by (auto simp: readPeriod_def writePeriod_def Let_def split: option.splits prod.splits)

lemma applyCustom_ok:
  "applyCustom epoch x y s = (s', Some v) \<Longrightarrow> (\<And>d b e. epoch d b = Some e \<Longrightarrow> 0 < e) \<Longrightarrow> period_ok v"
  by (auto simp: applyCustom_def period_ok_def VALID_PERIODS_def split: if_splits option.splits)

lemma readRefresh_write:
  assumes "v \<in> set ALLOWED_REFRESH"
  shows "readRefresh k (nv_here (writeRefresh k v n)) = v"
  using assms number_of_int_text[of v]
  by (auto simp: readRefresh_def writeRefresh_def ALLOWED_REFRESH_def)

text \<open>Whatever the address says, the period read is one the server knows, and its range is in order.\<close>

lemma readPeriod_known:
  assumes "readPeriod u pre = v"
  shows "period_of (fst v) \<noteq> None" and "tab_range v = Some (f, t) \<Longrightarrow> f < t \<and> fst v = ''custom''"
proof -
  show "period_of (fst v) \<noteq> None"
    using assms by (auto simp: readPeriod_def listed_def VALID_PERIODS_def period_of_def Let_def split: option.splits if_splits)
  assume "tab_range v = Some (f, t)"
  then show "f < t \<and> fst v = ''custom''"
    using assms
    by (auto simp: tab_range_def readPeriod_def url_range_def Let_def split: option.splits if_splits jsnum.splits)
qed


subsection \<open>The server accepts the requests\<close>

text \<open>
  Of the number texts only this is used: a number of the range reads back as itself.
\<close>

definition reads_back :: "(rat \<Rightarrow> string) \<Rightarrow> rat chosen_period \<Rightarrow> bool" where
  "reads_back txt v =
     (case tab_range v of None \<Rightarrow> True
      | Some (f, t) \<Rightarrow> number_of_string (txt f) = Fin f \<and> number_of_string (txt t) = Fin t)"

lemma custom_range_reads_back:
  "tab_range v = Some (f, t) \<Longrightarrow> f < t \<Longrightarrow> reads_back txt v \<Longrightarrow> custom_range (Some (txt f)) (Some (txt t)) = Some (f, t)"
  by (simp add: custom_range_def opt_number_def reads_back_def)

lemma stats_request_accepted:
  assumes "stats_request txt (readPeriod u pre) = Some (p, f, t)" and "reads_back txt (readPeriod u pre)"
  shows "get_host_stats bucket now rawHost (Some p) f t s \<noteq> Reject 400 code"
proof -
  let ?v = "readPeriod u pre"
  have p: "p = fst ?v" "f = map_option (\<lambda>r. txt (fst r)) (tab_range ?v)" "t = map_option (\<lambda>r. txt (snd r)) (tab_range ?v)"
    and c: "fst ?v \<noteq> ''custom'' \<or> tab_range ?v \<noteq> None"
    using assms(1) by (auto simp: stats_request_def split: if_splits)
  obtain q where q: "period_of p = Some q" using readPeriod_known(1)[OF refl] p(1) by auto
  have "custom_range f t \<noteq> None" if "q = PCustom"
  proof -
    have "fst ?v = ''custom''" using that q p(1) by (auto simp: period_of_def split: if_splits)
    then obtain x y where r: "tab_range ?v = Some (x, y)" using c by auto
    from custom_range_reads_back[OF r _ assms(2)] readPeriod_known(2)[OF refl r] r p(2,3)
    show ?thesis by simp
  qed
  with q show ?thesis
    by (auto simp: get_host_stats_def split: option.splits sum.splits prod.splits)
qed

text \<open>Up to a thousand rows the logs are answered; one click beyond them the request is refused.\<close>

lemma coerce_int_text: "0 \<le> lo \<Longrightarrow> lo \<le> n \<Longrightarrow> coerce_int lo hi (int_text n) =
    (case hi of None \<Rightarrow> Some n | Some h \<Rightarrow> if n \<le> h then Some n else None)"
  using number_of_int_text[of n] by (auto simp: coerce_int_def split: option.splits)

lemma int_text_nonempty: "0 \<le> n \<Longrightarrow> int_text n \<noteq> []"
  using nat_text_fuel_val[of "nat n" "Suc (nat n)"] by (simp add: int_text_def del: nat_text_fuel.simps)

lemma logs_window_known:
  assumes "logs_query_of txt (readPeriod u pre) d s = Some gq" and "reads_back txt (readPeriod u pre)"
  shows "logs_window now (Option.bind (gq_period gq) period_of) (gq_from gq) (gq_to gq) \<noteq> None"
proof -
  let ?v = "readPeriod u pre"
  obtain q where q: "period_of (fst ?v) = Some q" using readPeriod_known(1)[OF refl] by auto
  have gq: "gq_period gq = Some (fst ?v)" "gq_from gq = map_option (\<lambda>r. txt (fst r)) (tab_range ?v)"
    "gq_to gq = map_option (\<lambda>r. txt (snd r)) (tab_range ?v)"
    and c: "fst ?v \<noteq> ''custom'' \<or> tab_range ?v \<noteq> None"
    using assms(1) by (auto simp: logs_query_of_def split: if_splits)
  have "custom_range (gq_from gq) (gq_to gq) \<noteq> None" if "q = PCustom"
  proof -
    have "fst ?v = ''custom''" using that q by (auto simp: period_of_def split: if_splits)
    then obtain x y where r: "tab_range ?v = Some (x, y)" using c by auto
    from custom_range_reads_back[OF r _ assms(2)] readPeriod_known(2)[OF refl r] r gq
    show ?thesis by simp
  qed
  with q gq show ?thesis by (cases q) (auto simp: logs_window_def)
qed

lemma logs_request_limit:
  assumes "logs_query_of txt (readPeriod u pre) d lt = Some gq" and "reads_back txt (readPeriod u pre)"
    and "1 \<le> lt_limit lt" and "host_param rawHost = Some h" and "findByHost (t_domains s) h \<noteq> None"
  shows "(\<exists>rows. get_logs parse tbl raw now rawHost gq s = Ok 200 rows) \<longleftrightarrow> lt_limit lt \<le> 1000"
    and "1000 < lt_limit lt \<Longrightarrow> get_logs parse tbl raw now rawHost gq s = Reject 400 ''invalid_input''"
proof -
  have g: "gq_limit gq = Some (int_text (lt_limit lt))" "gq_offset gq = Some (int_text 0)" "gq_cache gq = None"
    "gq_status gq = None \<or> gq_status gq = Some ''error''" "gq_period gq = Some (fst (readPeriod u pre))"
    using assms(1) by (auto simp: logs_query_of_def split: if_splits)
  have l: "optional_int 1 (Some 1000) (gq_limit gq) = (if lt_limit lt \<le> 1000 then Some (Some (lt_limit lt)) else None)"
    using assms(3) g(1) coerce_int_text[of 1 "lt_limit lt" "Some 1000"] int_text_nonempty[of "lt_limit lt"]
    by (simp add: optional_int_def)
  have o: "optional_int 0 None (gq_offset gq) = Some (Some 0)"
    using g(2) coerce_int_text[of 0 0 None] int_text_nonempty[of 0] by (simp add: optional_int_def)
  have p: "\<not> (case gq_period gq of None \<Rightarrow> False | Some p \<Rightarrow> period_of p = None)"
    using g(5) readPeriod_known(1)[of u pre] by simp
  have st: "\<not> bad_value [''5xx'', ''4xx'', ''error''] id (gq_status gq)" "\<not> bad_value [''hit'', ''miss''] id (gq_cache gq)"
    using g(3,4) by (auto simp: bad_value_def)
  show "(\<exists>rows. get_logs parse tbl raw now rawHost gq s = Ok 200 rows) \<longleftrightarrow> lt_limit lt \<le> 1000"
    using logs_window_known[OF assms(1,2), of now] assms(4,5) l o p st
    by (auto simp: get_logs_def split: option.splits)
  show "1000 < lt_limit lt \<Longrightarrow> get_logs parse tbl raw now rawHost gq s = Reject 400 ''invalid_input''"
    using assms(4,5) l by (auto simp: get_logs_def split: option.splits)
qed

text \<open>The table of the URLs keeps to the white lists of the server.\<close>

inductive ut_reachable :: "url_table \<Rightarrow> bool" where
  Init: "p \<in> set VALID_PERIODS - {''custom''} \<Longrightarrow> ut_reachable (url_table_init p)"
| Step: "ut_reachable s \<Longrightarrow> ut_possible shown s e \<Longrightarrow> ut_reachable (url_table_step e s)"

definition ut_ok :: "url_table \<Rightarrow> bool" where
  "ut_ok s \<longleftrightarrow> ut_prev_period s \<in> set VALID_PERIODS - {''custom''} \<and> ut_sort s \<in> set UT_SORTS \<and>
     ut_decision s \<in> set UT_DECISIONS \<and> 0 \<le> ut_offset s \<and> PAGE dvd ut_offset s"

lemma ut_reachable_ok: "ut_reachable s \<Longrightarrow> ut_ok s"
proof (induction rule: ut_reachable.induct)
  case (Init p)
  then show ?case by (simp add: ut_ok_def url_table_init_def UT_SORTS_def UT_DECISIONS_def)
next
  case (Step s shown e)
  moreover have "0 \<le> PAGE" "''all'' \<in> set UT_DECISIONS" by (simp_all add: PAGE_def UT_DECISIONS_def)
  ultimately show ?case
    by (cases e) (auto simp: ut_ok_def max_def)
qed

text \<open>The query that the server reads out of a request of the table.\<close>

definition ut_query :: "string \<Rightarrow> url_table \<Rightarrow> breakdown_query" where
  "ut_query h s =
     \<lparr>bq_host = h,
      bq_period_sec = (case PERIOD_TO_SEC (ut_prev_period s) of PSeconds n \<Rightarrow> Some n | _ \<Rightarrow> None),
      bq_sort = nonempty (Some (ut_sort s)), bq_decision = nonempty (up_decision (url_table_request s)),
      bq_search = up_q (url_table_request s), bq_limit = int_prim (Some PAGE),
      bq_offset = int_prim (Some (ut_offset s))\<rparr>"

lemma url_table_answered:
  assumes "ut_ok s" and "host_param rawHost = Some h"
  shows "get_url_breakdown now rawHost (url_table_request s) evs = Ok 200 (urlBreakdown now (ut_query h s) evs)"
proof -
  have a: "ut_prev_period s \<in> set VALID_PERIODS - {''custom''}" "ut_sort s \<in> set UT_SORTS"
    "ut_decision s \<in> set UT_DECISIONS" "0 \<le> ut_offset s"
    using assms(1) by (simp_all add: ut_ok_def)
  obtain n where n: "PERIOD_TO_SEC (ut_prev_period s) = PSeconds n" "ut_prev_period s \<noteq> []"
    using a(1) by (auto simp: VALID_PERIODS_def PERIOD_TO_SEC_def)
  have so: "\<not> bad_value ([] # [''savings'', ''orig_size'', ''events'']) id (Some (ut_sort s))"
    using a(2) by (simp add: bad_value_def UT_SORTS_def)
  have d: "\<not> bad_value ([] # ALLOWED_DECISIONS) id (up_decision (url_table_request s))"
    using a(3) by (auto simp: bad_value_def url_table_request_def UT_DECISIONS_def ALLOWED_DECISIONS_def)
  have l: "optional_int 1 (Some 500) (Some (int_text PAGE)) = Some (Some PAGE)"
    using coerce_int_text[of 1 PAGE "Some 500"] int_text_nonempty[of PAGE] by (simp add: optional_int_def PAGE_def)
  have o: "optional_int 0 None (Some (int_text (ut_offset s))) = Some (Some (ut_offset s))"
    using a(4) coerce_int_text[of 0 "ut_offset s" None] int_text_nonempty[of "ut_offset s"] by (simp add: optional_int_def)
  show ?thesis
    using n so d l o assms(2)
    unfolding get_url_breakdown_def by (simp add: url_table_request_def ut_query_def or_else_def)
qed

text \<open>Its answer is the section of 50 that begins at the offset, with the total.\<close>

lemma urlBreakdown_page:
  assumes "0 \<le> ut_offset s" and "ut_offset s \<le> 1000000"
  shows "fst (urlBreakdown now (ut_query h s) evs) =
           length (group_by e_url (filter (breakdown_matches now (ut_query h s)) (ev_rows evs)))"
    and "length (snd (urlBreakdown now (ut_query h s) evs)) =
           min 50 (fst (urlBreakdown now (ut_query h s) evs) - nat (ut_offset s))"
proof -
  have cl: "clampInt (bq_limit (ut_query h s)) \<lparr>co_min = Some 1, co_max = 500, co_fallback = 50\<rparr> = 50"
    by (simp add: clampInt_def int_prim_def PAGE_def clampOnly_def ut_query_def)
  have co: "clampOffset (bq_offset (ut_query h s)) 1000000 = ut_offset s"
    using assms by (simp add: clampOffset_def clampInt_def int_prim_def clampOnly_def ut_query_def)
  show "fst (urlBreakdown now (ut_query h s) evs) =
      length (group_by e_url (filter (breakdown_matches now (ut_query h s)) (ev_rows evs)))"
    by (simp add: urlBreakdown_def Let_def)
  show "length (snd (urlBreakdown now (ut_query h s) evs)) =
      min 50 (fst (urlBreakdown now (ut_query h s) evs) - nat (ut_offset s))"
    by (simp add: urlBreakdown_def cl co Let_def sql_page_def min.commute)
qed

lemma urlBreakdown_total_next:
  assumes "0 \<le> ut_offset s" and "ut_offset s \<le> 1000000 - PAGE"
  shows "fst (urlBreakdown now (ut_query h (url_table_step UtNext s)) evs) = fst (urlBreakdown now (ut_query h s) evs)"
proof -
  have m: "breakdown_matches now (ut_query h (url_table_step UtNext s)) = breakdown_matches now (ut_query h s)"
    by (intro ext) (simp add: breakdown_matches_def ut_query_def url_table_request_def)
  then show ?thesis
    using assms by (subst (1 2) urlBreakdown_page(1)) (simp_all add: PAGE_def)
qed

text \<open>
  C40. The table of the optimized URLs keeps its choices in range: in every state that its controls can
  bring about, the period, the sort key and the decision are ones on offer and the offset is a
  non-negative multiple of 50; the server answers its request with 200 and at most 50 rows; and while
  the events stay as they are, the button for the next page is enabled only if that page has rows.
\<close>

theorem url_table_well_typed:
  assumes "ut_reachable s" and "host_param rawHost = Some h" and "ut_offset s \<le> 1000000 - PAGE"
  shows "ut_prev_period s \<in> set VALID_PERIODS - {''custom''} \<and> ut_sort s \<in> set UT_SORTS \<and>
     ut_decision s \<in> set UT_DECISIONS \<and> 0 \<le> ut_offset s \<and> PAGE dvd ut_offset s \<and>
     (\<exists>total items. get_url_breakdown now rawHost (url_table_request s) evs = Ok 200 (total, items) \<and>
        length items = min 50 (total - nat (ut_offset s)) \<and>
        (ut_possible (Some total) s UtNext \<longrightarrow>
           (\<exists>items'. items' \<noteq> [] \<and>
              get_url_breakdown now rawHost (url_table_request (url_table_step UtNext s)) evs = Ok 200 (total, items'))))"
proof -
  let ?n = "url_table_step UtNext s" and ?b = "\<lambda>s. urlBreakdown now (ut_query h s) evs"
  have ok: "ut_ok s" using assms(1) by (rule ut_reachable_ok)
  then have o: "0 \<le> ut_offset s" by (simp add: ut_ok_def)
  have n: "ut_ok ?n" "ut_offset ?n = ut_offset s + 50" using ok by (auto simp: ut_ok_def PAGE_def)
  have page: "length (snd (?b s)) = min 50 (fst (?b s) - nat (ut_offset s))"
    using o assms(3) by (intro urlBreakdown_page(2)) (simp_all add: PAGE_def)
  have "length (snd (?b ?n)) = min 50 (fst (?b s) - nat (ut_offset s + 50))"
    using o assms(3) n(2) urlBreakdown_page(2)[of ?n now h evs] urlBreakdown_total_next[OF o assms(3), of now h evs]
    by (simp add: PAGE_def)
  then have rows: "snd (?b ?n) \<noteq> []" if "ut_possible (Some (fst (?b s))) s UtNext"
    using that o by (auto simp: PAGE_def nat_less_iff simp flip: length_greater_0_conv)
  have "get_url_breakdown now rawHost (url_table_request s) evs = Ok 200 (fst (?b s), snd (?b s))"
    "get_url_breakdown now rawHost (url_table_request ?n) evs = Ok 200 (fst (?b s), snd (?b ?n))"
    using url_table_answered[OF ok assms(2), of now evs] url_table_answered[OF n(1) assms(2), of now evs]
      urlBreakdown_total_next[OF o assms(3), of now h evs] by (simp_all add: prod_eq_iff)
  with page rows ok show ?thesis unfolding ut_ok_def by blast
qed

lemma url_table_well_typed_witness:
  "\<exists>items. get_url_breakdown 0 ''a.com'' (url_table_request (url_table_step (UtSort ''events'') (url_table_init ''7d'')))
     \<lparr>ev_rows = [], ev_seq = 0\<rparr> = Ok 200 (length items, items) \<and> length items = 0"
proof -
  let ?s = "url_table_step (UtSort ''events'') (url_table_init ''7d'')" and ?e = "\<lparr>ev_rows = [], ev_seq = 0\<rparr>"
  have "ut_reachable (url_table_init ''7d'')" by (rule ut_reachable.Init) (simp add: VALID_PERIODS_def)
  then have r: "ut_reachable ?s" by (rule ut_reachable.Step[where shown = None]) (simp add: UT_SORTS_def)
  have h: "host_param ''a.com'' = Some ''a.com''" by code_simp
  have o: "ut_offset ?s \<le> 1000000 - PAGE" by (simp add: url_table_init_def PAGE_def)
  have "get_url_breakdown 0 ''a.com'' (url_table_request ?s) ?e = Ok 200 (0, [])" by code_simp
  then show ?thesis using url_table_well_typed[OF r h o, of 0 ?e] by auto
qed

end
