(* ===== verification/User_Pages.thy ===== *)
theory User_Pages
  imports Url_State Startup Service_Routes
begin

section \<open>The web client: accounts and audit log\<close>

text \<open>
  \<open>pages/UsersPage.tsx\<close> with \<open>listUsers\<close> of \<open>api/users.ts\<close>, and \<open>pages/AuditPage.tsx\<close> with
  \<open>fetchAudit\<close>: the state in the address, the requests, the pages, the forms and the buttons of a row. The
  test of the form library for an e-mail address is an argument.
\<close>

subsection \<open>Paging\<close>

definition page_param :: "params \<Rightarrow> int" where
  "page_param u =
     (case url_get ''page'' u of
        None \<Rightarrow> 1
      | Some s \<Rightarrow> (case number_of_string s of Fin x \<Rightarrow> if 0 < x then \<lfloor>x\<rfloor> else 1 | _ \<Rightarrow> 1))"

definition totalPages :: "int \<Rightarrow> nat \<Rightarrow> int" where
  "totalPages per_page n = max 1 \<lceil>(of_nat n :: rat) / of_int per_page\<rceil>"

subsection \<open>The list of accounts\<close>

definition USERS_PAGE_SIZE :: int where
  "USERS_PAGE_SIZE = 20"

record users_page =
  up_text :: string
  up_enabled :: "bool option"
  up_page :: int

definition users_shown :: "params \<Rightarrow> users_page" where
  "users_shown u =
     \<lparr>up_text = or_else (url_get ''q'' u) [],
      up_enabled = (if url_get ''enabled'' u = Some ''true'' then Some True
                    else if url_get ''enabled'' u = Some ''false'' then Some False else None),
      up_page = page_param u\<rparr>"

definition bool_text :: "bool \<Rightarrow> string" where
  "bool_text b = (if b then ''true'' else ''false'')"

text \<open>The request: no query at all while there is no filter and the first page is shown.\<close>

definition users_query :: "users_page \<Rightarrow> user_list_query" where
  "users_query p =
     (let hasFilter = up_text p \<noteq> [] \<or> up_enabled p \<noteq> None \<or> 1 < up_page p
      in \<lparr>lq_sort = None, lq_order = None,
          lq_q = (if hasFilter \<and> up_text p \<noteq> [] then Some (up_text p) else None),
          lq_enabled = (if hasFilter then map_option bool_text (up_enabled p) else None),
          lq_limit = (if hasFilter then Some (int_text USERS_PAGE_SIZE) else None),
          lq_offset = (if hasFilter then Some (int_text ((up_page p - 1) * USERS_PAGE_SIZE)) else None)\<rparr>)"

text \<open>The rows and the total, from either form of the answer.\<close>

definition users_data :: "(user list \<times> nat option) reply \<Rightarrow> (user list \<times> nat) option" where
  "users_data r = (case r of
      Ok n (rows, None) \<Rightarrow> Some (rows, length rows)
    | Ok n (rows, Some k) \<Rightarrow> Some (rows, k)
    | _ \<Rightarrow> None)"

record users_change =
  uc_q :: "string option"
  uc_enabled :: "bool option option"
  uc_page :: "int option"

definition updateSearch :: "users_change \<Rightarrow> nav \<Rightarrow> nav" where
  "updateSearch ch =
     set_search_params True (\<lambda>u.
       let u1 = (case uc_q ch of None \<Rightarrow> u
                 | Some q \<Rightarrow> if 0 < length q then url_set ''q'' q u else url_delete ''q'' u);
           u2 = (case uc_enabled ch of None \<Rightarrow> u1
                 | Some (Some b) \<Rightarrow> url_set ''enabled'' (bool_text b) u1
                 | Some None \<Rightarrow> url_delete ''enabled'' u1);
           u3 = (case uc_page ch of None \<Rightarrow> u2
                 | Some p \<Rightarrow> if p \<noteq> 0 \<and> 1 < p then url_set ''page'' (int_text p) u2 else url_delete ''page'' u2)
       in if (uc_q ch \<noteq> None \<or> uc_enabled ch \<noteq> None) \<and> uc_page ch = None
          then url_delete ''page'' u3 else u3)"

definition no_change :: users_change where
  "no_change = \<lparr>uc_q = None, uc_enabled = None, uc_page = None\<rparr>"

definition go_to_page :: "int \<Rightarrow> nav \<Rightarrow> nav" where
  "go_to_page p = updateSearch (no_change\<lparr>uc_page := Some p\<rparr>)"

subsection \<open>The row of an account\<close>

text \<open>The name shown, the badge of an archived name, and which buttons are enabled.\<close>

datatype row_button = ResetPassword | EnableUser | DisableUser

definition row_buttons :: "int option \<Rightarrow> user \<Rightarrow> row_button set" where
  "row_buttons myId u =
     (let archived = snd (formatUsername (u_username u))
      in (if archived then {} else {ResetPassword}) \<union>
         (if disabled_truthy u then (if archived then {} else {EnableUser})
          else (if Some (u_id u) = myId then {} else {DisableUser})))"

subsection \<open>The forms\<close>

definition create_form_ok :: "(string \<Rightarrow> bool) \<Rightarrow> string \<Rightarrow> string \<Rightarrow> string \<Rightarrow> bool" where
  "create_form_ok is_email name pass confirm =
     (1 \<le> length name \<and> is_email name \<and> length name \<le> 254 \<and> 8 \<le> length pass \<and>
      1 \<le> length confirm \<and> pass = confirm)"

definition create_submit_disabled :: "bool \<Rightarrow> string \<Rightarrow> string \<Rightarrow> string \<Rightarrow> bool" where
  "create_submit_disabled isPending name pass confirm =
     (isPending \<or> js_trim name = [] \<or> pass = [] \<or> confirm = [])"

datatype create_toast = EmailTaken | EmailInvalidOrLong | CreateFailed

definition create_error_toast :: "'b reply \<Rightarrow> create_toast" where
  "create_error_toast r =
     (if status_of r = 409 then EmailTaken
      else if r = Reject 400 ''invalid_input'' \<or> r = UriError then EmailInvalidOrLong
      else CreateFailed)"

text \<open>
  The body that the form of a new password sends for the account \<open>i\<close>, if it sends one:
  \<open>currentPassword\<close> goes with it for the own account alone.
\<close>

definition password_form :: "int option \<Rightarrow> int \<Rightarrow> string \<Rightarrow> string \<Rightarrow> string \<Rightarrow> (string \<times> jsprim) option" where
  "password_form myId i curr_pass pass confirm =
     (let isSelf = (Some i = myId)
      in if \<not> (8 \<le> length pass \<and> 1 \<le> length confirm \<and> pass = confirm) then None
         else if isSelf \<and> curr_pass = [] then None
         else Some (pass, if isSelf then Str curr_pass else Undef))"

definition password_submit_disabled :: "bool \<Rightarrow> bool \<Rightarrow> string \<Rightarrow> string \<Rightarrow> string \<Rightarrow> bool" where
  "password_submit_disabled isPending isSelf curr_pass pass confirm =
     (isPending \<or> pass = [] \<or> confirm = [] \<or> (isSelf \<and> curr_pass = []))"

subsection \<open>The audit log\<close>

definition AUDIT_PAGE_SIZE :: int where
  "AUDIT_PAGE_SIZE = 50"

record audit_page =
  ag_action :: string
  ag_target :: string
  ag_page :: int

definition audit_shown :: "params \<Rightarrow> audit_page" where
  "audit_shown u =
     \<lparr>ag_action = or_else (url_get ''action'' u) [], ag_target = or_else (url_get ''target_type'' u) [],
      ag_page = page_param u\<rparr>"

definition audit_request :: "audit_page \<Rightarrow> audit_params" where
  "audit_request p =
     \<lparr>ap_action = (if ag_action p \<noteq> [] then Some (ag_action p) else None), ap_actor_user_id = None,
      ap_target_type = (if ag_target p \<noteq> [] then Some (ag_target p) else None), ap_target_id = None,
      ap_from = None, ap_to = None, ap_limit = Some (int_text AUDIT_PAGE_SIZE),
      ap_offset = Some (int_text ((ag_page p - 1) * AUDIT_PAGE_SIZE))\<rparr>"

definition updateParam :: "string \<Rightarrow> string \<Rightarrow> nav \<Rightarrow> nav" where
  "updateParam name value =
     set_search_params True (\<lambda>u.
       let u1 = (if value \<noteq> [] then url_set name value u else url_delete name u)
       in if name \<noteq> ''page'' then url_delete ''page'' u1 else u1)"


subsection \<open>Laws\<close>

text \<open>Cutting a list into pages of \<open>n\<close> rows and joining them.\<close>

lemma pages_joined: "concat (map (\<lambda>k. take n (drop (k * n) xs)) [0..<m]) = take (m * n) xs"
proof (induction m)
  case (Suc m)
  have "take (m * n + n) xs = take (m * n) xs @ take n (drop (m * n) xs)" by (rule take_add)
  with Suc show ?case by (simp only: mult_Suc add.commute[of n]) simp
qed simp

lemma totalPages_enough:
  assumes "0 < p"
  shows "int n \<le> totalPages p n * p" and "1 \<le> totalPages p n"
    and "1 < totalPages p n \<Longrightarrow> p < int n"
proof -
  let ?r = "(of_nat n :: rat) / of_int p"
  have "?r * of_int p \<le> of_int (totalPages p n) * of_int p"
  proof (rule mult_right_mono)
    have "\<lceil>?r\<rceil> \<le> totalPages p n" by (simp add: totalPages_def)
    then show "?r \<le> of_int (totalPages p n)" using ceiling_le_iff by blast
  qed (use assms in simp)
  then have "(of_nat n :: rat) \<le> of_int (totalPages p n * p)" using assms by simp
  then show "int n \<le> totalPages p n * p" by (metis of_int_le_iff of_int_of_nat_eq)
  show "1 \<le> totalPages p n" by (simp add: totalPages_def)
  assume "1 < totalPages p n"
  then have "1 < ?r" by (auto simp: totalPages_def less_max_iff_disj less_ceiling_iff)
  then have "(of_int p :: rat) < of_nat n" using assms by (simp add: divide_simps)
  then show "p < int n" by (metis of_int_less_iff of_int_of_nat_eq)
qed

lemma pages_cover:
  assumes "0 < p"
  shows "concat (map (\<lambda>k. take (nat p) (drop (k * nat p) xs)) [0..<nat (totalPages p (length xs))]) = xs"
proof -
  have "int (length xs) \<le> int (nat (totalPages p (length xs)) * nat p)"
    using totalPages_enough(1,2)[OF assms, of "length xs"] assms by simp
  then have "length xs \<le> nat (totalPages p (length xs)) * nat p" by linarith
  then show ?thesis by (simp add: pages_joined)
qed

text \<open>A click on a page shows that page under the same filter; a change of the filter goes to page 1.\<close>

lemma go_to_page_shown:
  "1 \<le> p \<Longrightarrow> users_shown (nv_here (go_to_page p n)) = (users_shown (nv_here n))\<lparr>up_page := p\<rparr>"
  using number_of_int_text[of p]
  by (simp add: go_to_page_def updateSearch_def no_change_def users_shown_def page_param_def Let_def)

lemma filter_change_shown:
  "users_shown (nv_here (updateSearch (no_change\<lparr>uc_q := Some q\<rparr>) n)) =
     (users_shown (nv_here n))\<lparr>up_text := q, up_page := 1\<rparr>"
  "users_shown (nv_here (updateSearch (no_change\<lparr>uc_enabled := Some b\<rparr>) n)) =
     (users_shown (nv_here n))\<lparr>up_enabled := b, up_page := 1\<rparr>"
  by (auto simp: updateSearch_def no_change_def users_shown_def page_param_def or_else_def bool_text_def Let_def
      split: option.splits)

text \<open>What the server answers to the request of a page.\<close>

definition users_opts :: "users_page \<Rightarrow> user_list_opts" where
  "users_opts p =
     \<lparr>ul_sort = None, ul_order = None, ul_q = (if up_text p \<noteq> [] then Some (up_text p) else None),
      ul_enabled = up_enabled p, ul_limit = None, ul_offset = None\<rparr>"

lemma bool_text_eq [simp]: "bool_text b = ''true'' \<longleftrightarrow> b" "bool_text b = ''false'' \<longleftrightarrow> \<not> b" "bool_text b \<noteq> []"
  by (simp_all add: bool_text_def)

lemma users_answer:
  fixes s :: users
  assumes "1 \<le> up_page p"
  defines "full \<equiv> fst (listWithTotal (users_opts p) s)"
  shows "users_data (list_users (users_query p) s) =
     (if up_text p \<noteq> [] \<or> up_enabled p \<noteq> None \<or> 1 < up_page p
      then Some (take 20 (drop (nat (up_page p - 1) * 20) full), length full)
      else Some (full, length full))"
proof -
  have full: "full = order_by (user_row_le (users_opts p)) (filter (user_matches (users_opts p)) (us_rows s))"
    unfolding full_def by (simp add: listWithTotal_def users_opts_def user_limit_def Let_def)
  have le: "user_row_le (users_opts p) = user_row_le uo"
    if "ul_sort uo = None" "ul_order uo = None" for uo
    using that by (simp add: user_row_le_def users_opts_def user_sort_col_def user_sort_dir_def)
  have ma: "user_matches uo = user_matches (users_opts p)"
    if "ul_q uo = ul_q (users_opts p)" "ul_enabled uo = up_enabled p" for uo
    using that by (intro ext) (simp add: user_matches_def users_opts_def)
  show ?thesis
  proof (cases "up_text p \<noteq> [] \<or> up_enabled p \<noteq> None \<or> 1 < up_page p")
    case True
    let ?uo = "\<lparr>ul_sort = None, ul_order = None, ul_q = (if up_text p \<noteq> [] then Some (up_text p) else None),
      ul_enabled = up_enabled p, ul_limit = Some (Fin 20), ul_offset = Some (Fin (of_int ((up_page p - 1) * 20)))\<rparr>"
    have l: "number_of_string (int_text USERS_PAGE_SIZE) = Fin 20"
      "number_of_string (int_text ((up_page p - 1) * USERS_PAGE_SIZE)) = Fin (of_int ((up_page p - 1) * 20))"
      using number_of_int_text[of USERS_PAGE_SIZE] number_of_int_text[of "(up_page p - 1) * USERS_PAGE_SIZE"] assms(1)
      by (simp_all add: USERS_PAGE_SIZE_def)
    have "list_users (users_query p) s = (case listWithTotal ?uo s of (rows, n) \<Rightarrow> Ok 200 (rows, Some n))"
      using True l by (cases "up_enabled p") (auto simp: list_users_def users_query_def Let_def neq_Nil_conv split: prod.splits)
    moreover have "listWithTotal ?uo s = (sql_page (Some 20) ((up_page p - 1) * 20) full, length full)"
      using assms(1) le[of ?uo] ma[of ?uo] unfolding full
      by (simp add: listWithTotal_def Let_def user_limit_def user_offset_def users_opts_def del: of_int_mult)
    moreover have "nat ((up_page p - 1) * 20) = nat (up_page p - 1) * 20" using assms(1) by (simp add: nat_mult_distrib)
    ultimately show ?thesis using True by (simp add: users_data_def sql_page_def)
  next
    case False
    let ?uo = "\<lparr>ul_sort = None, ul_order = None, ul_q = None, ul_enabled = None, ul_limit = None, ul_offset = None\<rparr>"
    have "?uo = users_opts p" using False by (simp add: users_opts_def)
    then have "list_users (users_query p) s = Ok 200 (full, None)"
      using False unfolding full_def
      by (auto simp: list_users_def users_query_def Let_def split: prod.splits)
    with False show ?thesis by (simp add: users_data_def)
  qed
qed


definition users_total :: "users_page \<Rightarrow> users \<Rightarrow> user list" where
  "users_total p s = fst (listWithTotal (users_opts p) s)"

lemma users_total_page [simp]: "users_total (p\<lparr>up_page := k\<rparr>) s = users_total p s"
  by (simp add: users_total_def users_opts_def)

lemma users_answer_filtered:
  assumes "up_text p \<noteq> [] \<or> up_enabled p \<noteq> None"
  shows "users_data (list_users (users_query (p\<lparr>up_page := int k + 1\<rparr>)) s) =
     Some (take 20 (drop (k * 20) (users_total p s)), length (users_total p s))"
  using users_answer[of "p\<lparr>up_page := int k + 1\<rparr>" s] assms
  by (simp add: users_total_def[symmetric])

text \<open>The list never has a row of an archived name, so its buttons depend on the account alone.\<close>

lemma formatUsername_listed:
  assumes "\<not> is_archive u"
  shows "formatUsername u = (u, False)"
proof -
  have "map nocase_char ''__dup_'' = ''__dup_''" by code_simp
  then have "\<not> starts_with ''__dup_'' u"
    using assms unfolding is_archive_prefix starts_with_def nocase_def by (metis length_map take_map)
  then show ?thesis by (simp add: formatUsername_def Let_def)
qed

lemma listed_not_archived:
  assumes "u \<in> set (users_total p s)"
  shows "formatUsername (u_username u) = (u_username u, False)"
  using assms set_listWithTotal[of "users_opts p" s]
  by (intro formatUsername_listed) (auto simp: users_total_def user_matches_def)

lemma disable_button_other:
  assumes "DisableUser \<in> row_buttons myId u"
    and "caller_is ca (u_id u) \<Longrightarrow> myId = Some (u_id u)"
  shows "snd (delete_user now ca (int_text (u_id u)) s) \<noteq> (Reject 400 ''cannot_disable_self'', None)"
proof -
  have "\<not> caller_is ca (u_id u)" using assms by (auto simp: row_buttons_def Let_def split: if_splits)
  moreover have "parseUserId (int_text (u_id u)) = Some i \<Longrightarrow> i = u_id u" for i
    using nat_text_fuel_val[of "nat (u_id u)" "Suc (nat (u_id u))"]
    by (auto simp: parseUserId_def Let_def int_text_def is_digit_def split: if_splits)
  ultimately show ?thesis
    by (auto simp: delete_user_def split: option.splits)
qed

text \<open>A password that the form sends for the own account is never refused for want of the current one.\<close>

lemma own_password_sent:
  assumes "password_form myId i c pass confirm = Some (p, cp)"
    and "caller_is ca i \<Longrightarrow> myId = Some i"
  shows "\<forall>f. passwordSchema (Str p) cp = Some f \<longrightarrow> \<not> (caller_is ca i \<and> snd f = None)" and "8 \<le> length p"
  using assms by (auto simp: password_form_def passwordSchema_def Let_def split: if_splits)

lemma page_requests_audit:
  assumes "1 \<le> ag_page p"
  shows "get_audit (audit_request p) s =
     (let q = \<lparr>aq_action = (if ag_action p \<noteq> [] then Some (ag_action p) else None), aq_actor_user_id = None,
        aq_target_type = (if ag_target p \<noteq> [] then Some (ag_target p) else None), aq_target_id = None,
        aq_from = None, aq_to = None, aq_limit = Some (Fin 50), aq_offset = Some (Fin (of_int ((ag_page p - 1) * 50)))\<rparr>
      in Ok 200 (map audit_view (fst (audit_list q s)), snd (audit_list q s)))"
proof -
  have "coerce_int 1 (Some 1000) (int_text 50) = Some 50"
    using number_of_int_text[of 50] by (simp add: coerce_int_def)
  moreover have "coerce_int 0 None (int_text ((ag_page p - 1) * 50)) = Some ((ag_page p - 1) * 50)"
    using number_of_int_text[of "(ag_page p - 1) * 50"] assms by (simp add: coerce_int_def del: of_int_mult)
  ultimately show ?thesis
    by (simp add: get_audit_def audit_schema_def audit_request_def AUDIT_PAGE_SIZE_def optional_coerced_def
        or_else_def split_def Let_def)
qed

subsection \<open>The pages as a whole\<close>

text \<open>
  C39. Under a filter, the pages 1 to \<open>totalPages\<close> of the list of accounts, as the server answers the
  requests that the page makes for them, put one behind the other give every matching account exactly once,
  in order; no page has more than 20 rows.
\<close>

theorem users_pages_partition:
  assumes "up_text p \<noteq> [] \<or> up_enabled p \<noteq> None"
  shows "\<exists>pages. map (\<lambda>k. users_data (list_users (users_query (p\<lparr>up_page := int k + 1\<rparr>)) s))
       [0..<nat (totalPages USERS_PAGE_SIZE (length (users_total p s)))] =
     map (\<lambda>rows. Some (rows, length (users_total p s))) pages \<and>
     concat pages = users_total p s \<and> (\<forall>rows \<in> set pages. length rows \<le> 20)"
proof (intro exI conjI ballI)
  let ?pages = "map (\<lambda>k. take 20 (drop (k * 20) (users_total p s)))
    [0..<nat (totalPages USERS_PAGE_SIZE (length (users_total p s)))]"
  show "map (\<lambda>k. users_data (list_users (users_query (p\<lparr>up_page := int k + 1\<rparr>)) s))
       [0..<nat (totalPages USERS_PAGE_SIZE (length (users_total p s)))] =
     map (\<lambda>rows. Some (rows, length (users_total p s))) ?pages"
    by (simp add: users_answer_filtered[OF assms])
  show "concat ?pages = users_total p s"
    using pages_cover[of USERS_PAGE_SIZE "users_total p s"] by (simp add: USERS_PAGE_SIZE_def)
qed auto

definition many_users :: "nat \<Rightarrow> users" where
  "many_users n = \<lparr>us_rows = map (\<lambda>k. \<lparr>u_id = int k + 1, u_username = ''u'' @ nat_text_fuel (Suc k) k,
     u_password_hash = [], u_created_at = int k, u_updated_at = 0, u_disabled_at = None, u_last_login_at = None,
     u_token_version = 0\<rparr>) [0..<n], us_seq = int n\<rparr>"

definition enabled_page :: users_page where
  "enabled_page = \<lparr>up_text = [], up_enabled = Some True, up_page = 1\<rparr>"

lemma users_pages_partition_witness:
  "\<exists>pages. concat pages = users_total enabled_page (many_users 23) \<and> (\<forall>rows \<in> set pages. length rows \<le> 20)"
  using users_pages_partition[of enabled_page "many_users 23"] by (auto simp: enabled_page_def)

text \<open>
  Without a filter the first page of the list asks for no page at all: with more than 20 accounts it shows
  all of them, while the buttons offer further pages, whose rows it has shown already.
\<close>

theorem first_page_shows_all:
  fixes s :: users
  defines "p \<equiv> \<lparr>up_text = [], up_enabled = None, up_page = 1\<rparr>"
  defines "n \<equiv> length (users_total p s)"
  shows "users_data (list_users (users_query p) s) = Some (users_total p s, n) \<and>
    users_data (list_users (users_query (p\<lparr>up_page := 2\<rparr>)) s) = Some (take 20 (drop 20 (users_total p s)), n) \<and>
    (20 < n \<longleftrightarrow> 2 \<le> totalPages USERS_PAGE_SIZE n)"
proof (intro conjI)
  show "users_data (list_users (users_query p) s) = Some (users_total p s, n)"
    using users_answer[of p s] by (simp add: p_def n_def users_total_def)
  show "users_data (list_users (users_query (p\<lparr>up_page := 2\<rparr>)) s) = Some (take 20 (drop 20 (users_total p s)), n)"
    using users_answer[of "p\<lparr>up_page := 2\<rparr>" s] unfolding users_total_def[symmetric] n_def users_total_page by simp
  show "20 < n \<longleftrightarrow> 2 \<le> totalPages USERS_PAGE_SIZE n"
    using totalPages_enough(1,3)[of USERS_PAGE_SIZE n] by (auto simp: USERS_PAGE_SIZE_def)
qed

end
