(* ===== verification/Domains_Page.thy ===== *)
theory Domains_Page
  imports Url_State Domain_Write
begin

section \<open>The web client: the page of domains\<close>

text \<open>
  \<open>pages/DomainsPage.tsx\<close>, \<open>DomainTable.tsx\<close>, \<open>DomainToolbar.tsx\<close> and \<open>DomainBulkAddDialog.tsx\<close>: the
  filter in the address, sorting, the selection for bulk operations, the delayed search, the form for one
  domain and the text of many. \<open>Date.parse\<close> and the WHATWG URL parser are arguments.
\<close>

subsection \<open>The filter and the sorting in the address\<close>

record page_filter =
  cf_q :: "string option"
  cf_enabled :: "bool option"
  cf_sort :: "string option"
  cf_order :: "string option"

definition strict_bool :: "string option \<Rightarrow> bool option" where
  "strict_bool raw =
     (if raw = Some ''true'' then Some True else if raw = Some ''false'' then Some False else None)"

definition domains_filter :: "params \<Rightarrow> page_filter" where
  "domains_filter u =
     \<lparr>cf_q = url_get ''q'' u, cf_enabled = strict_bool (url_get ''enabled'' u),
      cf_sort = url_get ''sort'' u, cf_order = url_get ''order'' u\<rparr>"

definition domains_correct :: "params \<Rightarrow> params option" where
  "domains_correct u =
     (if url_get ''enabled'' u \<noteq> None \<and> strict_bool (url_get ''enabled'' u) = None
      then Some (url_delete ''enabled'' u) else None)"

text \<open>The query that \<open>axios\<close> makes of the filter: a value that is \<open>undefined\<close> is left out.\<close>

definition bool_string :: "bool \<Rightarrow> string" where
  "bool_string b = (if b then ''true'' else ''false'')"

definition domains_query :: "page_filter \<Rightarrow> list_query" where
  "domains_query f =
     \<lparr>lsq_q = cf_q f, lsq_enabled = map_option bool_string (cf_enabled f), lsq_sort = cf_sort f,
      lsq_order = cf_order f, lsq_limit = None, lsq_offset = None\<rparr>"

text \<open>The page: the address and the hosts selected. Changing the filter sets the whole query anew.\<close>

record domains_page =
  pv_nav :: nav
  pv_selected :: "string set"

definition truthy_param :: "string \<Rightarrow> string option \<Rightarrow> params" where
  "truthy_param k v = (case v of None \<Rightarrow> [] | Some s \<Rightarrow> if s = [] then [] else [(k, s)])"

definition filter_params :: "page_filter \<Rightarrow> params" where
  "filter_params f =
     truthy_param ''q'' (cf_q f) @
     truthy_param ''enabled'' (map_option bool_string (cf_enabled f)) @
     truthy_param ''sort'' (cf_sort f) @
     truthy_param ''order'' (cf_order f)"

definition setFilter :: "page_filter \<Rightarrow> domains_page \<Rightarrow> domains_page" where
  "setFilter f p = \<lparr>pv_nav = set_search_params True (\<lambda>_. filter_params f) (pv_nav p), pv_selected = {}\<rparr>"

definition CLIENT_SORT_KEYS :: "string list" where
  "CLIENT_SORT_KEYS = [''requests'', ''cache_hits'', ''tls_expires'']"

definition handleSortChange :: "string \<Rightarrow> string \<Rightarrow> domains_page \<Rightarrow> domains_page" where
  "handleSortChange key dir p =
     \<lparr>pv_nav = set_search_params True (\<lambda>u.
        if key \<in> set CLIENT_SORT_KEYS
        then url_set ''corder'' dir (url_set ''csort'' key (url_delete ''order'' (url_delete ''sort'' u)))
        else url_set ''order'' dir (url_set ''sort'' key (url_delete ''corder'' (url_delete ''csort'' u))))
        (pv_nav p),
      pv_selected = {}\<rparr>"

definition effective_sort :: "params \<Rightarrow> string option \<times> string option" where
  "effective_sort u =
     ((case url_get ''csort'' u of None \<Rightarrow> cf_sort (domains_filter u) | k \<Rightarrow> k),
      (case url_get ''corder'' u of None \<Rightarrow> cf_order (domains_filter u) | d \<Rightarrow> d))"

text \<open>A click on the header of a column turns its direction round, or begins with \<open>asc\<close>.\<close>

definition handleSort :: "string \<Rightarrow> domains_page \<Rightarrow> domains_page" where
  "handleSort key p =
     (case effective_sort (nv_here (pv_nav p)) of (k, d) \<Rightarrow>
        if k = Some key then handleSortChange key (if d = Some ''asc'' then ''desc'' else ''asc'') p
        else handleSortChange key ''asc'' p)"

subsection \<open>The rows\<close>

record host_stats =
  hs_requests :: rat
  hs_edge_hit_rate :: rat

definition sort_value ::
  "(string \<Rightarrow> rat) \<Rightarrow> (string \<Rightarrow> host_stats option) \<Rightarrow> (string \<Rightarrow> string option) \<Rightarrow> string \<Rightarrow> string \<Rightarrow> rat option" where
  "sort_value date_parse stats expiry key host =
     (if key = ''requests'' then map_option hs_requests (stats host)
      else if key = ''cache_hits'' then map_option hs_edge_hit_rate (stats host)
      else if key = ''tls_expires'' then
        (case expiry host of None \<Rightarrow> None | Some d \<Rightarrow> if d = [] then None else Some (date_parse d))
      else None)"

text \<open>The comparator: \<open>row_before dir va vb\<close> says that the comparison is not positive.\<close>

definition row_before :: "bool \<Rightarrow> rat option \<Rightarrow> rat option \<Rightarrow> bool" where
  "row_before descending va vb =
     (case (va, vb) of
        (None, None) \<Rightarrow> True
      | (None, Some _) \<Rightarrow> False
      | (Some _, None) \<Rightarrow> True
      | (Some x, Some y) \<Rightarrow> if descending then y \<le> x else x \<le> y)"

definition sortedDomains ::
  "(string \<Rightarrow> rat option) \<Rightarrow> string option \<times> string option \<Rightarrow> domains \<Rightarrow> domains" where
  "sortedDomains val s base =
     (case s of
        (None, _) \<Rightarrow> base
      | (Some key, d) \<Rightarrow>
          if key = [] \<or> key = ''host'' then base
          else order_by (\<lambda>a b. row_before (d = Some ''desc'') (val (d_host a)) (val (d_host b))) base)"

text \<open>What is in place of the table: the rows, or one of three texts for an empty list.\<close>

datatype table_view = Loading | NoMatch | NoneInState bool | NoDomains | Rows domains

definition table_view :: "bool \<Rightarrow> page_filter \<Rightarrow> domains option \<Rightarrow> table_view" where
  "table_view isLoading f rows =
     (if isLoading then Loading
      else (case rows of
              Some (d # ds) \<Rightarrow> Rows (d # ds)
            | _ \<Rightarrow>
                if cf_q f \<noteq> None \<and> cf_q f \<noteq> Some [] then NoMatch
                else (case cf_enabled f of Some b \<Rightarrow> NoneInState b | None \<Rightarrow> NoDomains)))"

definition clear_search :: "domains_page \<Rightarrow> domains_page" where
  "clear_search p = setFilter ((domains_filter (nv_here (pv_nav p)))\<lparr>cf_q := None\<rparr>) p"

definition clear_filter :: "domains_page \<Rightarrow> domains_page" where
  "clear_filter p = setFilter ((domains_filter (nv_here (pv_nav p)))\<lparr>cf_enabled := None\<rparr>) p"

subsection \<open>The selection\<close>

definition allSelected :: "domains \<Rightarrow> string set \<Rightarrow> bool" where
  "allSelected ds S = (0 < length ds \<and> list_all (\<lambda>d. d_host d \<in> S) ds)"

definition someSelected :: "domains \<Rightarrow> string set \<Rightarrow> bool" where
  "someSelected ds S = (\<not> allSelected ds S \<and> list_ex (\<lambda>d. d_host d \<in> S) ds)"

definition handleSelectAll :: "domains \<Rightarrow> bool \<Rightarrow> domains_page \<Rightarrow> domains_page" where
  "handleSelectAll ds checked p = p\<lparr>pv_selected := (if checked then set (map d_host ds) else {})\<rparr>"

definition handleSelectOne :: "string \<Rightarrow> bool \<Rightarrow> domains_page \<Rightarrow> domains_page" where
  "handleSelectOne host checked p =
     p\<lparr>pv_selected := (if checked then insert host (pv_selected p) else pv_selected p - {host})\<rparr>"

text \<open>After a deletion its host is no longer selected; after a bulk operation none is.\<close>

definition deleted_host :: "string \<Rightarrow> domains_page \<Rightarrow> domains_page" where
  "deleted_host host p = p\<lparr>pv_selected := pv_selected p - {host}\<rparr>"

definition bulk_done :: "domains_page \<Rightarrow> domains_page" where
  "bulk_done p = p\<lparr>pv_selected := {}\<rparr>"


subsection \<open>The form for one domain\<close>

datatype form_error = HostMissing | HostInvalid | OriginMissing | OriginScheme | OriginInvalid

text \<open>The page's own copies of \<open>DOMAIN_RE\<close> and \<open>isValidOrigin\<close>.\<close>

definition page_isValidOrigin :: "url_parser \<Rightarrow> string \<Rightarrow> bool" where
  "page_isValidOrigin parse s =
     (if length s = 0 \<or> 2083 < length s then False
      else if list_ex is_ws s then False
      else (case parse s of
              None \<Rightarrow> False
            | Some u \<Rightarrow>
                if url_protocol u \<noteq> ''http:'' \<and> url_protocol u \<noteq> ''https:'' then False
                else if url_hostname u = [] then False
                else if url_pathname u \<noteq> [] \<and> url_pathname u \<noteq> ''/'' then False
                else if url_search u \<noteq> [] then False
                else if url_hash u \<noteq> [] then False
                else True))"

definition host_error :: "string \<Rightarrow> form_error option" where
  "host_error h = (if h = [] then Some HostMissing else if \<not> DOMAIN_RE h then Some HostInvalid else None)"

definition origin_error :: "url_parser \<Rightarrow> string \<Rightarrow> form_error option" where
  "origin_error parse v =
     (if v = [] then Some OriginMissing
      else if \<not> page_isValidOrigin parse v then
        (if \<not> starts_with ''http://'' v \<and> \<not> starts_with ''https://'' v then Some OriginScheme
         else Some OriginInvalid)
      else None)"

text \<open>Submitting: both errors, or the body of the request.\<close>

definition add_domain_submit ::
  "url_parser \<Rightarrow> string \<Rightarrow> string \<Rightarrow> (form_error option \<times> form_error option) + (string \<times> string)" where
  "add_domain_submit parse host orig =
     (let h = js_lower (js_trim host); v = js_trim orig
      in if host_error h \<noteq> None \<or> origin_error parse v \<noteq> None
         then Inl (host_error h, origin_error parse v) else Inr (h, v))"

definition add_submit_disabled :: "bool \<Rightarrow> string \<Rightarrow> string \<Rightarrow> bool" where
  "add_submit_disabled isPending host orig = (isPending \<or> js_trim host = [] \<or> js_trim orig = [])"

text \<open>Where the error of the server is shown.\<close>

datatype add_error = AtOrigin | AtHost | AtForm

definition add_error_place :: "string option \<Rightarrow> string option \<Rightarrow> add_error" where
  "add_error_place cde message =
     (let m = (message \<noteq> None \<and> message \<noteq> Some [])
      in if cde = Some ''origin_invalid'' \<and> m then AtOrigin
         else if cde = Some ''domain_invalid_format'' \<and> m then AtHost else AtForm)"

subsection \<open>The text of many domains\<close>

text \<open>\<open>split(/\s+/)\<close>.\<close>

function split_ws :: "string \<Rightarrow> string list" where
  "split_ws s =
     (case dropWhile (\<lambda>c. \<not> is_ws c) s of
        [] \<Rightarrow> [s]
      | c # cs \<Rightarrow> takeWhile (\<lambda>c. \<not> is_ws c) s # split_ws (dropWhile is_ws cs))"
  by pat_completeness auto

termination
proof (relation "measure length", simp)
  fix s c cs assume "dropWhile (\<lambda>c. \<not> is_ws c) s = c # cs"
  then have "length (c # cs) \<le> length s" by (metis length_dropWhile_le)
  moreover have "length (dropWhile is_ws cs) \<le> length cs" by (rule length_dropWhile_le)
  ultimately show "(dropWhile is_ws cs, s) \<in> measure length" by simp
qed

declare split_ws.simps [simp del]

definition BULK_ADD_MAX_INPUT_CHARS :: nat where
  "BULK_ADD_MAX_INPUT_CHARS = 65536"

definition BULK_ADD_MAX_LINES :: nat where
  "BULK_ADD_MAX_LINES = 500"

definition total_lines :: "string \<Rightarrow> nat" where
  "total_lines text = (if text = [] then 0 else length (split_on CHR 0x0A text))"

definition domainCount :: "string \<Rightarrow> nat" where
  "domainCount text = length (filter (\<lambda>l. 0 < length (js_trim l)) (split_on CHR 0x0A text))"

datatype parse_error =
    TooManyLines nat
  | TooFewParts string
  | TooManyParts string
  | BadScheme string
  | DuplicateHost string nat nat

text \<open>The loop over the lines, with the hosts seen and the index of the line of each.\<close>

fun parse_loop ::
  "nat \<Rightarrow> string list \<Rightarrow> (string \<times> nat) list \<Rightarrow> (string \<times> string) list \<Rightarrow> parse_error + (string \<times> string) list" where
  "parse_loop i [] seen res = Inr res"
| "parse_loop i (line # ls) seen res =
     (let parts = split_ws line
      in if length parts < 2 then Inl (TooFewParts line)
         else if 2 < length parts then Inl (TooManyParts line)
         else
           let orig = parts ! 1; host = js_lower (parts ! 0)
           in if \<not> starts_with ''http://'' orig \<and> \<not> starts_with ''https://'' orig then Inl (BadScheme line)
              else (case map_of seen host of
                      Some j \<Rightarrow> Inl (DuplicateHost host (Suc i) (Suc j))
                    | None \<Rightarrow> parse_loop (Suc i) ls ((host, i) # seen) (res @ [(host, orig)])))"

definition parseLines :: "string \<Rightarrow> parse_error + (string \<times> string) list" where
  "parseLines text =
     (if BULK_ADD_MAX_LINES < total_lines text then Inl (TooManyLines (total_lines text))
      else parse_loop 0 (filter (\<lambda>l. 0 < length l) (map js_trim (split_on CHR 0x0A text))) [] [])"

definition bulk_add_disabled :: "bool \<Rightarrow> string \<Rightarrow> bool" where
  "bulk_add_disabled isPending text =
     (isPending \<or> domainCount text = 0 \<or> BULK_ADD_MAX_LINES < total_lines text)"

text \<open>\<open>handleSubmit\<close>: the body of the request; \<open>Inl None\<close> is the text for an empty input.\<close>

definition bulk_add_submit :: "string \<Rightarrow> parse_error option + (string \<times> string) list" where
  "bulk_add_submit text =
     (case parseLines text of
        Inl e \<Rightarrow> Inl (Some e)
      | Inr ds \<Rightarrow> if ds = [] then Inl None else Inr ds)"

definition bulk_body :: "(string \<times> string) list \<Rightarrow> (jsprim \<times> jsprim) option list option" where
  "bulk_body ds = Some (map (\<lambda>(h, v). Some (Str h, Str v)) ds)"

subsection \<open>The delayed search of the toolbar\<close>

text \<open>
  The toolbar keeps the text typed while its timer runs, and whether a text is being composed. The timer
  holds the text and the filter as they were when it was started.
\<close>

record toolbar =
  tb_page :: domains_page
  tb_local :: "string option"
  tb_timer :: "(page_filter \<times> string) option"
  tb_composing :: bool

definition tb_filter :: "toolbar \<Rightarrow> page_filter" where
  "tb_filter s = domains_filter (nv_here (pv_nav (tb_page s)))"

definition searchValue :: "toolbar \<Rightarrow> string" where
  "searchValue s = or_else (tb_local s) (or_else (cf_q (tb_filter s)) [])"

definition onFilterChange :: "page_filter \<Rightarrow> toolbar \<Rightarrow> toolbar" where
  "onFilterChange f s = s\<lparr>tb_page := setFilter f (tb_page s)\<rparr>"

definition handleSearchChange :: "string \<Rightarrow> bool \<Rightarrow> toolbar \<Rightarrow> toolbar" where
  "handleSearchChange value native s =
     (let s1 = s\<lparr>tb_local := Some value\<rparr>
      in if tb_composing s \<or> native then s1 else s1\<lparr>tb_timer := Some (tb_filter s, value)\<rparr>)"

definition handleCompositionStart :: "toolbar \<Rightarrow> toolbar" where
  "handleCompositionStart s = s\<lparr>tb_composing := True\<rparr>"

definition handleCompositionEnd :: "string \<Rightarrow> toolbar \<Rightarrow> toolbar" where
  "handleCompositionEnd value s =
     s\<lparr>tb_composing := False, tb_local := Some value, tb_timer := Some (tb_filter s, value)\<rparr>"

definition timer_fires :: "toolbar \<Rightarrow> toolbar" where
  "timer_fires s =
     (case tb_timer s of
        None \<Rightarrow> s
      | Some (f, value) \<Rightarrow>
          let trimmed = js_trim value
          in (onFilterChange (f\<lparr>cf_q := (if trimmed = [] then None else Some trimmed)\<rparr>) s)
               \<lparr>tb_local := None, tb_timer := None\<rparr>)"

definition handleClearSearch :: "toolbar \<Rightarrow> toolbar" where
  "handleClearSearch s = onFilterChange ((tb_filter s)\<lparr>cf_q := None\<rparr>) (s\<lparr>tb_timer := None, tb_local := None\<rparr>)"

definition handleEscape :: "toolbar \<Rightarrow> toolbar" where
  "handleEscape s = (if \<not> tb_composing s \<and> 0 < length (searchValue s) then handleClearSearch s else s)"

definition shows_clear_button :: "toolbar \<Rightarrow> bool" where
  "shows_clear_button s = (0 < length (searchValue s) \<and> \<not> tb_composing s)"

definition handleEnabledChange :: "string \<Rightarrow> toolbar \<Rightarrow> toolbar" where
  "handleEnabledChange value s =
     onFilterChange ((tb_filter s)\<lparr>cf_enabled := (if value = ''all'' then None else Some (value = ''true''))\<rparr>) s"

text \<open>The buttons for bulk operations need a selection.\<close>

definition bulk_buttons_disabled :: "toolbar \<Rightarrow> bool" where
  "bulk_buttons_disabled s = (card (pv_selected (tb_page s)) = 0)"


subsection \<open>Laws of the address\<close>

interpretation doms: corrected_page domains_correct domains_filter
  by unfold_locales
    (auto simp: domains_correct_def domains_filter_def strict_bool_def split: if_splits)

definition present :: "string option \<Rightarrow> string option" where
  "present v = (if v = Some [] then None else v)"

lemma bool_string_strict [simp]: "strict_bool (Some (bool_string b)) = Some b"
  by (simp add: strict_bool_def bool_string_def)

lemma url_get_append: "url_get k (u @ v) = (case url_get k u of None \<Rightarrow> url_get k v | r \<Rightarrow> r)"
  by (simp add: url_get_def map_add_def split: option.split)

lemma url_get_truthy: "url_get k' (truthy_param k v) = (if k' = k then present v else None)"
  by (simp add: truthy_param_def url_get_def present_def split: option.splits)

lemma bool_string_nonempty [simp]: "bool_string b \<noteq> []"
  by (simp add: bool_string_def)

lemma present_bool [simp]: "present (map_option bool_string b) = map_option bool_string b"
  by (cases b) (simp_all add: present_def)

lemma filter_params_get:
  "url_get ''q'' (filter_params f) = present (cf_q f)"
  "url_get ''enabled'' (filter_params f) = map_option bool_string (cf_enabled f)"
  "url_get ''sort'' (filter_params f) = present (cf_sort f)"
  "url_get ''order'' (filter_params f) = present (cf_order f)"
  "url_get ''csort'' (filter_params f) = None"
  "url_get ''corder'' (filter_params f) = None"
  by (simp_all add: filter_params_def url_get_append url_get_truthy split: option.split)

lemma setFilter_shown:
  "domains_filter (nv_here (pv_nav (setFilter f p))) =
     f\<lparr>cf_q := present (cf_q f), cf_sort := present (cf_sort f), cf_order := present (cf_order f)\<rparr>"
proof -
  have "strict_bool (map_option bool_string b) = b" for b by (cases b) (simp_all add: strict_bool_def[of None])
  then show ?thesis by (simp add: setFilter_def domains_filter_def filter_params_get)
qed

lemma setFilter_csort [simp]:
  "url_get ''csort'' (nv_here (pv_nav (setFilter f p))) = None"
  "url_get ''corder'' (nv_here (pv_nav (setFilter f p))) = None"
  by (simp_all add: setFilter_def filter_params_get)

lemma selected_cleared [simp]:
  "pv_selected (setFilter f p) = {}" "pv_selected (handleSortChange k d p) = {}" "pv_selected (handleSort k p) = {}"
  by (simp_all add: setFilter_def handleSortChange_def handleSort_def split: prod.splits)

text \<open>After a click on a header the table is sorted by it; a second click turns the direction round.\<close>

lemma sort_change_effective: "effective_sort (nv_here (pv_nav (handleSortChange k d p))) = (Some k, Some d)"
  by (simp add: handleSortChange_def effective_sort_def domains_filter_def)

lemma sort_click_twice:
  assumes "fst (effective_sort (nv_here (pv_nav p))) \<noteq> Some k"
  shows "effective_sort (nv_here (pv_nav (handleSort k p))) = (Some k, Some ''asc'')"
    and "effective_sort (nv_here (pv_nav (handleSort k (handleSort k p)))) = (Some k, Some ''desc'')"
  using assms by (auto simp: handleSort_def sort_change_effective split: prod.splits)

text \<open>A sort key that the server does not know is never sent after a click.\<close>

definition filter_known :: "page_filter \<Rightarrow> bool" where
  "filter_known f = (cf_sort f \<in> {None, Some ''host''} \<and> cf_order f \<in> {None, Some ''asc'', Some ''desc''})"

lemma filter_known_sort:
  assumes "filter_known (domains_filter (nv_here (pv_nav p)))" and "k = ''host'' \<or> k \<in> set CLIENT_SORT_KEYS"
  shows "filter_known (domains_filter (nv_here (pv_nav (handleSort k p))))"
  using assms(2)
proof
  assume "k = ''host''"
  then show ?thesis
    by (auto simp: handleSort_def handleSortChange_def filter_known_def domains_filter_def CLIENT_SORT_KEYS_def
        split: prod.splits)
next
  assume "k \<in> set CLIENT_SORT_KEYS"
  then show ?thesis
    by (simp add: handleSort_def handleSortChange_def filter_known_def domains_filter_def split: prod.splits)
qed

lemma filter_known_accepted:
  assumes "filter_known f" and "\<forall>q. cf_q f = Some q \<longrightarrow> length q \<le> 200"
  shows "\<exists>fo. list_domains (domains_query f) t = Ok 200 (findAll fo t) \<and> f_q fo = cf_q f \<and> f_enabled fo = cf_enabled f"
proof -
  have e: "enabled_filter (map_option bool_string (cf_enabled f)) = Some (cf_enabled f)"
  proof (cases "cf_enabled f")
    case (Some b)
    have "js_lower ''true'' = ''true''" "js_lower ''false'' = ''false''" by code_simp+
    with Some show ?thesis
      by (cases b) (simp_all add: enabled_filter_def ENABLED_TRUE_VALUES_def ENABLED_FALSE_VALUES_def bool_string_def)
  qed (simp add: enabled_filter_def)
  have s: "\<not> bad_value SORT_WHITELIST id (cf_sort f)"
    using assms(1) by (auto simp: filter_known_def bad_value_def SORT_WHITELIST_def)
  have "js_lower ''asc'' = ''asc''" "js_lower ''desc'' = ''desc''" by code_simp+
  then have d: "\<not> bad_value ORDER_WHITELIST js_lower (cf_order f)"
    using assms(1) by (auto simp: filter_known_def bad_value_def ORDER_WHITELIST_def)
  have q: "\<not> (case cf_q f of None \<Rightarrow> False | Some q \<Rightarrow> Q_MAX_LENGTH < length q)"
    using assms(2) by (auto simp: Q_MAX_LENGTH_def split: option.splits)
  have o: "optional_int lo hi None = Some None" for lo hi by (simp add: optional_int_def)
  show ?thesis
    using s d q by (intro exI[of _ "\<lparr>f_q = cf_q f, f_enabled = cf_enabled f, f_sort = cf_sort f, f_order = cf_order f,
        f_limit = None, f_offset = None\<rparr>"]) (simp add: list_domains_def domains_query_def e o)
qed

subsection \<open>Laws of the rows and the selection\<close>

lemma row_before_total: "row_before d a b \<or> row_before d b a"
  by (cases a; cases b) (auto simp: row_before_def)

lemma row_before_trans: "row_before d a b \<Longrightarrow> row_before d b c \<Longrightarrow> row_before d a c"
  by (cases a; cases b; cases c) (auto simp: row_before_def split: if_splits)

lemma sortedDomains_sorted:
  assumes "k \<noteq> []" and "k \<noteq> ''host''"
  shows "sorted_wrt (\<lambda>a b. row_before (d = Some ''desc'') (val (d_host a)) (val (d_host b)))
    (sortedDomains val (Some k, d) ds)"
proof -
  let ?le = "\<lambda>a b. row_before (d = Some ''desc'') (val (d_host a)) (val (d_host b))"
  have "sorted_wrt ?le (order_by ?le ds)"
    by (rule sorted_order_by) (use row_before_total row_before_trans in blast)+
  with assms show ?thesis by (simp add: sortedDomains_def)
qed

lemma sortedDomains_mset [simp]: "mset (sortedDomains val s ds) = mset ds"
  by (cases s; cases "fst s") (auto simp: sortedDomains_def)

text \<open>Rows of equal value stay in the order of the server.\<close>

lemma sortedDomains_stable:
  "filter (\<lambda>d. val (d_host d) = v) (sortedDomains val s ds) = filter (\<lambda>d. val (d_host d) = v) ds"
proof (cases s)
  case (Pair k dir)
  let ?le = "\<lambda>a b. row_before (dir = Some ''desc'') (val (d_host a)) (val (d_host b))"
  have "filter (\<lambda>d. val (d_host d) = v) (order_by ?le ds) = order_by ?le (filter (\<lambda>d. val (d_host d) = v) ds)"
    by (rule filter_order_by) (use row_before_total row_before_trans in blast)+
  also have "\<dots> = order_by (\<lambda>a b. True) (filter (\<lambda>d. val (d_host d) = v) ds)"
    by (rule order_by_cong) (auto simp: row_before_def split: option.splits)
  also have "\<dots> = filter (\<lambda>d. val (d_host d) = v) ds"
  proof -
    have "order_by (\<lambda>a b. True) xs = xs" for xs :: domains
    proof (induction xs)
      case (Cons x xs)
      then show ?case by (cases xs) (simp_all add: order_by_def)
    qed (simp add: order_by_def)
    then show ?thesis by simp
  qed
  finally show ?thesis using Pair by (cases k) (auto simp: sortedDomains_def)
qed

lemma allSelected_after: "ds \<noteq> [] \<Longrightarrow> allSelected ds (pv_selected (handleSelectAll ds True p))"
  by (auto simp: allSelected_def handleSelectAll_def list_all_iff)


subsection \<open>Laws of the delayed search\<close>

lemma toolbar_filter_change:
  "tb_filter (onFilterChange f s) =
     f\<lparr>cf_q := present (cf_q f), cf_sort := present (cf_sort f), cf_order := present (cf_order f)\<rparr>"
  by (simp add: tb_filter_def onFilterChange_def setFilter_shown)

lemma timer_filter:
  assumes "tb_timer s = Some (f, v)"
  shows "tb_filter (timer_fires s) =
     f\<lparr>cf_q := present (Some (js_trim v)), cf_sort := present (cf_sort f), cf_order := present (cf_order f)\<rparr>"
    and "tb_local (timer_fires s) = None" and "tb_timer (timer_fires s) = None"
  using assms toolbar_filter_change
  by (auto simp: timer_fires_def Let_def tb_filter_def onFilterChange_def setFilter_shown present_def)

text \<open>The events of the page, for the rows that the server gave for the filter shown.\<close>

inductive page_event :: "toolbar \<times> domains \<Rightarrow> toolbar \<times> domains \<Rightarrow> bool" where
  typed: "page_event (s, ds) (handleSearchChange v native s, ds)"
| composing: "page_event (s, ds) (handleCompositionStart s, ds)"
| composed: "tb_composing s \<Longrightarrow> page_event (s, ds) (handleCompositionEnd v s, ds)"
| fired: "tb_timer s \<noteq> None \<Longrightarrow> page_event (s, ds) (timer_fires s, [])"
| cleared: "shows_clear_button s \<Longrightarrow> page_event (s, ds) (handleClearSearch s, [])"
| escaped: "\<not> tb_composing s \<Longrightarrow> searchValue s \<noteq> [] \<Longrightarrow> page_event (s, ds) (handleEscape s, [])"
| status: "v \<in> {''all'', ''true'', ''false''} \<Longrightarrow> page_event (s, ds) (handleEnabledChange v s, [])"
| header: "k = ''host'' \<or> k \<in> set CLIENT_SORT_KEYS \<Longrightarrow>
    page_event (s, ds) (s\<lparr>tb_page := handleSort k (tb_page s)\<rparr>, [])"
| emptied: "p = clear_search (tb_page s) \<or> p = clear_filter (tb_page s) \<Longrightarrow>
    page_event (s, ds) (s\<lparr>tb_page := p\<rparr>, [])"
| fetched: "list_domains (domains_query (tb_filter s)) t = Ok n ds' \<Longrightarrow> page_event (s, ds) (s, ds')"
| select_one: "host \<in> set (map d_host ds) \<Longrightarrow>
    page_event (s, ds) (s\<lparr>tb_page := handleSelectOne host b (tb_page s)\<rparr>, ds)"
| select_all: "ds \<noteq> [] \<Longrightarrow> page_event (s, ds) (s\<lparr>tb_page := handleSelectAll ds b (tb_page s)\<rparr>, ds)"
| deleted: "page_event (s, ds) (s\<lparr>tb_page := deleted_host host (tb_page s)\<rparr>, ds)"
| bulk: "page_event (s, ds) (s\<lparr>tb_page := bulk_done (tb_page s)\<rparr>, ds)"

text \<open>Seen: the hosts that some answer to the request for the filter shown has.\<close>

definition answered :: "page_filter \<Rightarrow> string set" where
  "answered f = {h. \<exists>t n ds. list_domains (domains_query f) t = Ok n ds \<and> h \<in> set (map d_host ds)}"

definition page_ok :: "toolbar \<times> domains \<Rightarrow> bool" where
  "page_ok = (\<lambda>(s, ds).
     filter_known (tb_filter s) \<and> (\<forall>f v. tb_timer s = Some (f, v) \<longrightarrow> filter_known f) \<and>
     set (map d_host ds) \<subseteq> answered (tb_filter s) \<and> pv_selected (tb_page s) \<subseteq> answered (tb_filter s))"

lemma filter_known_set:
  "filter_known f \<Longrightarrow> filter_known (f\<lparr>cf_q := x, cf_sort := present (cf_sort f), cf_order := present (cf_order f)\<rparr>)"
  by (auto simp: filter_known_def present_def)

lemma filter_known_onFilterChange: "filter_known f \<Longrightarrow> filter_known (tb_filter (onFilterChange f s))"
  unfolding toolbar_filter_change by (auto simp: filter_known_def present_def)

lemma page_okI:
  assumes "page_ok (s, ds)" and "filter_known (tb_filter s')" and "pv_selected (tb_page s') = {}"
    and "tb_timer s' = tb_timer s \<or> tb_timer s' = None"
  shows "page_ok (s', [])"
  using assms by (auto simp: page_ok_def)

lemma onFilterChange_more [simp]:
  "tb_timer (onFilterChange f s) = tb_timer s" "pv_selected (tb_page (onFilterChange f s)) = {}"
  by (simp_all add: onFilterChange_def)

lemma page_ok_change:
  assumes "page_ok (s, ds)" and "filter_known f" and "tb_timer s0 = tb_timer s \<or> tb_timer s0 = None"
  shows "page_ok (onFilterChange f s0, [])"
  by (rule page_okI[OF assms(1)]) (use assms(2,3) filter_known_onFilterChange in simp_all)

lemma page_ok_clear: "page_ok (s, ds) \<Longrightarrow> page_ok (handleClearSearch s, [])"
  unfolding handleClearSearch_def
  by (rule page_ok_change[of s ds]) (auto simp: page_ok_def filter_known_def)

lemma page_ok_event: "page_event x y \<Longrightarrow> page_ok x \<Longrightarrow> page_ok y"
proof (induction rule: page_event.induct)
  case (typed s ds v native)
  then show ?case by (auto simp: page_ok_def handleSearchChange_def Let_def tb_filter_def)
next
  case (fired s ds)
  then obtain f v where t: "tb_timer s = Some (f, v)" by auto
  with fired have "filter_known f" by (simp add: page_ok_def)
  then have "filter_known (tb_filter (timer_fires s))"
    unfolding timer_filter(1)[OF t] by (rule filter_known_set)
  moreover have "pv_selected (tb_page (timer_fires s)) = {}"
    using t by (simp add: timer_fires_def Let_def)
  ultimately show ?case using page_okI[OF fired.prems] timer_filter(3)[OF t] by blast
next
  case (escaped s ds)
  then show ?case using page_ok_clear by (simp add: handleEscape_def)
next
  case (status v s ds)
  then show ?case unfolding handleEnabledChange_def
    by (intro page_ok_change[of s ds]) (auto simp: page_ok_def filter_known_def)
next
  case (header k s ds)
  then show ?case using filter_known_sort[of "tb_page s" k]
    by (intro page_okI[OF header.prems]) (auto simp: page_ok_def tb_filter_def)
next
  case (emptied p s ds)
  then have "filter_known (domains_filter (nv_here (pv_nav p)))" "pv_selected p = {}"
    by (auto simp: clear_search_def clear_filter_def setFilter_shown page_ok_def tb_filter_def filter_known_def present_def)
  then show ?case by (intro page_okI[OF emptied.prems]) (simp_all add: tb_filter_def)
next
  case (fetched s t n ds' ds)
  then show ?case by (auto simp: page_ok_def answered_def)
next
  case (cleared s ds)
  then show ?case by (intro page_ok_clear)
next
  case (select_one host ds s b)
  then show ?case by (auto simp: page_ok_def tb_filter_def handleSelectOne_def)
next
  case (select_all ds s b)
  then show ?case by (simp add: page_ok_def tb_filter_def handleSelectAll_def)
next
  case (deleted s ds host)
  then show ?case by (auto simp: page_ok_def tb_filter_def deleted_host_def)
qed (simp_all add: page_ok_def tb_filter_def handleCompositionStart_def handleCompositionEnd_def bulk_done_def)

lemma page_ok_reachable: "page_event\<^sup>*\<^sup>* x y \<Longrightarrow> page_ok x \<Longrightarrow> page_ok y"
  by (induction rule: rtranclp_induct) (auto intro: page_ok_event)


subsection \<open>Laws of the text of many domains\<close>

lemma split_ws_word: "\<forall>c \<in> set w. \<not> is_ws c \<Longrightarrow> split_ws w = [w]"
proof -
  assume "\<forall>c \<in> set w. \<not> is_ws c"
  then have "dropWhile (\<lambda>c. \<not> is_ws c) w = []" by (simp add: dropWhile_eq_Nil_conv)
  then show ?thesis by (subst split_ws.simps) (simp del: dropWhile_eq_Nil_conv)
qed

lemma split_ws_two:
  assumes "\<forall>c \<in> set a. \<not> is_ws c" and "\<forall>c \<in> set b. \<not> is_ws c" and "is_ws d" and "b \<noteq> []"
  shows "split_ws (a @ d # b) = [a, b]"
proof -
  have "dropWhile (\<lambda>c. \<not> is_ws c) (a @ d # b) = d # b" and "takeWhile (\<lambda>c. \<not> is_ws c) (a @ d # b) = a"
    using assms(1,3) by (simp_all add: dropWhile_append2 takeWhile_append2)
  moreover have "dropWhile is_ws b = b" using assms(2,4) by (cases b) auto
  ultimately show ?thesis
    using split_ws_word[OF assms(2)] by (subst split_ws.simps) simp
qed

lemma split_ws_parts: "w \<in> set (split_ws s) \<Longrightarrow> c \<in> set w \<Longrightarrow> \<not> is_ws c"
proof (induction s rule: split_ws.induct)
  case (1 s)
  show ?case
  proof (cases "dropWhile (\<lambda>c. \<not> is_ws c) s")
    case Nil
    then have "\<forall>x \<in> set s. \<not> is_ws x" by (simp only: dropWhile_eq_Nil_conv)
    with split_ws_word 1(2,3) show ?thesis by auto
  next
    case (Cons d cs)
    then have "split_ws s = takeWhile (\<lambda>c. \<not> is_ws c) s # split_ws (dropWhile is_ws cs)"
      by (subst split_ws.simps) simp
    with 1 Cons show ?thesis by (auto dest: set_takeWhileD)
  qed
qed

text \<open>An item as the loop lets it pass: both parts free of white space, the host in lower case.\<close>

definition item_ok :: "string \<times> string \<Rightarrow> bool" where
  "item_ok = (\<lambda>(h, v). js_lower h = h \<and> (\<forall>c \<in> set h. \<not> is_ws c) \<and> (\<forall>c \<in> set v. \<not> is_ws c) \<and>
     (starts_with ''http://'' v \<or> starts_with ''https://'' v))"

lemma js_lower_ws: "(\<forall>c \<in> set s. \<not> is_ws c) \<Longrightarrow> (\<forall>c \<in> set (js_lower s). \<not> is_ws c)"
  by (auto simp: js_lower_def)


lemma parse_loop_items:
  "parse_loop i ls seen res = Inr ds \<Longrightarrow>
     \<exists>new. ds = res @ new \<and> list_all item_ok new \<and> distinct (map fst new) \<and>
       set (map fst new) \<inter> fst ` set seen = {} \<and> length new = length ls"
proof (induction i ls seen res rule: parse_loop.induct)
  case (2 i line ls seen res)
  obtain a b where p: "split_ws line = [a, b]"
  proof -
    have "length (split_ws line) = 2" using 2(2) by (auto simp: Let_def split: if_splits)
    then show ?thesis using that by (auto simp: numeral_2_eq_2 length_Suc_conv)
  qed
  have s: "starts_with ''http://'' b \<or> starts_with ''https://'' b" and m: "map_of seen (js_lower a) = None"
    and r: "parse_loop (Suc i) ls ((js_lower a, i) # seen) (res @ [(js_lower a, b)]) = Inr ds"
    using 2(2) by (auto simp: p Let_def split: if_splits option.splits)
  have "\<exists>new. ds = (res @ [(js_lower a, b)]) @ new \<and> list_all item_ok new \<and> distinct (map fst new) \<and>
       set (map fst new) \<inter> fst ` set ((js_lower a, i) # seen) = {} \<and> length new = length ls"
    using 2(1)[OF refl _ _ refl refl] s m r by (simp add: p)
  then obtain new where n: "ds = (res @ [(js_lower a, b)]) @ new" "list_all item_ok new" "distinct (map fst new)"
    "set (map fst new) \<inter> fst ` set ((js_lower a, i) # seen) = {}" "length new = length ls" by blast
  have "item_ok (js_lower a, b)"
    using s js_lower_ws[of a] split_ws_parts[of a line] split_ws_parts[of b line] by (auto simp: item_ok_def p)
  then show ?case using n m by (intro exI[of _ "(js_lower a, b) # new"]) (auto simp: map_of_eq_None_iff)
qed auto

lemma parse_loop_printed:
  assumes "\<forall>x \<in> set items. item_ok x \<and> fst x \<noteq> []" and "distinct (map fst items)"
    and "set (map fst items) \<inter> fst ` set seen = {}"
  shows "parse_loop i (map (\<lambda>(h, v). h @ CHR '' '' # v) items) seen res = Inr (res @ items)"
  using assms
proof (induction items arbitrary: i seen res)
  case (Cons x items)
  obtain h v where x: "x = (h, v)" by (cases x)
  have k: "js_lower h = h" "starts_with ''http://'' v \<or> starts_with ''https://'' v"
    "\<forall>c \<in> set h. \<not> is_ws c" "\<forall>c \<in> set v. \<not> is_ws c"
    using Cons.prems(1) by (auto simp: x item_ok_def)
  then have "v \<noteq> []" by (auto simp: starts_with_def)
  then have "split_ws (h @ CHR '' '' # v) = [h, v]"
    using split_ws_two[OF k(3,4)] by (simp add: is_ws_def)
  moreover have "map_of seen h = None" using Cons.prems(3) by (auto simp: x map_of_eq_None_iff)
  moreover have "parse_loop (Suc i) (map (\<lambda>(h, v). h @ CHR '' '' # v) items) ((h, i) # seen) (res @ [(h, v)]) =
      Inr ((res @ [(h, v)]) @ items)"
    by (rule Cons.IH) (use Cons.prems in \<open>auto simp: x\<close>)
  ultimately show ?case using k(1,2) by (auto simp: x)
qed simp


lemma js_trim_no_ws: "\<forall>c \<in> set s. \<not> is_ws c \<Longrightarrow> js_trim s = s"
  by (simp add: js_trim_def dropWhile_none)

lemma js_trim_ends: "s \<noteq> [] \<Longrightarrow> \<not> is_ws (hd s) \<Longrightarrow> \<not> is_ws (last s) \<Longrightarrow> js_trim s = s"
proof -
  assume s: "s \<noteq> []" "\<not> is_ws (hd s)" "\<not> is_ws (last s)"
  then have "dropWhile is_ws s = s" by (cases s) auto
  moreover have "dropWhile is_ws (rev s) = rev s" using s by (cases s rule: rev_cases) auto
  ultimately show ?thesis by (simp add: js_trim_def)
qed

text \<open>The host of an item that was parsed is the host that the server reads.\<close>

lemma item_ok_host: "item_ok (h, v) \<Longrightarrow> normalizeHost h = h"
  by (simp add: item_ok_def normalizeHost_def js_trim_no_ws)

lemma parseLines_items:
  assumes "parseLines text = Inr ds"
  shows "list_all item_ok ds" and "distinct (map fst ds)" and "length ds \<le> 500" and "length ds = domainCount text"
proof -
  let ?ls = "filter (\<lambda>l. 0 < length l) (map js_trim (split_on CHR 0x0A text))"
  have t: "total_lines text \<le> 500" and l: "parse_loop 0 ?ls [] [] = Inr ds"
    using assms by (auto simp: parseLines_def BULK_ADD_MAX_LINES_def split: if_splits)
  from parse_loop_items[OF l] show "list_all item_ok ds" "distinct (map fst ds)" by auto
  have n: "length ds = length ?ls" using parse_loop_items[OF l] by auto
  then show "length ds = domainCount text" by (simp add: domainCount_def filter_map o_def)
  show "length ds \<le> 500"
  proof (cases "text = []")
    case True
    then show ?thesis using n by (simp add: js_trim_def)
  next
    case False
    have "length ?ls \<le> length (split_on CHR 0x0A text)" by (metis length_filter_le length_map)
    then have "length ds \<le> length (split_on CHR 0x0A text)" by (rule ord_eq_le_trans[OF n])
    with False t show ?thesis by (simp add: total_lines_def)
  qed
qed

lemma bulk_begin_parsed:
  assumes "list_all item_ok ds" and "distinct (map fst ds)" and "length ds \<le> 500" and "ds \<noteq> []"
  shows "snd (bulk_add_begin w (bulk_body ds) c) =
     (if \<not> list_all (DOMAIN_RE \<circ> fst) ds then Inl (Reject 400 ''domain_invalid_format'')
      else if \<not> list_all (\<lambda>d. isValidOrigin (w_url w) (Str (snd d))) ds then Inl (Reject 400 ''origin_invalid'')
      else Inr (PBulkAdd (snd (bulkInsert (w_insert_err w) (w_now w)
             (map (\<lambda>(h, v). (h, the (normalizeOrigin (w_url w) v))) ds) (t_domains (c_db c)))) (map fst ds)))"
proof -
  define items where "items = map (\<lambda>(h, v). Some (Str h, Str v)) ds"
  define nd where "nd = map (\<lambda>(h, v). (Str h, Str v)) ds"
  have i: "bulk_body ds = Some items" "items \<noteq> []" "\<not> BULK_MAX_DOMAINS < length items" "None \<notin> set items"
    using assms(3,4) by (auto simp: bulk_body_def items_def BULK_MAX_DOMAINS_def)
  have m: "map (bulk_normalize \<circ> the) items = nd"
    using assms(1) by (auto simp: items_def nd_def list_all_iff bulk_normalize_def item_ok_host)
  have rows: "map (\<lambda>d. (str_of (fst d), normalizeOrigin (w_url w) (str_of (snd d)))) nd =
      map (\<lambda>(h, v). (h, normalizeOrigin (w_url w) v)) ds"
    and hosts: "map (str_of \<circ> fst) nd = map fst ds"
    and re: "list_all (\<lambda>d. is_str (fst d) \<and> DOMAIN_RE (str_of (fst d))) nd = list_all (DOMAIN_RE \<circ> fst) ds"
    and og: "list_all (\<lambda>d. isValidOrigin (w_url w) (snd d)) nd = list_all (\<lambda>d. isValidOrigin (w_url w) (Str (snd d))) ds"
    by (auto simp: nd_def list_all_iff)
  have ok: "None \<notin> set (map snd (map (\<lambda>(h, v). (h, normalizeOrigin (w_url w) v)) ds))"
    if "list_all (\<lambda>d. isValidOrigin (w_url w) (Str (snd d))) ds"
    using that by (auto simp: list_all_iff isValidOrigin_def normalizeOrigin_def split: option.splits)
  have r: "map (\<lambda>(h, x). (h, the x)) (map (\<lambda>(h, v). (h, normalizeOrigin (w_url w) v)) ds) =
      map (\<lambda>(h, v). (h, the (normalizeOrigin (w_url w) v))) ds" and f: "map fst (map (\<lambda>(h, v). (h, normalizeOrigin (w_url w) v)) ds) = map fst ds"
    by auto
  show ?thesis
    unfolding bulk_add_begin_def i(1) option.case Let_def m rows re og hosts r f reject_def
    using i(2-4) ok assms(2) by (auto split: prod.splits)
qed

text \<open>The client's check of an origin is the server's.\<close>

lemma page_isValidOrigin_eq: "page_isValidOrigin parse s = isValidOrigin parse (Str s)"
  by (cases "parse s") (auto simp: page_isValidOrigin_def isValidOrigin_def ORIGIN_MAX_LENGTH_def)


subsection \<open>The page as a whole\<close>

text \<open>
  C28. The form for one domain accepts exactly what the server accepts: it sends a body only if
  \<open>POST /api/domains\<close> does not refuse that body with 400, and where it shows an error the server would have
  refused the input with 400.
\<close>

theorem add_form_agrees:
  shows "case add_domain_submit (w_url w) host orig of
      Inr (h, v) \<Rightarrow> \<forall>cde. snd (post_begin w (Str h) (Str v) c) \<noteq> Inl (Reject 400 cde)
    | Inl errors \<Rightarrow> \<exists>cde. snd (post_begin w (Str host) (Str (js_trim orig)) c) = Inl (Reject 400 cde)"
proof -
  have n: "normalizeHost (js_lower (js_trim host)) = js_lower (js_trim host)" "normalizeHost host = js_lower (js_trim host)"
    by (simp_all add: normalizeHost_def js_trim_lower)
  show ?thesis
    by (auto simp: add_domain_submit_def host_error_def origin_error_def post_begin_def n Let_def reject_def
        page_isValidOrigin_eq split: if_splits option.splits)
qed


text \<open>
  C29. The text that lists the items line by line is read back as these items, for up to 500 distinct hosts
  in lower case.
\<close>

theorem bulk_text_roundtrip:
  assumes "\<forall>x \<in> set items. item_ok x \<and> fst x \<noteq> []" and "distinct (map fst items)" and "length items \<le> 500"
  shows "parseLines (joined [CHR 0x0A] (map (\<lambda>(h, v). h @ CHR '' '' # v) items)) = Inr items"
proof (cases "items = []")
  case True
  then show ?thesis by (simp add: joined_def parseLines_def total_lines_def js_trim_def)
next
  case False
  let ?ls = "map (\<lambda>(h, v). h @ CHR '' '' # v) items"
  have line: "js_trim l = l \<and> l \<noteq> [] \<and> CHR 0x0A \<notin> set l" if l: "l \<in> set ?ls" for l
  proof -
    obtain h v where x: "l = h @ CHR '' '' # v" "(h, v) \<in> set items" using l by auto
    then have k: "\<forall>c \<in> set h. \<not> is_ws c" "\<forall>c \<in> set v. \<not> is_ws c" "h \<noteq> []" "v \<noteq> []"
      using assms(1) by (fastforce simp: item_ok_def starts_with_def)+
    have nl: "is_ws CHR 0x0A" by (simp add: is_ws_def)
    have "js_trim l = l" unfolding x(1) by (rule js_trim_ends) (use k in simp_all)
    moreover have "CHR 0x0A \<notin> set l" using k nl by (auto simp: x(1))
    ultimately show ?thesis by (simp add: x(1))
  qed
  have s: "split_on CHR 0x0A (joined [CHR 0x0A] ?ls) = ?ls"
    by (rule split_on_joined) (use False line in auto)
  have "joined [CHR 0x0A] ?ls \<noteq> []"
  proof
    assume e: "joined [CHR 0x0A] ?ls = []"
    from s have "?ls = [[]]" unfolding e by simp
    with line show False by auto
  qed
  then have "total_lines (joined [CHR 0x0A] ?ls) = length items" by (simp add: total_lines_def s)
  moreover have "map js_trim ?ls = ?ls" using line by (intro map_idI) auto
  moreover have "filter (\<lambda>l. 0 < length l) ?ls = ?ls" using line by (intro filter_True) auto
  ultimately show ?thesis
    unfolding parseLines_def BULK_ADD_MAX_LINES_def s using assms(3) parse_loop_printed[OF assms(1,2), of "[]" 0 "[]"]
    by (simp only: append_Nil) simp
qed


definition sample_items :: "(string \<times> string) list" where
  "sample_items = [(''a.kr'', ''http://x.kr''), (''b.kr'', ''https://y.kr'')]"

lemma bulk_text_roundtrip_witness:
  "parseLines (joined [CHR 0x0A] (map (\<lambda>(h, v). h @ CHR '' '' # v) sample_items)) = Inr sample_items"
proof (rule bulk_text_roundtrip)
  have "list_all (\<lambda>x. item_ok x \<and> fst x \<noteq> []) sample_items" by code_simp
  then show "\<forall>x \<in> set sample_items. item_ok x \<and> fst x \<noteq> []" by (simp add: list_all_iff)
  show "distinct (map fst sample_items)" by code_simp
  show "length sample_items \<le> 500" by code_simp
qed



definition opened_page :: toolbar where
  "opened_page = \<lparr>tb_page = \<lparr>pv_nav = \<lparr>nv_back = [], nv_here = []\<rparr>, pv_selected = {}\<rparr>, tb_local = None,
     tb_timer = None, tb_composing = False\<rparr>"


text \<open>
  The search of the toolbar settles on the last text typed, without the white space at its ends, and
  keeps the rest of the filter as it was when the text was typed: a status filter chosen or a column clicked
  before the timer fires is taken back by it.
\<close>

theorem search_settles:
  assumes "\<not> tb_composing s"
  shows "tb_filter (timer_fires (handleSearchChange v False s)) =
      (tb_filter s)\<lparr>cf_q := present (Some (js_trim v)), cf_sort := present (cf_sort (tb_filter s)),
        cf_order := present (cf_order (tb_filter s))\<rparr> \<and>
    tb_filter (timer_fires (handleEnabledChange x (handleSearchChange v False s))) =
      tb_filter (timer_fires (handleSearchChange v False s)) \<and>
    searchValue (timer_fires (handleSearchChange v False s)) = js_trim v"
proof -
  have t: "tb_timer (handleSearchChange v False s) = Some (tb_filter s, v)"
    "tb_timer (handleEnabledChange x (handleSearchChange v False s)) = Some (tb_filter s, v)"
    using assms by (simp_all add: handleSearchChange_def handleEnabledChange_def Let_def)
  show ?thesis
    using timer_filter[OF t(1)] timer_filter(1)[OF t(2)] by (auto simp: searchValue_def present_def or_else_def)
qed

lemma search_settles_witness:
  "cf_q (tb_filter (timer_fires (handleSearchChange '' abc '' False opened_page))) = Some ''abc''"
proof -
  have "\<not> tb_composing opened_page" by (simp add: opened_page_def)
  from search_settles[OF this, of "'' abc ''"] show ?thesis by (simp add: present_def) code_simp
qed


text \<open>
  Sorting by a column of the client shows every row of the answer once, the rows without a value last, the
  others by their value in the chosen direction, and rows of equal value in the order of the server.
\<close>

theorem sorted_table:
  assumes "k \<noteq> []" and "k \<noteq> ''host''"
  shows "mset (sortedDomains val (Some k, d) ds) = mset ds \<and>
    sorted_wrt (\<lambda>a b. case (val (d_host a), val (d_host b)) of
        (Some x, Some y) \<Rightarrow> if d = Some ''desc'' then y \<le> x else x \<le> y
      | (None, v) \<Rightarrow> v = None | _ \<Rightarrow> True) (sortedDomains val (Some k, d) ds) \<and>
    (\<forall>v. filter (\<lambda>r. val (d_host r) = v) (sortedDomains val (Some k, d) ds) = filter (\<lambda>r. val (d_host r) = v) ds)"
proof (intro conjI allI)
  show "sorted_wrt (\<lambda>a b. case (val (d_host a), val (d_host b)) of
        (Some x, Some y) \<Rightarrow> if d = Some ''desc'' then y \<le> x else x \<le> y
      | (None, v) \<Rightarrow> v = None | _ \<Rightarrow> True) (sortedDomains val (Some k, d) ds)"
    by (rule sorted_wrt_mono_rel[OF _ sortedDomains_sorted[OF assms]])
      (auto simp: row_before_def split: option.splits)
qed (simp_all add: sortedDomains_stable)

lemma sorted_table_witness:
  "mset (sortedDomains (\<lambda>h. if h = ''a'' then None else Some (of_nat (length h))) (Some ''requests'', None) ds) = mset ds"
  using sorted_table[of "''requests''" "\<lambda>h. if h = ''a'' then None else Some (of_nat (length h))" None ds] by simp

text \<open>A timer that was running when a composition began fires into it and takes its text off the field.\<close>

lemma composition_interrupted:
  fixes x :: string
  assumes "tb_timer s = Some (f, v)"
  defines "s' \<equiv> handleSearchChange x True (handleCompositionStart s)"
  shows "searchValue s' = x" and "tb_composing (timer_fires s')" and "searchValue (timer_fires s') = js_trim v"
proof -
  have t: "tb_timer s' = Some (f, v)"
    using assms by (simp add: handleSearchChange_def handleCompositionStart_def Let_def)
  show "searchValue s' = x" "tb_composing (timer_fires s')"
    using t by (simp_all add: s'_def searchValue_def handleSearchChange_def handleCompositionStart_def or_else_def
        timer_fires_def onFilterChange_def Let_def split: option.splits)
  show "searchValue (timer_fires s') = js_trim v"
    using timer_filter(1,2)[OF t] by (auto simp: searchValue_def present_def or_else_def)
qed

end
