(* ===== verification/Log_View.thy ===== *)
theory Log_View
  imports Log_Stream Auth
begin

section \<open>The web client: the viewer of the logs\<close>

text \<open>
  \<open>lib/stripAnsi.ts\<close>, \<open>hooks/useLogStream.ts\<close> and \<open>components/system/LogViewer.tsx\<close>: the state of the
  stream with its ring buffer, the events of the \<open>EventSource\<close>, the question whether the session is over,
  and the filter and the scrolling of the viewer. \<open>JSON.parse\<close> of a message is an argument; it answers
  \<open>None\<close> where parsing fails or the object has no text.
\<close>

subsection \<open>Escape sequences\<close>

definition is_letter :: "char \<Rightarrow> bool" where
  "is_letter c = (is_alnum c \<and> \<not> is_digit c)"

text \<open>The text behind \<open>\x1b\[[0-9;]*[a-zA-Z]\<close> at the head of the string.\<close>

definition csi_rest :: "string \<Rightarrow> string option" where
  "csi_rest s =
     (case s of
        e # b # r \<Rightarrow>
          if e = CHR 0x1B \<and> b = CHR ''['' then
            (case dropWhile ansi_digit r of
               [] \<Rightarrow> None
             | m # t \<Rightarrow> if is_letter m then Some t else None)
          else None
      | _ \<Rightarrow> None)"

lemma csi_rest_length: "csi_rest s = Some t \<Longrightarrow> length t < length s"
proof -
  assume a: "csi_rest s = Some t"
  then obtain e b r m where s: "s = e # b # r" and d: "dropWhile ansi_digit r = m # t"
    by (auto simp: csi_rest_def split: list.splits if_splits)
  have "length (dropWhile ansi_digit r) \<le> length r" by (rule length_dropWhile_le)
  with s d show ?thesis by simp
qed

function stripAnsi :: "string \<Rightarrow> string" where
  "stripAnsi s =
     (case s of
        [] \<Rightarrow> []
      | c # cs \<Rightarrow> (case csi_rest s of Some t \<Rightarrow> stripAnsi t | None \<Rightarrow> c # stripAnsi cs))"
  by pat_completeness auto

termination
  by (relation "measure length") (auto dest!: csi_rest_length)

declare stripAnsi.simps [simp del]

subsection \<open>The state of the stream\<close>

definition MAX_LINES :: nat where
  "MAX_LINES = 1000"

datatype stream_error = StreamClosed | Reconnecting

record stream_state =
  ss_lines :: "log_line list"
  ss_isConnected :: bool
  ss_error :: "stream_error option"

definition initialState :: stream_state where
  "initialState = \<lparr>ss_lines = [], ss_isConnected = False, ss_error = None\<rparr>"

datatype stream_action = RESET | CONNECTED | DISCONNECTED "stream_error option" | APPEND log_line | CLEAR

fun streamReducer :: "stream_state \<Rightarrow> stream_action \<Rightarrow> stream_state" where
  "streamReducer s RESET = initialState"
| "streamReducer s CONNECTED = s\<lparr>ss_isConnected := True, ss_error := None\<rparr>"
| "streamReducer s (DISCONNECTED e) = s\<lparr>ss_isConnected := False, ss_error := e\<rparr>"
| "streamReducer s (APPEND line) =
     (let next = ss_lines s @ [line]
      in s\<lparr>ss_lines := (if MAX_LINES < length next then drop (length next - MAX_LINES) next else next)\<rparr>)"
| "streamReducer s CLEAR = s\<lparr>ss_lines := []\<rparr>"

subsection \<open>The hook\<close>

text \<open>
  The events of the source, the answers to the questions for the session (\<open>None\<close> where the request itself
  fails), the choice of a service and the button that clears. The hook counts the questions under way.
\<close>

datatype stream_event =
    ServiceChosen string
  | Opened
  | Message string
  | Failed bool
  | Answered "int option"
  | Cleared

record log_hook =
  lh_service :: string
  lh_state :: stream_state
  lh_checks :: nat
  lh_redirected :: bool

definition dispatch :: "stream_action \<Rightarrow> log_hook \<Rightarrow> log_hook" where
  "dispatch a h = h\<lparr>lh_state := streamReducer (lh_state h) a\<rparr>"

definition hook_mount :: "string \<Rightarrow> log_hook" where
  "hook_mount svc = dispatch RESET \<lparr>lh_service = svc, lh_state = initialState, lh_checks = 0, lh_redirected = False\<rparr>"

text \<open>The events other than the choice of the same service again, after which no effect runs.\<close>

fun hook_step :: "(string \<Rightarrow> log_line option) \<Rightarrow> stream_event \<Rightarrow> log_hook \<Rightarrow> log_hook" where
  "hook_step json (ServiceChosen svc) h =
     (if svc = lh_service h then h
      else if svc = [] then (dispatch (DISCONNECTED None) h)\<lparr>lh_service := svc\<rparr>
      else dispatch RESET ((dispatch (DISCONNECTED None) h)\<lparr>lh_service := svc\<rparr>))"
| "hook_step json Opened h = dispatch CONNECTED h"
| "hook_step json (Message d) h =
     (case json d of
        None \<Rightarrow> h
      | Some line \<Rightarrow> dispatch (APPEND (line\<lparr>ll_message := stripAnsi (ll_message line)\<rparr>)) h)"
| "hook_step json (Failed shut) h =
     (if shut then h\<lparr>lh_checks := Suc (lh_checks h)\<rparr> else dispatch (DISCONNECTED (Some Reconnecting)) h)"
| "hook_step json (Answered status) h =
     (if lh_checks h = 0 then h
      else
        let h1 = h\<lparr>lh_checks := lh_checks h - 1\<rparr>
        in (case status of
              Some n \<Rightarrow>
                if n = 401 \<or> n = 403 then h1\<lparr>lh_redirected := True\<rparr>
                else dispatch (DISCONNECTED (Some StreamClosed)) h1
            | None \<Rightarrow> dispatch (DISCONNECTED (Some StreamClosed)) h1))"
| "hook_step json Cleared h = dispatch CLEAR h"

definition hook_run :: "(string \<Rightarrow> log_line option) \<Rightarrow> stream_event list \<Rightarrow> log_hook \<Rightarrow> log_hook" where
  "hook_run json evs h = foldl (\<lambda>h ev. hook_step json ev h) h evs"

text \<open>The status that \<open>GET /api/auth/state\<close> answers the question with.\<close>

definition auth_state_status :: "keys \<Rightarrow> users \<Rightarrow> string option \<Rightarrow> int" where
  "auth_state_status k s token = status_of (Ok 200 (auth_state k s token) :: auth_body reply)"

subsection \<open>The viewer\<close>

definition LEVELS :: "string list" where
  "LEVELS = [''all'', ''ERROR'', ''WARN'', ''INFO'', ''DEBUG'']"

fun level_text :: "log_level \<Rightarrow> string" where
  "level_text TRACE = ''TRACE''"
| "level_text DEBUG = ''DEBUG''"
| "level_text INFO = ''INFO''"
| "level_text WARN = ''WARN''"
| "level_text ERROR = ''ERROR''"

definition levelLabel :: "log_level \<Rightarrow> string" where
  "levelLabel l = (if l = ERROR then ''ERR'' else if l = WARN then ''WRN'' else if l = DEBUG then ''DBG'' else ''INF'')"

definition filteredLines :: "string \<Rightarrow> log_line list \<Rightarrow> log_line list" where
  "filteredLines levelFilter ls =
     (if levelFilter = ''all'' then ls else filter (\<lambda>l. level_text (ll_level l) = levelFilter) ls)"

datatype empty_text = NoneOfLevel | Receiving | Waiting

definition log_empty_text :: "string \<Rightarrow> stream_state \<Rightarrow> empty_text option" where
  "log_empty_text levelFilter s =
     (if filteredLines levelFilter (ss_lines s) \<noteq> [] then None
      else Some (if 0 < length (ss_lines s) then NoneOfLevel else if ss_isConnected s then Receiving else Waiting))"

text \<open>Scrolling: the position, whether the viewer follows, and the effect that moves to the end.\<close>

record scroll_view =
  sv_autoScroll :: bool
  sv_scrollTop :: rat
  sv_scrollHeight :: rat
  sv_clientHeight :: rat

definition handleScroll :: "scroll_view \<Rightarrow> scroll_view" where
  "handleScroll v =
     (let atBottom = sv_scrollHeight v - sv_scrollTop v - sv_clientHeight v < 30
      in if \<not> atBottom then v\<lparr>sv_autoScroll := False\<rparr> else v)"

definition toggle_scroll :: "scroll_view \<Rightarrow> scroll_view" where
  "toggle_scroll v = v\<lparr>sv_autoScroll := \<not> sv_autoScroll v\<rparr>"

definition scroll_effect :: "scroll_view \<Rightarrow> scroll_view" where
  "scroll_effect v = (if sv_autoScroll v then v\<lparr>sv_scrollTop := sv_scrollHeight v\<rparr> else v)"

subsection \<open>Laws\<close>

lemma stripAnsi_plain: "CHR 0x1B \<notin> set s \<Longrightarrow> stripAnsi s = s"
proof (induction s)
  case (Cons c cs)
  then have "csi_rest (c # cs) = None" by (auto simp: csi_rest_def split: list.splits)
  with Cons show ?case by (subst stripAnsi.simps) simp
qed (subst stripAnsi.simps, simp)

lemma stripAnsi_length: "length (stripAnsi s) \<le> length s"
proof (induction s rule: stripAnsi.induct)
  case (1 s)
  show ?case
  proof (cases s)
    case Nil
    then show ?thesis by (subst stripAnsi.simps) simp
  next
    case (Cons c cs)
    show ?thesis
    proof (cases "csi_rest s")
      case None
      with 1 Cons show ?thesis by (subst stripAnsi.simps) simp
    next
      case (Some t)
      then have "length t < length s" by (rule csi_rest_length)
      with 1 Cons Some show ?thesis by (subst stripAnsi.simps) fastforce
    qed
  qed
qed

text \<open>The last \<open>n\<close> elements.\<close>

definition last_n :: "nat \<Rightarrow> 'a list \<Rightarrow> 'a list" where
  "last_n n xs = drop (length xs - n) xs"

lemma last_n_snoc: "last_n n (last_n n xs @ [x]) = last_n n (xs @ [x])"
  by (cases "length xs \<le> n") (auto simp: last_n_def Suc_diff_le drop_drop)

text \<open>What the buffer is to hold: all that was appended since it was emptied.\<close>

fun since_empty :: "log_line list \<Rightarrow> stream_action list \<Rightarrow> log_line list" where
  "since_empty acc [] = acc"
| "since_empty acc (a # as) =
     since_empty (case a of RESET \<Rightarrow> [] | CLEAR \<Rightarrow> [] | APPEND l \<Rightarrow> acc @ [l] | _ \<Rightarrow> acc) as"

lemma reducer_append: "ss_lines (streamReducer s (APPEND l)) = last_n MAX_LINES (ss_lines s @ [l])"
  by (simp add: last_n_def Let_def)


lemma ring_from:
  "ss_lines s = last_n MAX_LINES acc \<Longrightarrow>
     ss_lines (foldl streamReducer s acts) = last_n MAX_LINES (since_empty acc acts)"
proof (induction acts arbitrary: s acc)
  case (Cons a acts)
  have "ss_lines (streamReducer s a) =
      last_n MAX_LINES (case a of RESET \<Rightarrow> [] | CLEAR \<Rightarrow> [] | APPEND l \<Rightarrow> acc @ [l] | _ \<Rightarrow> acc)"
    using Cons.prems reducer_append[of s] last_n_snoc[of MAX_LINES acc]
    by (cases a) (simp_all add: initialState_def last_n_def[of MAX_LINES "[]"] del: streamReducer.simps(4))
  from Cons.IH[OF this] show ?case by simp
qed simp

lemma hook_redirected:
  assumes "\<forall>st. Answered st \<in> set evs \<longrightarrow> st = None \<or> st = Some 200"
  shows "lh_redirected (hook_run json evs h) = lh_redirected h"
  using assms
proof (induction evs arbitrary: h)
  case (Cons ev evs)
  have "lh_redirected (hook_step json ev h) = lh_redirected h"
    using Cons.prems by (cases ev) (auto simp: dispatch_def Let_def split: option.splits)
  with Cons show ?case by (simp add: hook_run_def)
qed (simp add: hook_run_def)

lemma auth_state_status_200: "auth_state_status k s token = 200"
  by (simp add: auth_state_status_def)

text \<open>Scrolling alone never turns following on, and following stays on at the end of the text.\<close>

lemma scroll_one_way: "sv_autoScroll (handleScroll v) \<Longrightarrow> sv_autoScroll v"
  by (simp add: handleScroll_def Let_def split: if_splits)

lemma scroll_follows: "sv_autoScroll v \<Longrightarrow> 0 \<le> sv_clientHeight v \<Longrightarrow> sv_autoScroll (handleScroll (scroll_effect v))"
  by (simp add: handleScroll_def scroll_effect_def Let_def)

text \<open>A level that the list of levels lacks is seen under \<open>all\<close> alone.\<close>

lemma trace_hidden: "lv \<in> set LEVELS \<Longrightarrow> l \<in> set (filteredLines lv ls) \<Longrightarrow> ll_level l = TRACE \<Longrightarrow> lv = ''all''"
  by (auto simp: LEVELS_def filteredLines_def)

text \<open>The answer to a question asked for one service marks the open stream of the next as closed.\<close>

lemma stale_answer:
  assumes "a \<noteq> b" and "b \<noteq> []"
  shows "ss_error (lh_state (hook_run json [Failed True, ServiceChosen b, Opened, Answered (Some 200)] (hook_mount a))) =
    Some StreamClosed"
  using assms by (simp add: hook_run_def hook_mount_def dispatch_def Let_def)

subsection \<open>The viewer as a whole\<close>

text \<open>
  C38. After any sequence of actions the buffer of the log holds exactly the last 1000 of the lines that were
  appended since it was last emptied, in order.
\<close>

theorem log_ring_buffer:
  "ss_lines (foldl streamReducer initialState acts) = last_n 1000 (since_empty [] acts)"
  using ring_from[of initialState "[]" acts] by (simp add: initialState_def last_n_def MAX_LINES_def)

text \<open>
  The viewer never sends its user to the login when the session is over: the question it asks is answered
  by the server with 200 whoever asks, and over any run of events in which all answers are the server's,
  whatever the tables and the token are then, the page stays where it is.
\<close>

theorem log_session_end_missed:
  assumes "\<forall>st. Answered st \<in> set evs \<longrightarrow> st = None \<or> (\<exists>k s token. st = Some (auth_state_status k s token))"
  shows "\<not> lh_redirected (hook_run json evs (hook_mount svc))"
  using hook_redirected[of evs json "hook_mount svc"] assms by (auto simp: auth_state_status_200 hook_mount_def dispatch_def)

lemma log_session_end_missed_witness:
  "\<forall>json k s. \<not> lh_redirected
     (hook_run json [Opened, Failed True, Answered (Some (auth_state_status k s None))] (hook_mount ''proxy''))"
  by (intro allI log_session_end_missed) auto

end
