(* ===== verification/Auth_Client.thy ===== *)
theory Auth_Client
  imports Url_State Cache_Routes
begin

section \<open>The web client: sessions, guards and tabs\<close>

text \<open>
  \<open>components/auth\<close>, the routes of \<open>App.tsx\<close>, \<open>LoginPage.tsx\<close>, \<open>SetupPage.tsx\<close> and \<open>lib/api.ts\<close>: the
  guards and where they lead, the address asked for before the login, the errors shown, and the messages
  between the tabs of a browser. The matching of a path to a route (\<open>react-router\<close>) is an argument.
\<close>

subsection \<open>Encoding\<close>

definition hex_digit :: "nat \<Rightarrow> char" where
  "hex_digit d = (if d < 10 then char_of (48 + d) else char_of (55 + d))"

definition pct :: "nat \<Rightarrow> string" where
  "pct b = [CHR ''%'', hex_digit (b div 16), hex_digit (b mod 16)]"

definition unreserved :: "char \<Rightarrow> bool" where
  "unreserved c = (is_alnum c \<or> c \<in> set [CHR ''-'', CHR ''_'', CHR ''.'', CHR ''!'', CHR ''~'', CHR ''*'', CHR 0x27, CHR ''('', CHR '')''])"

definition encodeURIComponent :: "string \<Rightarrow> string" where
  "encodeURIComponent s = concat (map (\<lambda>c. if unreserved c then [c] else concat (map pct (utf8 [c]))) s)"

text \<open>
  Decoding of a part of a query: a plus is a space, and a percent sign that no two hexadecimal digits follow
  stands for itself. A byte sequence that is no character of the strings of the model gives \<open>CHR 0x1A\<close>
  in place of the replacement character or of the character beyond the range.
\<close>

function form_decode :: "string \<Rightarrow> string" where
  "form_decode s =
     (case s of
        [] \<Rightarrow> []
      | c # cs \<Rightarrow>
          if c = CHR ''+'' then CHR '' '' # form_decode cs
          else (case hex_pair s of
                  None \<Rightarrow> c # form_decode cs
                | Some (b, r) \<Rightarrow>
                    if b < 128 then char_of b # form_decode r
                    else (case hex_pair r of
                            None \<Rightarrow> CHR 0x1A # form_decode r
                          | Some (b2, r2) \<Rightarrow>
                              if 194 \<le> b \<and> b \<le> 195 \<and> 128 \<le> b2 \<and> b2 < 192
                              then char_of ((b - 192) * 64 + (b2 - 128)) # form_decode r2
                              else CHR 0x1A # form_decode r)))"
  by pat_completeness auto

termination
  by (relation "measure length") (auto dest!: hex_pair_length)

declare form_decode.simps [simp del]

text \<open>The query as \<open>URLSearchParams\<close> reads it.\<close>

definition search_pair :: "string \<Rightarrow> string \<times> string" where
  "search_pair w = (form_decode (takeWhile (\<lambda>c. c \<noteq> CHR ''='') w), form_decode (tl (dropWhile (\<lambda>c. c \<noteq> CHR ''='') w)))"

definition parse_search :: "string \<Rightarrow> params" where
  "parse_search s =
     map search_pair (filter (\<lambda>w. w \<noteq> []) (split_on CHR ''&'' (if starts_with ''?'' s then tl s else s)))"

subsection \<open>Routes and guards\<close>

record location =
  lo_path :: string
  lo_search :: string

text \<open>The parts of an address that a navigation is given.\<close>

definition parse_to :: "string \<Rightarrow> location" where
  "parse_to to =
     (let s = takeWhile (\<lambda>c. c \<noteq> CHR ''#'') to
      in \<lparr>lo_path = takeWhile (\<lambda>c. c \<noteq> CHR ''?'') s, lo_search = dropWhile (\<lambda>c. c \<noteq> CHR ''?'') s\<rparr>)"

datatype auth_status = AuthLoading | NeedsSetup | NeedsLogin | Authenticated int

text \<open>The routes of \<open>App\<close>; \<open>cache\<close> and \<open>optimizer\<close> lead to \<open>/domains\<close>.\<close>

datatype app_route = LoginRoute | SetupRoute | MovedToDomains | PageRoute

definition safe_from :: "string option \<Rightarrow> string" where
  "safe_from raw =
     (case raw of
        None \<Rightarrow> ''/''
      | Some s \<Rightarrow> if starts_with ''/'' s \<and> \<not> starts_with ''//'' s then s else ''/'')"

definition login_from :: "location \<Rightarrow> string" where
  "login_from loc = ''/login?from='' @ encodeURIComponent (lo_path loc @ lo_search loc)"

definition RequireUnauth :: "auth_status \<Rightarrow> location \<Rightarrow> string option" where
  "RequireUnauth st loc =
     (case st of
        NeedsSetup \<Rightarrow> Some ''/setup''
      | Authenticated u \<Rightarrow> Some (safe_from (url_get ''from'' (parse_search (lo_search loc))))
      | _ \<Rightarrow> None)"

definition RequireSetup :: "auth_status \<Rightarrow> string option" where
  "RequireSetup st = (case st of NeedsLogin \<Rightarrow> Some ''/login'' | Authenticated u \<Rightarrow> Some ''/'' | _ \<Rightarrow> None)"

definition RequireAuth :: "auth_status \<Rightarrow> location \<Rightarrow> string option" where
  "RequireAuth st loc =
     (case st of NeedsSetup \<Rightarrow> Some ''/setup'' | NeedsLogin \<Rightarrow> Some (login_from loc) | _ \<Rightarrow> None)"

text \<open>Where the guards and routes of the address send the browser; \<open>None\<close> when a page is shown.\<close>

definition app_redirect :: "(string \<Rightarrow> app_route) \<Rightarrow> auth_status \<Rightarrow> location \<Rightarrow> string option" where
  "app_redirect route st loc =
     (case route (lo_path loc) of
        LoginRoute \<Rightarrow> RequireUnauth st loc
      | SetupRoute \<Rightarrow> RequireSetup st
      | MovedToDomains \<Rightarrow>
          (case RequireAuth st loc of
             Some to \<Rightarrow> Some to
           | None \<Rightarrow> if st = AuthLoading then None else Some ''/domains'')
      | PageRoute \<Rightarrow> RequireAuth st loc)"

partial_function (option) settle :: "(string \<Rightarrow> app_route) \<Rightarrow> auth_status \<Rightarrow> location \<Rightarrow> location option" where
  "settle route st loc =
     (case app_redirect route st loc of None \<Rightarrow> Some loc | Some to \<Rightarrow> settle route st (parse_to to))"

text \<open>\<open>onSubmit\<close> of the login, once it has succeeded.\<close>

definition after_login :: "location \<Rightarrow> location" where
  "after_login loc = parse_to (safe_from (Some (or_else (url_get ''from'' (parse_search (lo_search loc))) ''/'')))"

text \<open>The interceptor of \<open>lib/api.ts\<close>: the address for an answer of this status to a request of this URL.\<close>

definition on_unauthorized :: "int option \<Rightarrow> string \<Rightarrow> location \<Rightarrow> string option" where
  "on_unauthorized status url loc =
     (if status = Some 401 \<and> \<not> js_includes ''/auth/'' url then Some (login_from loc) else None)"

subsection \<open>Errors\<close>

text \<open>
  An error as \<open>axios\<close> makes it: its code, and of the answer, if there is one and it is an object, the
  members \<open>error\<close> and \<open>message\<close>.
\<close>

record axios_error =
  ax_code :: jsprim
  ax_data :: "(jsprim \<times> jsprim) option"

datatype shown_message = TimeoutMessage | ServerMessage string

definition as_string :: "jsprim \<Rightarrow> string option" where
  "as_string v = (if is_str v then Some (str_of v) else None)"

definition getApiError :: "axios_error \<Rightarrow> string option \<times> shown_message option" where
  "getApiError e =
     (if ax_code e = Str ''ECONNABORTED'' \<or> ax_code e = Str ''ETIMEDOUT''
      then (Some ''timeout'', Some TimeoutMessage)
      else (case ax_data e of
              None \<Rightarrow> (None, None)
            | Some (er, msg) \<Rightarrow> (as_string er, map_option ServerMessage (as_string msg))))"

text \<open>The minutes of \<open>(\d+)\s*minutes?\<close>; the Korean unit lies outside of the strings of the model.\<close>

fun message_minutes :: "string \<Rightarrow> string option" where
  "message_minutes [] = None"
| "message_minutes (c # cs) =
     (if is_digit c \<and> starts_with ''minute'' (dropWhile is_ws (dropWhile is_digit (c # cs)))
      then Some (takeWhile is_digit (c # cs)) else message_minutes cs)"

definition extractRetryMinutes :: "string option \<Rightarrow> string option \<Rightarrow> int option" where
  "extractRetryMinutes retryAfter message =
     (let fromMessage =
        (case message of
           None \<Rightarrow> None
         | Some m \<Rightarrow>
             (case message_minutes m of
                None \<Rightarrow> None
              | Some ds \<Rightarrow> if 0 < digits_val 10 ds then Some (int (digits_val 10 ds)) else None))
      in (case retryAfter of
            None \<Rightarrow> fromMessage
          | Some r \<Rightarrow>
              if r = [] then fromMessage
              else (case number_of_string r of
                      Fin sec \<Rightarrow> if 0 < sec then Some (max 1 \<lceil>sec / 60\<rceil>) else fromMessage
                    | _ \<Rightarrow> fromMessage)))"

datatype login_error = WrongCredentials | TooOften "int option" | LoginFailed

definition login_error_of :: "int option \<Rightarrow> string option \<Rightarrow> string option \<Rightarrow> login_error" where
  "login_error_of status retryAfter message =
     (if status = Some 401 then WrongCredentials
      else if status = Some 429 then TooOften (extractRetryMinutes retryAfter message)
      else LoginFailed)"

text \<open>The checks of the two forms before they are sent; the test for an e-mail address is an argument.\<close>

definition login_form_ok :: "(string \<Rightarrow> bool) \<Rightarrow> string \<Rightarrow> string \<Rightarrow> bool" where
  "login_form_ok is_email name pass = (1 \<le> length name \<and> is_email name \<and> 1 \<le> length pass \<and> 8 \<le> length pass)"

definition setup_form_ok :: "(string \<Rightarrow> bool) \<Rightarrow> string \<Rightarrow> string \<Rightarrow> string \<Rightarrow> bool" where
  "setup_form_ok is_email name pass confirm = (is_email name \<and> 8 \<le> length pass \<and> pass = confirm)"

text \<open>The rule for another attempt of a query (\<open>main.tsx\<close>), given the failures so far and the status.\<close>

definition query_retry :: "nat \<Rightarrow> int option \<Rightarrow> bool" where
  "query_retry failureCount status =
     (case status of
        Some n \<Rightarrow> if 400 \<le> n \<and> n < 500 then False else failureCount < 1
      | None \<Rightarrow> failureCount < 1)"


subsection \<open>The tabs of a browser\<close>

datatype auth_event = EvLogout | EvUserDisabled int | EvPasswordChanged int

record tab =
  wt_state :: auth_status
  wt_loc :: location
  wt_stale_users :: bool

text \<open>The handler of \<open>AuthProvider\<close> for a message of another tab.\<close>

definition leave_session :: "tab \<Rightarrow> tab" where
  "leave_session t = t\<lparr>wt_state := NeedsLogin, wt_loc := parse_to ''/login''\<rparr>"

definition on_auth_event :: "auth_event \<Rightarrow> tab \<Rightarrow> tab" where
  "on_auth_event ev t =
     (case ev of
        EvLogout \<Rightarrow> leave_session t
      | EvUserDisabled i \<Rightarrow> if wt_state t = Authenticated i then leave_session t else t\<lparr>wt_stale_users := True\<rparr>
      | EvPasswordChanged i \<Rightarrow> if wt_state t = Authenticated i then leave_session t else t\<lparr>wt_stale_users := True\<rparr>)"

text \<open>
  A browser: the account of the session cookie, which its tabs share, the tabs, and for each tab the messages
  under way. \<open>broadcastAuthEvent\<close> posts to the channel and writes to the storage as well, so another tab
  gets each message twice, in no fixed order.
\<close>

record browser =
  br_session :: "int option"
  br_tabs :: "tab list"
  br_inbox :: "auth_event list list"

definition broadcastAuthEvent :: "nat \<Rightarrow> auth_event \<Rightarrow> browser \<Rightarrow> browser" where
  "broadcastAuthEvent i ev b =
     b\<lparr>br_inbox := map (\<lambda>j. if j = i then br_inbox b ! j else br_inbox b ! j @ [ev, ev]) [0..<length (br_inbox b)]\<rparr>"

definition on_tab :: "nat \<Rightarrow> (tab \<Rightarrow> tab) \<Rightarrow> browser \<Rightarrow> browser" where
  "on_tab i f b = b\<lparr>br_tabs := (br_tabs b)[i := f (br_tabs b ! i)]\<rparr>"

definition session_status :: "int option \<Rightarrow> auth_status" where
  "session_status s = (case s of None \<Rightarrow> NeedsLogin | Some u \<Rightarrow> Authenticated u)"

text \<open>
  The operations of the provider in the tab \<open>i\<close>: the question for the state (its failure counts as no
  session), the login, and the logout, which goes on as if the server had answered even if it did not.
\<close>

definition tab_refresh :: "nat \<Rightarrow> bool \<Rightarrow> browser \<Rightarrow> browser" where
  "tab_refresh i answered b =
     on_tab i (\<lambda>t. t\<lparr>wt_state := (if answered then session_status (br_session b) else NeedsLogin)\<rparr>) b"

definition tab_login :: "nat \<Rightarrow> int \<Rightarrow> browser \<Rightarrow> browser" where
  "tab_login i u b = on_tab i (\<lambda>t. t\<lparr>wt_state := Authenticated u, wt_loc := after_login (wt_loc t)\<rparr>) (b\<lparr>br_session := Some u\<rparr>)"

definition tab_logout :: "nat \<Rightarrow> bool \<Rightarrow> browser \<Rightarrow> browser" where
  "tab_logout i reached b =
     broadcastAuthEvent i EvLogout
       (on_tab i (\<lambda>t. t\<lparr>wt_state := NeedsLogin\<rparr>) (if reached then b\<lparr>br_session := None\<rparr> else b))"

definition tab_deliver :: "nat \<Rightarrow> nat \<Rightarrow> browser \<Rightarrow> browser" where
  "tab_deliver i k b =
     on_tab i (on_auth_event (br_inbox b ! i ! k))
       (b\<lparr>br_inbox := (br_inbox b)[i := take k (br_inbox b ! i) @ drop (Suc k) (br_inbox b ! i)]\<rparr>)"

inductive deliver_step :: "browser \<Rightarrow> browser \<Rightarrow> bool" where
  "i < length (br_tabs b) \<Longrightarrow> k < length (br_inbox b ! i) \<Longrightarrow> deliver_step b (tab_deliver i k b)"

inductive_cases deliver_stepE: "deliver_step b b'"

definition quiet :: "browser \<Rightarrow> bool" where
  "quiet b = list_all (\<lambda>q. q = []) (br_inbox b)"

subsection \<open>Laws of the encoding\<close>

lemma digit_val_hex: "d < 16 \<Longrightarrow> digit_val (hex_digit d) = d"
  by (auto simp: digit_val_def hex_digit_def Let_def of_char_of)

lemma unreserved_hex: "d < 16 \<Longrightarrow> unreserved (hex_digit d)"
  by (auto simp: unreserved_def is_alnum_def hex_digit_def Let_def of_char_of)

lemma hex_pair_pct: "b < 256 \<Longrightarrow> hex_pair (pct b @ r) = Some (b, r)"
  using digit_val_hex[of "b div 16"] digit_val_hex[of "b mod 16"] by (simp add: pct_def hex_pair_def)

lemma unreserved_plain: "unreserved c \<Longrightarrow> c \<noteq> CHR ''%'' \<and> c \<noteq> CHR ''+'' \<and> c \<noteq> CHR ''&'' \<and> c \<noteq> CHR ''='' \<and> c \<noteq> CHR ''#''"
proof -
  have "\<not> unreserved CHR ''%''" "\<not> unreserved CHR ''+''" "\<not> unreserved CHR ''&''" "\<not> unreserved CHR ''=''"
    "\<not> unreserved CHR ''#''" by code_simp+
  then show "unreserved c \<Longrightarrow> ?thesis" by blast
qed

lemma pct_chars: "c \<in> set (pct b) \<Longrightarrow> b < 256 \<Longrightarrow> c \<noteq> CHR ''&'' \<and> c \<noteq> CHR ''='' \<and> c \<noteq> CHR ''#'' \<and> c \<noteq> CHR ''+''"
proof -
  assume c: "c \<in> set (pct b)" and b: "b < 256"
  have "b div 16 < 16" "b mod 16 < 16" using b by auto
  then have "c = CHR ''%'' \<or> unreserved c" using c unreserved_hex by (auto simp: pct_def)
  then show ?thesis using unreserved_plain by auto
qed

text \<open>The bytes of one character, and how both decoders read them back.\<close>

lemma utf8_char:
  fixes c :: char
  defines "n \<equiv> (of_char c :: nat)"
  shows "n < 128 \<and> utf8 [c] = [n] \<or>
    128 \<le> n \<and> utf8 [c] = [192 + n div 64, 128 + n mod 64] \<and> 194 \<le> 192 + n div 64 \<and> 192 + n div 64 \<le> 195"
proof -
  have "n < 256" by (simp add: n_def)
  then show ?thesis by (auto simp: utf8_def Let_def n_def[symmetric])
qed

lemma two_bytes: "(n :: nat) < 256 \<Longrightarrow> 128 \<le> n \<Longrightarrow> (192 + n div 64 - 192) * 64 + (128 + n mod 64 - 128) = n"
  by simp


lemma form_decode_plain: "c \<noteq> CHR ''%'' \<Longrightarrow> c \<noteq> CHR ''+'' \<Longrightarrow> form_decode (c # r) = c # form_decode r"
proof -
  assume c: "c \<noteq> CHR ''%''" "c \<noteq> CHR ''+''"
  then have "hex_pair (c # r) = None" by (simp add: hex_pair_def split: list.splits)
  with c show ?thesis by (subst form_decode.simps) simp
qed

lemma form_decode_pct:
  assumes "b < 256"
  shows "form_decode (pct b @ r) = (if b < 128 then char_of b # form_decode r
     else (case hex_pair r of
             None \<Rightarrow> CHR 0x1A # form_decode r
           | Some (b2, r2) \<Rightarrow>
               if 194 \<le> b \<and> b \<le> 195 \<and> 128 \<le> b2 \<and> b2 < 192
               then char_of ((b - 192) * 64 + (b2 - 128)) # form_decode r2 else CHR 0x1A # form_decode r))"
proof -
  have p: "pct b @ r = CHR ''%'' # tl (pct b) @ r" by (simp add: pct_def)
  have "hex_pair (CHR ''%'' # tl (pct b) @ r) = Some (b, r)" using hex_pair_pct[OF assms, of r] by (simp add: p)
  then show ?thesis unfolding p by (subst form_decode.simps) simp
qed

lemma decode_plain: "c \<noteq> CHR ''%'' \<Longrightarrow> decodeURIComponent (c # r) = map_option ((#) c) (decodeURIComponent r)"
  by (subst decodeURIComponent.simps) simp

lemma decode_pct:
  assumes "b < 256"
  shows "decodeURIComponent (pct b @ r) = (if b < 128 then map_option ((#) (char_of b)) (decodeURIComponent r)
     else if 194 \<le> b \<and> b \<le> 195 then
       (case hex_pair r of
          None \<Rightarrow> None
        | Some (b2, r2) \<Rightarrow>
            if 128 \<le> b2 \<and> b2 < 192
            then map_option ((#) (char_of ((b - 192) * 64 + (b2 - 128)))) (decodeURIComponent r2) else None)
     else None)"
proof -
  have p: "pct b @ r = CHR ''%'' # tl (pct b) @ r" by (simp add: pct_def)
  have "hex_pair (CHR ''%'' # tl (pct b) @ r) = Some (b, r)" using hex_pair_pct[OF assms, of r] by (simp add: p)
  then show ?thesis unfolding p by (subst decodeURIComponent.simps) simp
qed

lemma enc_Cons: "encodeURIComponent (c # s) = (if unreserved c then [c] else concat (map pct (utf8 [c]))) @ encodeURIComponent s"
  by (simp add: encodeURIComponent_def)

lemma decode_enc_char:
  "form_decode (encodeURIComponent (c # s)) = c # form_decode (encodeURIComponent s)"
  "decodeURIComponent (encodeURIComponent (c # s)) = map_option ((#) c) (decodeURIComponent (encodeURIComponent s))"
proof -
  let ?n = "of_char c :: nat" and ?r = "encodeURIComponent s"
  have n: "?n < 256" and ch: "char_of ?n = c" by simp_all
  consider "unreserved c" | "\<not> unreserved c" "?n < 128" "utf8 [c] = [?n]"
    | "\<not> unreserved c" "128 \<le> ?n" "utf8 [c] = [192 + ?n div 64, 128 + ?n mod 64]" "194 \<le> 192 + ?n div 64" "192 + ?n div 64 \<le> 195"
    using utf8_char[of c] by blast
  then have "form_decode (encodeURIComponent (c # s)) = c # form_decode ?r \<and>
    decodeURIComponent (encodeURIComponent (c # s)) = map_option ((#) c) (decodeURIComponent ?r)"
  proof cases
    case 1
    then show ?thesis
      using unreserved_plain[OF 1] form_decode_plain[of c ?r] decode_plain[of c ?r] by (simp add: enc_Cons)
  next
    case 2
    then show ?thesis using form_decode_pct[OF n, of ?r] decode_pct[OF n, of ?r] by (simp add: enc_Cons)
  next
    case 3
    let ?a = "192 + ?n div 64" and ?b = "128 + ?n mod 64"
    have e: "encodeURIComponent (c # s) = pct ?a @ pct ?b @ ?r" using 3 by (simp add: enc_Cons)
    have "?n < 64 * 64" using n by linarith
    then have "?n div 64 < 64" by (rule less_mult_imp_div_less)
    then have ab: "?a < 256" "\<not> ?a < 128" "?b < 256" "128 \<le> ?b" "?b < 192" by auto
    have c: "char_of ((?a - 192) * 64 + (?b - 128)) = c" unfolding two_bytes[OF n 3(2)] by (rule ch)
    show ?thesis
      unfolding e form_decode_pct[OF ab(1)] decode_pct[OF ab(1)] hex_pair_pct[OF ab(3)]
      using ab 3(4,5) c by simp
  qed
  then show "form_decode (encodeURIComponent (c # s)) = c # form_decode (encodeURIComponent s)"
    "decodeURIComponent (encodeURIComponent (c # s)) = map_option ((#) c) (decodeURIComponent (encodeURIComponent s))"
    by blast+
qed

lemma form_decode_encode [simp]: "form_decode (encodeURIComponent s) = s"
proof (induction s)
  case Nil
  then show ?case by (simp add: encodeURIComponent_def) (subst form_decode.simps, simp)
qed (simp add: decode_enc_char)

lemma encoded_chars: "c \<in> set (encodeURIComponent s) \<Longrightarrow> c \<noteq> CHR ''&'' \<and> c \<noteq> CHR ''='' \<and> c \<noteq> CHR ''#''"
proof (induction s)
  case (Cons d s)
  have b: "\<forall>b \<in> set (utf8 [d]). b < 256" using utf8_char[of d] by auto
  show ?case
  proof (cases "c \<in> set (encodeURIComponent s)")
    case False
    then have "c = d \<and> unreserved d \<or> (\<exists>b \<in> set (utf8 [d]). c \<in> set (pct b))"
      using Cons.prems by (auto simp: enc_Cons split: if_splits)
    with b pct_chars unreserved_plain show ?thesis by blast
  qed (use Cons.IH in blast)
qed (simp add: encodeURIComponent_def)

lemma form_decode_length: "length (form_decode s) \<le> length s"
proof (induction s rule: length_induct)
  case (1 s)
  have IH: "length (form_decode r) \<le> length r" if "length r < length s" for r using 1 that by blast
  show ?case
  proof (cases s)
    case Nil
    then show ?thesis by (subst form_decode.simps) simp
  next
    case (Cons c cs)
    have cs: "length (form_decode cs) \<le> length cs" using IH[of cs] Cons by simp
    show ?thesis
    proof (cases "hex_pair s")
      case None
      then show ?thesis using cs Cons by (subst form_decode.simps) simp
    next
      case (Some x)
      obtain b r where x: "x = (b, r)" by (cases x)
      have r: "length (form_decode r) \<le> length r" "length r < length s"
        using IH[of r] hex_pair_length[of s b r] Some x by auto
      have r2: "length (form_decode r2) \<le> length r2 \<and> length r2 < length r" if "hex_pair r = Some (b2, r2)" for b2 r2
        using IH[of r2] hex_pair_length[OF that] r(2) by simp
      show ?thesis
        unfolding form_decode.simps[of s] using cs r Some x Cons r2 by (auto split: option.splits dest!: r2)
    qed
  qed
qed


subsection \<open>Laws of the guards\<close>

lemma split_on_length: "w \<in> set (split_on d s) \<Longrightarrow> length w \<le> length s"
proof (induction s arbitrary: w)
  case (Cons c cs)
  show ?case
  proof (cases "split_on d cs")
    case Nil
    with Cons.prems show ?thesis by (auto split: if_splits)
  next
    case (Cons v vs)
    then have "length v \<le> length cs" "\<And>u. u \<in> set vs \<Longrightarrow> length u \<le> length cs"
      using Cons.IH by auto
    with Cons.prems Cons show ?thesis by (auto split: if_splits intro: le_SucI)
  qed
qed simp

lemma search_pair_length: "w \<noteq> [] \<Longrightarrow> length (fst (search_pair w)) + length (snd (search_pair w)) \<le> length w"
proof -
  let ?k = "takeWhile (\<lambda>c. c \<noteq> CHR ''='') w" and ?v = "dropWhile (\<lambda>c. c \<noteq> CHR ''='') w"
  have "length ?k + length ?v = length w" by (metis length_append takeWhile_dropWhile_id)
  moreover have "length (form_decode ?k) \<le> length ?k" "length (form_decode (tl ?v)) \<le> length (tl ?v)"
    by (rule form_decode_length)+
  moreover have "length (tl ?v) \<le> length ?v" by simp
  ultimately show ?thesis unfolding search_pair_def fst_conv snd_conv by linarith
qed

text \<open>A value in the query is shorter than the query, which the name takes part of.\<close>

lemma search_value_shorter:
  assumes "url_get k (parse_search s) = Some v" and "k \<noteq> []"
  shows "length v < length s"
proof -
  let ?q = "if starts_with ''?'' s then tl s else s"
  have "(k, v) \<in> set (parse_search s)" using assms(1) by (auto simp: url_get_def dest: map_of_SomeD)
  then obtain w where w: "w \<in> set (split_on CHR ''&'' ?q)" "w \<noteq> []" "search_pair w = (k, v)"
    by (auto simp: parse_search_def)
  then have "length k + length v \<le> length w" using search_pair_length[of w] by simp
  moreover have "length w \<le> length ?q" using w(1) by (rule split_on_length)
  moreover have "length ?q \<le> length s" by simp
  moreover have "0 < length k" using assms(2) by simp
  ultimately show ?thesis by linarith
qed

definition loc_length :: "location \<Rightarrow> nat" where
  "loc_length loc = length (lo_path loc) + length (lo_search loc)"

lemma parse_to_length: "loc_length (parse_to t) \<le> length t"
proof -
  let ?s = "takeWhile (\<lambda>c. c \<noteq> CHR ''#'') t"
  have "length (takeWhile (\<lambda>c. c \<noteq> CHR ''?'') ?s) + length (dropWhile (\<lambda>c. c \<noteq> CHR ''?'') ?s) = length ?s"
    by (metis length_append takeWhile_dropWhile_id)
  also have "\<dots> \<le> length t" by (rule length_takeWhile_le)
  finally show ?thesis by (simp add: loc_length_def parse_to_def Let_def)
qed

text \<open>What the routes of the application are: the documented matches of the paths that the guards lead to.\<close>

definition app_routes :: "(string \<Rightarrow> app_route) \<Rightarrow> bool" where
  "app_routes route =
     (route ''/login'' = LoginRoute \<and> route ''/setup'' = SetupRoute \<and> route ''/'' = PageRoute \<and>
      route ''/domains'' = PageRoute)"

definition exact_routes :: "string \<Rightarrow> app_route" where
  "exact_routes p =
     (if p = ''/login'' then LoginRoute else if p = ''/setup'' then SetupRoute
      else if p = ''/cache'' \<or> p = ''/optimizer'' then MovedToDomains else PageRoute)"

lemma parse_to_fixed:
  "parse_to ''/'' = \<lparr>lo_path = ''/'', lo_search = []\<rparr>" "parse_to ''/login'' = \<lparr>lo_path = ''/login'', lo_search = []\<rparr>"
  "parse_to ''/setup'' = \<lparr>lo_path = ''/setup'', lo_search = []\<rparr>"
  "parse_to ''/domains'' = \<lparr>lo_path = ''/domains'', lo_search = []\<rparr>"
  by (simp_all add: parse_to_def Let_def)

lemma login_from_parse:
  "parse_to (login_from loc) = \<lparr>lo_path = ''/login'', lo_search = ''?from='' @ encodeURIComponent (lo_path loc @ lo_search loc)\<rparr>"
proof -
  let ?e = "encodeURIComponent (lo_path loc @ lo_search loc)"
  have "takeWhile (\<lambda>c. c \<noteq> CHR ''#'') ?e = ?e" using encoded_chars by (intro takeWhile_eq_all_conv[THEN iffD2]) blast
  then show ?thesis by (simp add: parse_to_def login_from_def Let_def)
qed

lemma from_read_back: "url_get ''from'' (parse_search (''?from='' @ encodeURIComponent x)) = Some x"
proof -
  let ?e = "encodeURIComponent x"
  have "CHR ''&'' \<notin> set (''from='' @ ?e)" using encoded_chars[of "CHR ''&''" x] by auto
  then have "split_on CHR ''&'' (''from='' @ ?e) = [''from='' @ ?e]" by (rule split_on_notin)
  moreover have "form_decode [] = []" by (subst form_decode.simps) simp
  then have "form_decode ''from'' = ''from''" by (simp add: form_decode_plain)
  ultimately show ?thesis
    by (simp add: parse_search_def starts_with_def search_pair_def url_get_def)
qed


lemma settle_stays: "app_redirect route st loc = None \<Longrightarrow> settle route st loc = Some loc"
  by (subst settle.simps) simp

lemma settle_moves: "app_redirect route st loc = Some t \<Longrightarrow> settle route st loc = settle route st (parse_to t)"
  by (subst settle.simps) simp

definition page_settled :: "(string \<Rightarrow> app_route) \<Rightarrow> auth_status \<Rightarrow> location \<Rightarrow> bool" where
  "page_settled route st loc =
     (\<exists>loc'. settle route st loc = Some loc' \<and>
       (case st of
          AuthLoading \<Rightarrow> loc' = loc
        | NeedsSetup \<Rightarrow> route (lo_path loc') = SetupRoute
        | NeedsLogin \<Rightarrow> route (lo_path loc') = LoginRoute
        | Authenticated u \<Rightarrow> route (lo_path loc') = PageRoute))"

lemma page_settledI: "app_redirect route st loc = None \<Longrightarrow>
    (case st of AuthLoading \<Rightarrow> True | NeedsSetup \<Rightarrow> route (lo_path loc) = SetupRoute
      | NeedsLogin \<Rightarrow> route (lo_path loc) = LoginRoute | Authenticated u \<Rightarrow> route (lo_path loc) = PageRoute) \<Longrightarrow>
    page_settled route st loc"
  by (auto simp: page_settled_def settle_stays split: auth_status.splits)

lemma page_settled_move:
  "app_redirect route st loc = Some t \<Longrightarrow> st \<noteq> AuthLoading \<Longrightarrow> page_settled route st (parse_to t) \<Longrightarrow> page_settled route st loc"
  by (auto simp: page_settled_def settle_moves split: auth_status.splits)

lemma page_settled_authenticated:
  assumes "app_routes route"
  shows "page_settled route (Authenticated u) loc"
proof -
  let ?st = "Authenticated u"
  have page: "page_settled route ?st l" if "route (lo_path l) = PageRoute" for l
    using that by (intro page_settledI) (simp_all add: app_redirect_def RequireAuth_def)
  have fixed: "page_settled route ?st (parse_to ''/'')" "page_settled route ?st (parse_to ''/domains'')"
    using assms by (auto intro: page simp: parse_to_fixed app_routes_def)
  show ?thesis
  proof (induction "loc_length loc" arbitrary: loc rule: less_induct)
    case less
    show ?case
    proof (cases "route (lo_path loc)")
      case LoginRoute
      let ?raw = "url_get ''from'' (parse_search (lo_search loc))"
      have r: "app_redirect route ?st loc = Some (safe_from ?raw)"
        using LoginRoute by (simp add: app_redirect_def RequireUnauth_def)
      have "page_settled route ?st (parse_to (safe_from ?raw))"
      proof (cases "safe_from ?raw = ''/''")
        case False
        then obtain v where v: "?raw = Some v" "safe_from ?raw = v"
          by (auto simp: safe_from_def split: option.splits if_splits)
        then have "length v < length (lo_search loc)" by (intro search_value_shorter) auto
        then have "loc_length (parse_to v) < loc_length loc"
          using parse_to_length[of v] by (simp add: loc_length_def)
        then show ?thesis unfolding v(2) by (rule less)
      qed (simp only: fixed)
      with page_settled_move[OF r] show ?thesis by simp
    next
      case SetupRoute
      have "app_redirect route ?st loc = Some ''/''" using SetupRoute by (simp add: app_redirect_def RequireSetup_def)
      from page_settled_move[OF this] fixed(1) show ?thesis by simp
    next
      case MovedToDomains
      have "app_redirect route ?st loc = Some ''/domains''"
        using MovedToDomains by (simp add: app_redirect_def RequireAuth_def)
      from page_settled_move[OF this] fixed(2) show ?thesis by simp
    qed (rule page)
  qed
qed

lemma page_settled_login:
  assumes "app_routes route"
  shows "page_settled route NeedsLogin loc"
proof -
  have there: "page_settled route NeedsLogin l" if "route (lo_path l) = LoginRoute" for l
    using that by (intro page_settledI) (simp_all add: app_redirect_def RequireUnauth_def)
  have r: "route ''/login'' = LoginRoute" using assms by (simp add: app_routes_def)
  show ?thesis
  proof (cases "route (lo_path loc)")
    case LoginRoute
    then show ?thesis by (rule there)
  next
    case SetupRoute
    then have "app_redirect route NeedsLogin loc = Some ''/login''" by (simp add: app_redirect_def RequireSetup_def)
    from page_settled_move[OF this] there[of "parse_to ''/login''"] r show ?thesis by (simp add: parse_to_fixed)
  next
    case MovedToDomains
    then have "app_redirect route NeedsLogin loc = Some (login_from loc)" by (simp add: app_redirect_def RequireAuth_def)
    from page_settled_move[OF this] there[of "parse_to (login_from loc)"] r show ?thesis by (simp add: login_from_parse)
  next
    case PageRoute
    then have "app_redirect route NeedsLogin loc = Some (login_from loc)" by (simp add: app_redirect_def RequireAuth_def)
    from page_settled_move[OF this] there[of "parse_to (login_from loc)"] r show ?thesis by (simp add: login_from_parse)
  qed
qed

lemma page_settled_setup:
  assumes "app_routes route"
  shows "page_settled route NeedsSetup loc"
proof -
  have there: "page_settled route NeedsSetup l" if "route (lo_path l) = SetupRoute" for l
    using that by (intro page_settledI) (simp_all add: app_redirect_def RequireSetup_def)
  show ?thesis
  proof (cases "route (lo_path loc) = SetupRoute")
    case False
    then have "app_redirect route NeedsSetup loc = Some ''/setup''"
      by (cases "route (lo_path loc)") (simp_all add: app_redirect_def RequireUnauth_def RequireAuth_def)
    from page_settled_move[OF this] there[of "parse_to ''/setup''"] assms show ?thesis
      by (simp add: parse_to_fixed app_routes_def)
  qed (rule there)
qed

lemma page_settled_loading: "page_settled route AuthLoading loc"
  by (rule page_settledI)
    (simp_all add: app_redirect_def RequireUnauth_def RequireSetup_def RequireAuth_def split: app_route.splits)

text \<open>An address that a page can have: an absolute path, and a query or none.\<close>

definition page_location :: "location \<Rightarrow> bool" where
  "page_location loc =
     (starts_with ''/'' (lo_path loc) \<and> \<not> starts_with ''//'' (lo_path loc) \<and>
      CHR ''?'' \<notin> set (lo_path loc) \<and> CHR ''#'' \<notin> set (lo_path loc @ lo_search loc) \<and>
      (lo_search loc = [] \<or> starts_with ''?'' (lo_search loc)))"

lemma parse_to_page: "page_location loc \<Longrightarrow> parse_to (lo_path loc @ lo_search loc) = loc"
proof -
  assume p: "page_location loc"
  then have "takeWhile (\<lambda>c. c \<noteq> CHR ''#'') (lo_path loc @ lo_search loc) = lo_path loc @ lo_search loc"
    by (intro takeWhile_eq_all_conv[THEN iffD2]) (auto simp: page_location_def)
  moreover have "takeWhile (\<lambda>c. c \<noteq> CHR ''?'') (lo_path loc @ lo_search loc) = lo_path loc"
    "dropWhile (\<lambda>c. c \<noteq> CHR ''?'') (lo_path loc @ lo_search loc) = lo_search loc"
    using p by (cases "lo_search loc"; auto simp: page_location_def starts_with_def takeWhile_append dropWhile_append)+
  ultimately show ?thesis unfolding parse_to_def Let_def by (simp only: location.surjective[symmetric]) simp
qed

lemma safe_from_page: "page_location loc \<Longrightarrow> safe_from (Some (lo_path loc @ lo_search loc)) = lo_path loc @ lo_search loc"
proof -
  assume "page_location loc"
  then obtain r where r: "lo_path loc = CHR ''/'' # r" "r = [] \<or> hd r \<noteq> CHR ''/''"
    "lo_search loc = [] \<or> hd (lo_search loc) = CHR ''?''"
    by (cases "lo_path loc"; cases "tl (lo_path loc)"; cases "lo_search loc") (auto simp: page_location_def starts_with_def)
  then show ?thesis by (cases r; cases "lo_search loc") (auto simp: safe_from_def starts_with_def)
qed


subsection \<open>Laws of the tabs\<close>

definition browser_ok :: "browser \<Rightarrow> bool" where
  "browser_ok b = (length (br_inbox b) = length (br_tabs b))"

text \<open>A tab that is logged in has a logout under way.\<close>

definition leaving :: "browser \<Rightarrow> bool" where
  "leaving b = (browser_ok b \<and> (\<forall>i < length (br_tabs b).
     (\<exists>u. wt_state (br_tabs b ! i) = Authenticated u) \<longrightarrow> EvLogout \<in> set (br_inbox b ! i)))"

lemma browser_ok_logout: "browser_ok b \<Longrightarrow> browser_ok (tab_logout i r b)"
  by (simp add: browser_ok_def tab_logout_def broadcastAuthEvent_def on_tab_def)

lemma leaving_logout: "browser_ok b \<Longrightarrow> i < length (br_tabs b) \<Longrightarrow> leaving (tab_logout i r b)"
  by (auto simp: leaving_def browser_ok_def tab_logout_def broadcastAuthEvent_def on_tab_def nth_list_update)

lemma on_auth_event_state:
  "wt_state (on_auth_event ev t) = wt_state t \<or> wt_state (on_auth_event ev t) = NeedsLogin"
  "wt_state (on_auth_event EvLogout t) = NeedsLogin"
  by (auto simp: on_auth_event_def leave_session_def split: auth_event.splits)

lemma removed_nth: "k < length q \<Longrightarrow> x \<in> set q \<Longrightarrow> x \<noteq> q ! k \<Longrightarrow> x \<in> set (take k q @ drop (Suc k) q)"
  by (metis Un_iff id_take_nth_drop set_append set_ConsD)

lemma leaving_deliver:
  assumes "leaving b" and "i < length (br_tabs b)" and "k < length (br_inbox b ! i)"
  shows "leaving (tab_deliver i k b)"
proof -
  let ?b = "tab_deliver i k b" and ?ev = "br_inbox b ! i ! k"
  have len: "length (br_inbox b) = length (br_tabs b)" using assms(1) by (simp add: leaving_def browser_ok_def)
  have t: "br_tabs ?b ! j = (if j = i then on_auth_event ?ev (br_tabs b ! i) else br_tabs b ! j)"
    and q: "br_inbox ?b ! j = (if j = i then take k (br_inbox b ! i) @ drop (Suc k) (br_inbox b ! i) else br_inbox b ! j)"
    if "j < length (br_tabs b)" for j
    using that assms(2) len by (simp_all add: tab_deliver_def on_tab_def nth_list_update)
  have "EvLogout \<in> set (br_inbox ?b ! j)" if j: "j < length (br_tabs b)" and u: "wt_state (br_tabs ?b ! j) = Authenticated u" for j u
  proof (cases "j = i")
    case True
    then have u': "wt_state (on_auth_event ?ev (br_tabs b ! i)) = Authenticated u" using u j t[OF j] by simp
    then have "wt_state (br_tabs b ! i) = Authenticated u" "?ev \<noteq> EvLogout"
      using on_auth_event_state(1)[of ?ev "br_tabs b ! i"] on_auth_event_state(2)[of "br_tabs b ! i"] by auto
    then have "EvLogout \<in> set (take k (br_inbox b ! i) @ drop (Suc k) (br_inbox b ! i))"
      using assms by (intro removed_nth) (auto simp: leaving_def)
    then show ?thesis using q[OF j] True by simp
  next
    case False
    then show ?thesis using u t[OF j] q[OF j] assms(1) j by (auto simp: leaving_def)
  qed
  then show ?thesis using len by (auto simp: leaving_def browser_ok_def tab_deliver_def on_tab_def)
qed

lemma leaving_steps: "deliver_step\<^sup>*\<^sup>* b b' \<Longrightarrow> leaving b \<Longrightarrow> leaving b'"
  by (induction rule: rtranclp_induct) (auto elim!: deliver_stepE intro: leaving_deliver)

lemma quiet_none: "leaving b \<Longrightarrow> quiet b \<Longrightarrow> i < length (br_tabs b) \<Longrightarrow> wt_state (br_tabs b ! i) \<noteq> Authenticated u"
  by (auto simp: leaving_def quiet_def browser_ok_def list_all_length)

text \<open>The messages under way: each delivery takes one, so they come to an end.\<close>

definition under_way :: "browser \<Rightarrow> nat" where
  "under_way b = sum_list (map length (br_inbox b))"

lemma under_way_deliver:
  assumes "browser_ok b" and "i < length (br_tabs b)" and "k < length (br_inbox b ! i)"
  shows "Suc (under_way (tab_deliver i k b)) = under_way b"
proof -
  let ?q = "map length (br_inbox b)"
  have i: "i < length ?q" using assms(1,2) by (simp add: browser_ok_def)
  have "length (take k (br_inbox b ! i) @ drop (Suc k) (br_inbox b ! i)) = length (br_inbox b ! i) - 1"
    using assms(3) by simp
  then have "under_way (tab_deliver i k b) = sum_list (?q[i := ?q ! i - 1])"
    using i by (simp add: under_way_def tab_deliver_def on_tab_def map_update)
  moreover have "sum_list ?q = sum_list (take i ?q) + ?q ! i + sum_list (drop (Suc i) ?q)"
    using id_take_nth_drop[OF i] by (metis sum_list.Cons sum_list_append add.assoc)
  moreover have "sum_list (?q[i := ?q ! i - 1]) = sum_list (take i ?q) + (?q ! i - 1) + sum_list (drop (Suc i) ?q)"
    using i by (simp add: upd_conv_take_nth_drop)
  moreover have "0 < ?q ! i" using assms(3) i by (cases "br_inbox b ! i") auto
  ultimately show ?thesis by (simp add: under_way_def)
qed

lemma browser_ok_step: "deliver_step b b' \<Longrightarrow> browser_ok b \<Longrightarrow> browser_ok b'"
  by (auto elim!: deliver_stepE simp: browser_ok_def tab_deliver_def on_tab_def)

lemma deliver_reaches_quiet: "browser_ok b \<Longrightarrow> \<exists>b'. deliver_step\<^sup>*\<^sup>* b b' \<and> quiet b'"
proof (induction "under_way b" arbitrary: b rule: less_induct)
  case less
  show ?case
  proof (cases "quiet b")
    case False
    then obtain i where i: "i < length (br_inbox b)" "br_inbox b ! i \<noteq> []" by (auto simp: quiet_def list_all_length)
    then have s: "deliver_step b (tab_deliver i 0 b)" and u: "Suc (under_way (tab_deliver i 0 b)) = under_way b"
      using less.prems by (auto intro: deliver_step.intros under_way_deliver simp: browser_ok_def)
    from less.hyps[of "tab_deliver i 0 b"] u browser_ok_step[OF s less.prems]
    obtain b' where "deliver_step\<^sup>*\<^sup>* (tab_deliver i 0 b) b'" "quiet b'" by auto
    with s show ?thesis by (meson converse_rtranclp_into_rtranclp)
  qed auto
qed


subsection \<open>The client as a whole\<close>

text \<open>
  C31. The redirects of the guards come to an end at every address and in every state of the session, even if
  the address holds the way back to a login that holds a way back to a login: the page then shown is the
  login when there is no session, the setup when there is no account, and a page of the application for a
  user who is logged in.
\<close>

theorem redirects_end:
  assumes "app_routes route"
  shows "page_settled route st loc"
  using assms page_settled_authenticated page_settled_login page_settled_setup page_settled_loading by (cases st) auto

lemma redirects_end_witness:
  "page_settled exact_routes (Authenticated 1) \<lparr>lo_path = ''/login'', lo_search = ''?from=%2Flogin%3Ffrom%3D%252Fusers''\<rparr>"
  by (rule redirects_end) (simp add: app_routes_def exact_routes_def)

text \<open>
  C32. A user without a session who asks for a page is led to the login and from there, once it has succeeded,
  to the very page with its query, whichever of the form and the guard acts first; the same holds for the
  address that a refused request leads to.
\<close>

theorem login_returns:
  assumes "app_routes route" and "route (lo_path loc) = PageRoute" and "page_location loc"
  shows "\<exists>t. app_redirect route NeedsLogin loc = Some t \<and>
     app_redirect route NeedsLogin (parse_to t) = None \<and> after_login (parse_to t) = loc \<and>
     settle route (Authenticated u) (parse_to t) = Some loc \<and>
     on_unauthorized (Some 401) ''/users'' loc = Some t"
proof (intro exI conjI)
  let ?t = "login_from loc"
  have p: "parse_to ?t = \<lparr>lo_path = ''/login'', lo_search = ''?from='' @ encodeURIComponent (lo_path loc @ lo_search loc)\<rparr>"
    by (rule login_from_parse)
  have f: "url_get ''from'' (parse_search (lo_search (parse_to ?t))) = Some (lo_path loc @ lo_search loc)"
    by (simp add: p from_read_back del: append.simps)
  have r: "route ''/login'' = LoginRoute" using assms(1) by (simp add: app_routes_def)
  show "app_redirect route NeedsLogin loc = Some ?t" using assms(2) by (simp add: app_redirect_def RequireAuth_def)
  show "app_redirect route NeedsLogin (parse_to ?t) = None" using r by (simp add: app_redirect_def RequireUnauth_def p)
  show "after_login (parse_to ?t) = loc"
    by (simp add: after_login_def f or_else_def safe_from_page[OF assms(3)] parse_to_page[OF assms(3)])
  have "app_redirect route (Authenticated u) (parse_to ?t) = Some (lo_path loc @ lo_search loc)"
    using r f by (simp add: app_redirect_def RequireUnauth_def p safe_from_page[OF assms(3)])
  then have "settle route (Authenticated u) (parse_to ?t) = settle route (Authenticated u) loc"
    using settle_moves parse_to_page[OF assms(3)] by metis
  also have "\<dots> = Some loc" using assms(2) by (intro settle_stays) (simp add: app_redirect_def RequireAuth_def)
  finally show "settle route (Authenticated u) (parse_to ?t) = Some loc" .
  have "\<not> js_includes ''/auth/'' ''/users''" by code_simp
  then show "on_unauthorized (Some 401) ''/users'' loc = Some ?t" by (simp add: on_unauthorized_def)
qed

lemma login_returns_witness:
  "after_login (parse_to (login_from \<lparr>lo_path = ''/users'', lo_search = ''?q=a%20b&page=2''\<rparr>)) =
     \<lparr>lo_path = ''/users'', lo_search = ''?q=a%20b&page=2''\<rparr>"
proof -
  let ?l = "\<lparr>lo_path = ''/users'', lo_search = ''?q=a%20b&page=2''\<rparr>"
  have "app_routes exact_routes" "exact_routes (lo_path ?l) = PageRoute" "page_location ?l"
    by (simp_all add: app_routes_def exact_routes_def page_location_def starts_with_def)
  from login_returns[OF this] show ?thesis by (auto simp: app_redirect_def exact_routes_def RequireAuth_def)
qed

text \<open>
  Every host that a page puts into the path of a request comes back out of the path on the server.
\<close>

theorem host_in_path_roundtrip: "decodeURIComponent (encodeURIComponent host) = Some host"
proof (induction host)
  case Nil
  then show ?case by (simp add: encodeURIComponent_def) (subst decodeURIComponent.simps, simp)
qed (simp add: decode_enc_char)

text \<open>
  C33. After a logout, whether the server heard of it or not, the messages to the other tabs can always all be
  delivered, in some order; and in whatever order they have been, no tab of the browser is logged in then.
\<close>

theorem logout_reaches_tabs:
  assumes "browser_ok b" and "i < length (br_tabs b)"
  shows "(\<exists>b'. deliver_step\<^sup>*\<^sup>* (tab_logout i reached b) b' \<and> quiet b') \<and>
    (\<forall>b' j u. deliver_step\<^sup>*\<^sup>* (tab_logout i reached b) b' \<longrightarrow> quiet b' \<longrightarrow> j < length (br_tabs b') \<longrightarrow>
       wt_state (br_tabs b' ! j) \<noteq> Authenticated u)"
  using deliver_reaches_quiet[OF browser_ok_logout[OF assms(1)]] leaving_steps[OF _ leaving_logout[OF assms]]
    quiet_none by blast

definition two_tabs :: browser where
  "two_tabs = \<lparr>br_session = Some 1, br_tabs = replicate 2 \<lparr>wt_state = Authenticated 1,
     wt_loc = \<lparr>lo_path = ''/users'', lo_search = []\<rparr>, wt_stale_users = False\<rparr>, br_inbox = [[], []]\<rparr>"

lemma logout_reaches_tabs_witness: "\<exists>b'. deliver_step\<^sup>*\<^sup>* (tab_logout 0 True two_tabs) b' \<and> quiet b'"
  using logout_reaches_tabs[of two_tabs 0] by (simp add: browser_ok_def two_tabs_def)

text \<open>
  A message that is still under way ends a session that began after it was sent: another tab that logs in
  after the first of the two copies of a logout is thrown back to the login by the second, although the
  session of the browser is the new one.
\<close>

theorem second_copy_ends_new_session:
  assumes "browser_ok b" and "i < length (br_tabs b)" and "j < length (br_tabs b)" and "i \<noteq> j"
    and "br_inbox b ! j = []"
  shows "let b' = tab_deliver j 0 (tab_login j u (tab_deliver j 0 (tab_logout i True b)))
    in br_inbox b' ! j = [] \<and> br_session b' = Some u \<and> wt_state (br_tabs b' ! j) = NeedsLogin"
  using assms on_auth_event_state(2)
  by (simp add: Let_def tab_deliver_def tab_login_def tab_logout_def broadcastAuthEvent_def on_tab_def
      browser_ok_def nth_list_update)

lemma second_copy_ends_new_session_witness:
  "wt_state (br_tabs (tab_deliver 1 0 (tab_login 1 2 (tab_deliver 1 0 (tab_logout 0 True two_tabs)))) ! 1) = NeedsLogin"
  using second_copy_ends_new_session[of two_tabs 0 1 2] by (simp add: Let_def browser_ok_def two_tabs_def)

text \<open>The minutes shown before another attempt are at least one and cover the seconds the server asks for.\<close>

lemma retry_minutes_cover:
  assumes "number_of_string r = Fin sec" and "0 < sec" and "r \<noteq> []"
  shows "\<exists>m. extractRetryMinutes (Some r) message = Some m \<and> 1 \<le> m \<and> sec \<le> 60 * of_int m"
proof -
  have "sec / 60 \<le> of_int (max 1 \<lceil>sec / 60\<rceil>)" using le_of_int_ceiling[of "sec / 60"] by linarith
  then have "sec \<le> 60 * of_int (max 1 \<lceil>sec / 60\<rceil>)" by simp
  with assms show ?thesis by (simp add: extractRetryMinutes_def)
qed

lemma query_retry_once: "query_retry n status \<Longrightarrow> n = 0"
  by (auto simp: query_retry_def split: option.splits if_splits)

end
