(* ===== verification/Edit_Guard.thy ===== *)
theory Edit_Guard
  imports Auth_Client Domain_Write
begin

section \<open>The web client: the settings of a domain\<close>

text \<open>
  \<open>hooks/useUnsavedChangesPrompt.ts\<close> and \<open>DomainSettingsTab.tsx\<close>: the guard of the history while a form
  has unsaved changes, the form of the origin, and the two forms for numbers. After each event the page is
  rendered, so the refs of the hook hold what the state holds.
\<close>

subsection \<open>The guard of the history\<close>

datatype nav_kind = NavPush | NavReplace | NavPop

record nav_request =
  nr_kind :: nav_kind
  nr_url :: string

text \<open>The address of the browser, the address at the time the guard was set up, the request held back.\<close>

record guard =
  gd_url :: string
  gd_guardedPath :: string
  gd_pending :: "nav_request option"

definition guard_mount :: "string \<Rightarrow> guard" where
  "guard_mount url = \<lparr>gd_url = url, gd_guardedPath = url, gd_pending = None\<rparr>"

text \<open>The patched \<open>pushState\<close> and \<open>replaceState\<close>.\<close>

definition patched :: "nav_kind \<Rightarrow> bool \<Rightarrow> string \<Rightarrow> guard \<Rightarrow> guard" where
  "patched k dirty url g =
     (if \<not> dirty then g\<lparr>gd_url := url\<rparr>
      else if gd_pending g \<noteq> None then g
      else g\<lparr>gd_pending := Some \<lparr>nr_kind = k, nr_url = url\<rparr>\<rparr>)"

text \<open>Back and forward: the browser has moved already.\<close>

definition handlePopState :: "bool \<Rightarrow> string \<Rightarrow> guard \<Rightarrow> guard" where
  "handlePopState dirty url g =
     (let g1 = g\<lparr>gd_url := url\<rparr>
      in if \<not> dirty then g1
         else if gd_pending g \<noteq> None then g1
         else g1\<lparr>gd_url := gd_guardedPath g, gd_pending := Some \<lparr>nr_kind = NavPop, nr_url = url\<rparr>\<rparr>)"

definition handleBeforeUnload :: "bool \<Rightarrow> bool" where
  "handleBeforeUnload dirty = dirty"

definition confirmNavigation :: "guard \<Rightarrow> guard" where
  "confirmNavigation g =
     (case gd_pending g of
        None \<Rightarrow> g
      | Some r \<Rightarrow> g\<lparr>gd_pending := None, gd_url := nr_url r\<rparr>)"

definition cancelNavigation :: "guard \<Rightarrow> guard" where
  "cancelNavigation g = g\<lparr>gd_pending := None\<rparr>"

definition navigated :: "nav_kind \<Rightarrow> bool \<Rightarrow> string \<Rightarrow> guard \<Rightarrow> guard" where
  "navigated k dirty url g = (if k = NavPop then handlePopState dirty url g else patched k dirty url g)"

subsection \<open>The form of the origin\<close>

record origin_form =
  of_domain :: domain
  of_editing :: bool
  of_origin :: string
  of_description :: string
  of_discard :: bool
  of_saving :: bool
  of_guard :: guard

definition origin_form_mount :: "domain \<Rightarrow> string \<Rightarrow> origin_form" where
  "origin_form_mount d url =
     \<lparr>of_domain = d, of_editing = False, of_origin = d_origin d, of_description = d_description d,
      of_discard = False, of_saving = False, of_guard = guard_mount url\<rparr>"

definition isDirty :: "origin_form \<Rightarrow> bool" where
  "isDirty f =
     (of_editing f \<and> (of_origin f \<noteq> d_origin (of_domain f) \<or> of_description f \<noteq> d_description (of_domain f)))"

definition handleCancel :: "origin_form \<Rightarrow> origin_form" where
  "handleCancel f = f\<lparr>of_origin := d_origin (of_domain f), of_description := d_description (of_domain f),
     of_editing := False\<rparr>"

definition handleEscapeKey :: "origin_form \<Rightarrow> origin_form" where
  "handleEscapeKey f = (if isDirty f then f\<lparr>of_discard := True\<rparr> else handleCancel f)"

definition confirmDiscard :: "origin_form \<Rightarrow> origin_form" where
  "confirmDiscard f = handleCancel (f\<lparr>of_discard := False\<rparr>)"

definition cancelDiscard :: "origin_form \<Rightarrow> origin_form" where
  "cancelDiscard f = f\<lparr>of_discard := False\<rparr>"

text \<open>\<open>handleSave\<close>: the body that is sent, if one is.\<close>

definition handleSave :: "origin_form \<Rightarrow> put_body option" where
  "handleSave f =
     (let v = js_trim (of_origin f); d = js_trim (of_description f)
      in if \<not> isDirty f then None
         else if v = [] then None
         else if \<not> starts_with ''http://'' v \<and> \<not> starts_with ''https://'' v then None
         else Some \<lparr>pb_origin = Str v, pb_enabled = Undef, pb_description = Str d,
           pb_stale_if_error_secs = Undef, pb_coalesce_capacity = Undef\<rparr>)"

definition save_succeeded :: "domain \<Rightarrow> origin_form \<Rightarrow> origin_form" where
  "save_succeeded d f = f\<lparr>of_origin := d_origin d, of_description := d_description d, of_editing := False,
     of_saving := False\<rparr>"

text \<open>The dialog that both the guard and the escape key open.\<close>

definition dialog_open :: "origin_form \<Rightarrow> bool" where
  "dialog_open f = (gd_pending (of_guard f) \<noteq> None \<or> of_discard f)"

definition leave_clicked :: "origin_form \<Rightarrow> origin_form" where
  "leave_clicked f = (if of_discard f then confirmDiscard f else f\<lparr>of_guard := confirmNavigation (of_guard f)\<rparr>)"

definition stay_clicked :: "origin_form \<Rightarrow> origin_form" where
  "stay_clicked f = (if of_discard f then cancelDiscard f else f\<lparr>of_guard := cancelNavigation (of_guard f)\<rparr>)"

datatype origin_event =
    EditClicked
  | OriginTyped string
  | DescriptionTyped string
  | CancelClicked
  | EscapePressed bool
  | LeaveClicked
  | StayClicked
  | SaveClicked
  | SaveSucceeded domain
  | SaveFailed
  | Refetched domain
  | Navigated nav_kind string

fun origin_step :: "origin_event \<Rightarrow> origin_form \<Rightarrow> origin_form" where
  "origin_step EditClicked f = (if of_editing f then f else f\<lparr>of_editing := True\<rparr>)"
| "origin_step (OriginTyped v) f = (if of_editing f then f\<lparr>of_origin := v\<rparr> else f)"
| "origin_step (DescriptionTyped v) f = (if of_editing f then f\<lparr>of_description := v\<rparr> else f)"
| "origin_step CancelClicked f = (if of_editing f \<and> \<not> of_saving f then handleCancel f else f)"
| "origin_step (EscapePressed composing) f = (if of_editing f \<and> \<not> composing then handleEscapeKey f else f)"
| "origin_step LeaveClicked f = (if dialog_open f then leave_clicked f else f)"
| "origin_step StayClicked f = (if dialog_open f then stay_clicked f else f)"
| "origin_step SaveClicked f =
     (if of_editing f \<and> \<not> of_saving f \<and> handleSave f \<noteq> None then f\<lparr>of_saving := True\<rparr> else f)"
| "origin_step (SaveSucceeded d) f = (if of_saving f then save_succeeded d f else f)"
| "origin_step SaveFailed f = f\<lparr>of_saving := False\<rparr>"
| "origin_step (Refetched d) f = f\<lparr>of_domain := d\<rparr>"
| "origin_step (Navigated k url) f = f\<lparr>of_guard := navigated k (isDirty f) url (of_guard f)\<rparr>"

definition origin_run :: "origin_event list \<Rightarrow> origin_form \<Rightarrow> origin_form" where
  "origin_run evs f = foldl (\<lambda>f ev. origin_step ev f) f evs"

subsection \<open>The two numbers\<close>

text \<open>The number in the field, which is applied by a click, and the setting of the domain as it is shown.\<close>

definition stale_clamp :: "rat \<Rightarrow> int" where
  "stale_clamp x = max 0 (min 604800 \<lfloor>x\<rfloor>)"

definition capacity_clamp :: "rat \<Rightarrow> int" where
  "capacity_clamp x = max 1 (min 65536 \<lfloor>x\<rfloor>)"

definition empty_put :: put_body where
  "empty_put = \<lparr>pb_origin = Undef, pb_enabled = Undef, pb_description = Undef, pb_stale_if_error_secs = Undef,
     pb_coalesce_capacity = Undef\<rparr>"

definition stale_apply :: "rat \<Rightarrow> rat \<times> put_body" where
  "stale_apply x = (of_int (stale_clamp x), empty_put\<lparr>pb_stale_if_error_secs := Num (Fin (of_int (stale_clamp x)))\<rparr>)"

definition stale_clear :: put_body where
  "stale_clear = empty_put\<lparr>pb_stale_if_error_secs := Null\<rparr>"

definition capacity_apply :: "rat \<Rightarrow> rat \<times> put_body" where
  "capacity_apply x = (of_int (capacity_clamp x), empty_put\<lparr>pb_coalesce_capacity := Num (Fin (of_int (capacity_clamp x)))\<rparr>)"

definition capacity_clear :: put_body where
  "capacity_clear = empty_put\<lparr>pb_coalesce_capacity := Null\<rparr>"

datatype policy = GlobalFallback | Explicit rat | Disabled

definition stale_policy :: "int option \<Rightarrow> rat \<Rightarrow> policy" where
  "stale_policy stored field_value =
     (case stored of
        None \<Rightarrow> GlobalFallback
      | Some n \<Rightarrow> if 0 < n then Explicit field_value else Disabled)"

definition capacity_policy :: "int option \<Rightarrow> rat \<Rightarrow> policy" where
  "capacity_policy stored field_value = (case stored of None \<Rightarrow> GlobalFallback | Some n \<Rightarrow> Explicit field_value)"

definition stale_field :: "int option \<Rightarrow> rat" where
  "stale_field stored = of_int (or_else stored 3600)"

definition capacity_field :: "int option \<Rightarrow> rat" where
  "capacity_field stored = of_int (or_else stored 1024)"


subsection \<open>Laws\<close>

text \<open>The events that end an edit, and those that change its text.\<close>

definition ends_edit :: "origin_event \<Rightarrow> bool" where
  "ends_edit ev = (case ev of CancelClicked \<Rightarrow> True | LeaveClicked \<Rightarrow> True | SaveSucceeded d \<Rightarrow> True | _ \<Rightarrow> False)"

definition changes_text :: "origin_event \<Rightarrow> bool" where
  "changes_text ev =
     (case ev of OriginTyped v \<Rightarrow> True | DescriptionTyped v \<Rightarrow> True | Refetched d \<Rightarrow> True | _ \<Rightarrow> False)"

lemma origin_run_simps [simp]:
  "origin_run [] f = f" "origin_run (ev # evs) f = origin_run evs (origin_step ev f)"
  by (simp_all add: origin_run_def)

lemma edit_kept:
  assumes "isDirty f" and "\<not> ends_edit ev" and "\<not> changes_text ev"
  shows "isDirty (origin_step ev f) \<and> of_editing (origin_step ev f) \<and> of_origin (origin_step ev f) = of_origin f \<and>
    of_description (origin_step ev f) = of_description f"
proof -
  have "isDirty (f\<lparr>of_guard := g\<rparr>) = isDirty f" "isDirty (f\<lparr>of_discard := b\<rparr>) = isDirty f"
    "isDirty (f\<lparr>of_saving := b\<rparr>) = isDirty f" for g b by (simp_all add: isDirty_def)
  moreover have "of_editing f" using assms(1) by (simp add: isDirty_def)
  ultimately show ?thesis
    using assms by (cases ev) (auto simp: ends_edit_def changes_text_def handleEscapeKey_def stay_clicked_def cancelDiscard_def)
qed

lemma edits_kept:
  "isDirty f \<Longrightarrow> \<forall>ev \<in> set evs. \<not> ends_edit ev \<and> \<not> changes_text ev \<Longrightarrow>
     isDirty (origin_run evs f) \<and> of_editing (origin_run evs f) \<and>
     of_origin (origin_run evs f) = of_origin f \<and> of_description (origin_run evs f) = of_description f"
proof (induction evs arbitrary: f)
  case (Cons ev evs)
  have k: "isDirty (origin_step ev f)" "of_origin (origin_step ev f) = of_origin f"
    "of_description (origin_step ev f) = of_description f"
    using edit_kept[OF Cons.prems(1)] Cons.prems(2) by auto
  then show ?case using Cons.IH[OF k(1)] Cons.prems(2) by simp
qed (simp add: isDirty_def)

text \<open>No step back or forward comes while a request is held back.\<close>

fun pops_apart :: "origin_event list \<Rightarrow> origin_form \<Rightarrow> bool" where
  "pops_apart [] f = True"
| "pops_apart (ev # evs) f =
     ((case ev of Navigated k url \<Rightarrow> k = NavPop \<longrightarrow> gd_pending (of_guard f) = None | _ \<Rightarrow> True) \<and>
      pops_apart evs (origin_step ev f))"

lemma guard_kept:
  assumes "isDirty f" and "gd_url (of_guard f) = gd_guardedPath (of_guard f)"
    and "\<not> ends_edit ev" and "case ev of Navigated k url \<Rightarrow> k = NavPop \<longrightarrow> gd_pending (of_guard f) = None | _ \<Rightarrow> True"
  shows "gd_url (of_guard (origin_step ev f)) = gd_url (of_guard f) \<and>
    gd_guardedPath (of_guard (origin_step ev f)) = gd_guardedPath (of_guard f)"
  using assms
  by (cases ev) (auto simp: ends_edit_def handleEscapeKey_def stay_clicked_def cancelDiscard_def cancelNavigation_def
      navigated_def handlePopState_def patched_def handleCancel_def Let_def)

lemma guard_holds_run:
  "isDirty f \<Longrightarrow> gd_url (of_guard f) = gd_guardedPath (of_guard f) \<Longrightarrow>
     \<forall>ev \<in> set evs. \<not> ends_edit ev \<and> \<not> changes_text ev \<Longrightarrow> pops_apart evs f \<Longrightarrow>
     gd_url (of_guard (origin_run evs f)) = gd_url (of_guard f)"
proof (induction evs arbitrary: f)
  case (Cons ev evs)
  have k: "isDirty (origin_step ev f)" using edit_kept[OF Cons.prems(1)] Cons.prems(3) by auto
  have g: "gd_url (of_guard (origin_step ev f)) = gd_url (of_guard f)"
    "gd_guardedPath (of_guard (origin_step ev f)) = gd_guardedPath (of_guard f)"
    using guard_kept[OF Cons.prems(1,2), of ev] Cons.prems(3,4) by auto
  then show ?case using Cons.IH[OF k] Cons.prems by simp
qed simp

text \<open>A second step back while the dialog is open moves the browser away, and the request is lost.\<close>

lemma second_pop_escapes:
  assumes "gd_pending g = None"
  shows "gd_url (handlePopState True b (handlePopState True a g)) = b"
    and "gd_url (cancelNavigation (handlePopState True b (handlePopState True a g))) = b"
  by (simp_all add: handlePopState_def cancelNavigation_def Let_def assms)

text \<open>Opening the form does not read the domain again: an older value is offered, as an unsaved change.\<close>

lemma edit_shows_old_value:
  fixes url :: string
  assumes "d_origin d' \<noteq> d_origin d"
  defines "f \<equiv> origin_run [Refetched d', EditClicked] (origin_form_mount d url)"
  shows "of_origin f = d_origin d" and "isDirty f"
  using assms(1) by (simp_all add: f_def origin_form_mount_def isDirty_def)

lemma clamp_ranges: "0 \<le> stale_clamp x" "stale_clamp x \<le> 604800" "1 \<le> capacity_clamp x" "capacity_clamp x \<le> 65536"
  by (simp_all add: stale_clamp_def capacity_clamp_def)

lemma clamp_id:
  "0 \<le> n \<Longrightarrow> n \<le> 604800 \<Longrightarrow> stale_clamp (of_int n) = n" "1 \<le> n \<Longrightarrow> n \<le> 65536 \<Longrightarrow> capacity_clamp (of_int n) = n"
  by (simp_all add: stale_clamp_def capacity_clamp_def)

lemma empty_put_fields [simp]:
  "pb_origin empty_put = Undef" "pb_enabled empty_put = Undef" "pb_description empty_put = Undef"
  "pb_stale_if_error_secs empty_put = Undef" "pb_coalesce_capacity empty_put = Undef"
  by (simp_all add: empty_put_def)

lemma put_check_numbers:
  "put_check w (empty_put\<lparr>pb_stale_if_error_secs := v\<rparr>) =
     (case nullable_int 0 604800 v of
        None \<Rightarrow> Inl (Reject 400 ''invalid_input'')
      | Some stale \<Rightarrow> Inr (empty_patch\<lparr>p_stale_if_error_secs := stale\<rparr>, False))"
  "put_check w (empty_put\<lparr>pb_coalesce_capacity := v\<rparr>) =
     (case nullable_int 1 65536 v of
        None \<Rightarrow> Inl (Reject 400 ''invalid_input'')
      | Some cap \<Rightarrow> Inr (empty_patch\<lparr>p_coalesce_capacity := cap\<rparr>, False))"
  by (simp_all add: put_check_def int_in_def nullable_int_def empty_patch_def Let_def split: option.split)


subsection \<open>The settings as a whole\<close>


definition sample_domain :: domain where
  "sample_domain = \<lparr>d_host = ''a.kr'', d_origin = ''http://o.kr'', d_enabled = 1, d_description = [], d_created_at = 0,
     d_updated_at = 0, d_stale_if_error_secs = None, d_coalesce_capacity = None\<rparr>"


text \<open>
  Whatever number is in the fields for stale answers and for the capacity, a click on the button sends a
  body that \<open>PUT /api/domains/:host\<close> accepts and that sets just this value; the field then shows it, a
  value within the range of the server is sent unchanged, and the buttons that clear send \<open>null\<close>.
\<close>

theorem settings_numbers_accepted:
  "put_check w (snd (stale_apply x)) = Inr (empty_patch\<lparr>p_stale_if_error_secs := Some (Some (stale_clamp x))\<rparr>, False) \<and>
   put_check w (snd (capacity_apply x)) = Inr (empty_patch\<lparr>p_coalesce_capacity := Some (Some (capacity_clamp x))\<rparr>, False) \<and>
   put_check w stale_clear = Inr (empty_patch\<lparr>p_stale_if_error_secs := Some None\<rparr>, False) \<and>
   put_check w capacity_clear = Inr (empty_patch\<lparr>p_coalesce_capacity := Some None\<rparr>, False) \<and>
   fst (stale_apply x) = of_int (stale_clamp x) \<and> fst (capacity_apply x) = of_int (capacity_clamp x) \<and>
   (x \<in> \<int> \<and> 0 \<le> x \<and> x \<le> 604800 \<longrightarrow> of_int (stale_clamp x) = x) \<and>
   (x \<in> \<int> \<and> 1 \<le> x \<and> x \<le> 65536 \<longrightarrow> of_int (capacity_clamp x) = x)"
proof (intro conjI impI)
  assume "x \<in> \<int> \<and> 0 \<le> x \<and> x \<le> 604800"
  then show "of_int (stale_clamp x) = x" by (elim conjE Ints_cases) (simp add: stale_clamp_def)
next
  assume "x \<in> \<int> \<and> 1 \<le> x \<and> x \<le> 65536"
  then show "of_int (capacity_clamp x) = x" by (elim conjE Ints_cases) (simp add: capacity_clamp_def)
qed (simp_all add: stale_apply_def capacity_apply_def stale_clear_def capacity_clear_def put_check_numbers nullable_int_def
    int_in_def clamp_ranges)

lemma settings_numbers_accepted_witness: "of_int (stale_clamp 60) = (60 :: rat)"
  using settings_numbers_accepted[of undefined 60] by simp

text \<open>The policy that is shown follows what is typed, before and without being applied.\<close>

lemma policy_shows_typed: "0 < n \<Longrightarrow> stale_policy (Some n) x = Explicit x" "capacity_policy (Some n) x = Explicit x"
  by (simp_all add: stale_policy_def capacity_policy_def)

end
