(* ===== verification/Lock_Progress.thy ===== *)
theory Lock_Progress
  imports Domain_Concurrency
begin

section \<open>The host lock: progress\<close>

text \<open>
  \<open>withHostLock\<close> of \<open>routes/domains.ts\<close> once no further call comes: every step brings one call nearer to its
  end, no order of the steps can get stuck before all calls are through, and then the map is empty.
\<close>

text \<open>The steps of calls that are there already, and what is left for each of them to do.\<close>

definition advances :: "lock_state \<Rightarrow> lock_state \<Rightarrow> bool" where
  "advances s s' = (lock_step s s' \<and> lk_next s' = lk_next s)"

fun phase_rank :: "ticket_phase \<Rightarrow> nat" where
  "phase_rank Waiting = 3"
| "phase_rank Running = 2"
| "phase_rank Settled = 1"
| "phase_rank Gone = 0"

definition lock_work :: "lock_state \<Rightarrow> nat" where
  "lock_work s = (\<Sum>i < lk_next s. phase_rank (lk_phase s i))"

lemma sum_update:
  fixes f :: "nat \<Rightarrow> nat"
  assumes "i < n"
  shows "(\<Sum>k < n. (f(i := v)) k) + f i = (\<Sum>k < n. f k) + v"
proof -
  have i: "i \<in> {..<n}" using assms by simp
  have "(\<Sum>k < n. (f(i := v)) k) = (f(i := v)) i + (\<Sum>k \<in> {..<n} - {i}. (f(i := v)) k)"
    by (rule sum.remove[OF finite_lessThan i])
  also have "(\<Sum>k \<in> {..<n} - {i}. (f(i := v)) k) = (\<Sum>k \<in> {..<n} - {i}. f k)"
    by (rule sum.cong) auto
  finally have "(\<Sum>k < n. (f(i := v)) k) = v + (\<Sum>k \<in> {..<n} - {i}. f k)" by simp
  moreover have "(\<Sum>k < n. f k) = f i + (\<Sum>k \<in> {..<n} - {i}. f k)"
    by (rule sum.remove[OF finite_lessThan i])
  ultimately show ?thesis by simp
qed

lemma work_phase:
  assumes "i < lk_next s" and "lk_next s' = lk_next s" and "lk_phase s' = (lk_phase s)(i := p)"
    and "phase_rank (lk_phase s i) = Suc (phase_rank p)"
  shows "Suc (lock_work s') = lock_work s"
proof -
  let ?f = "\<lambda>k. phase_rank (lk_phase s k)"
  have "lock_work s' = (\<Sum>k < lk_next s. (?f(i := phase_rank p)) k)"
    unfolding lock_work_def assms(2,3) by (rule sum.cong) auto
  then show ?thesis
    using sum_update[OF assms(1), of ?f "phase_rank p"] assms(4) by (simp only: lock_work_def)
qed

lemma set_phase_fields [simp]:
  "lk_next (set_phase i p s) = lk_next s" "lk_phase (set_phase i p s) = (lk_phase s)(i := p)"
  by (simp_all add: set_phase_def)

lemma lock_cleanup_fields [simp]:
  "lk_next (lock_cleanup i s) = lk_next s" "lk_phase (lock_cleanup i s) = (lk_phase s)(i := Gone)"
  by (simp_all add: lock_cleanup_def Let_def)

lemma advances_work: "advances s s' \<Longrightarrow> Suc (lock_work s') = lock_work s"
proof (unfold advances_def, elim conjE lock_stepE, goal_cases)
  case (1 h)
  then show ?case by (simp add: lock_enter_def Let_def)
next
  case (2 i)
  then show ?case by (intro work_phase[of i _ _ Running]) (auto simp: may_start_def)
next
  case (3 i)
  then show ?case by (intro work_phase[of i _ _ Settled]) simp_all
next
  case (4 i)
  then show ?case by (intro work_phase[of i _ _ Gone]) simp_all
qed

lemma advances_n: "(advances ^^ n) s s' \<Longrightarrow> n + lock_work s' = lock_work s"
proof (induction n arbitrary: s')
  case (Suc n)
  then obtain u where "(advances ^^ n) s u" "advances u s'" by auto
  with Suc.IH advances_work show ?case by fastforce
qed simp

text \<open>The first call that is not through can always take its next step.\<close>

lemma stuck_all_gone:
  assumes "lock_inv s" and "\<nexists>s'. advances s s'" and "i < lk_next s"
  shows "lk_phase s i = Gone"
  using assms(3)
proof (induction i rule: less_induct)
  case (less i)
  show ?case
  proof (cases "lk_phase s i")
    case Waiting
    have "settled s j" if "lk_prev s i = Some j" for j
    proof -
      have "before s j i" by (rule lock_invD(4)[OF assms(1) less.prems that])
      then show ?thesis using less.IH[of j] less.prems by (simp add: before_def settled_def)
    qed
    then have "may_start i s" using Waiting less.prems by (simp add: may_start_def split: option.splits)
    then have "advances s (set_phase i Running s)" by (simp add: advances_def lock_step.Start)
    with assms(2) show ?thesis by blast
  next
    case Running
    then have "advances s (set_phase i Settled s)" using less.prems by (simp add: advances_def lock_step.Settle)
    with assms(2) show ?thesis by blast
  next
    case Settled
    then have "advances s (lock_cleanup i s)" using less.prems by (simp add: advances_def lock_step.Cleanup)
    with assms(2) show ?thesis by blast
  qed
qed

lemma stuck_map_empty:
  assumes "lock_inv s" and "\<nexists>s'. advances s s'"
  shows "lk_map s = (\<lambda>_. None)"
proof
  fix h
  show "lk_map s h = None"
    using lock_invD(5)[OF assms(1), of h] stuck_all_gone[OF assms] by (cases "lk_map s h") auto
qed

text \<open>
  C5. Every call of a locked handler gets its turn: from any state of the lock that can come about, once
  no further call enters, each step takes one unit off a fixed amount of work, whatever the order, so the
  steps come to an end; and where no step is possible every call has run, is settled and gone, and the map
  of the locks is empty again.
\<close>

theorem host_lock_drains:
  assumes "lock_step\<^sup>*\<^sup>* lock_init s"
  shows "(\<forall>n s'. (advances ^^ n) s s' \<longrightarrow> n + lock_work s' = lock_work s) \<and>
    (\<forall>s'. advances\<^sup>*\<^sup>* s s' \<longrightarrow> (\<nexists>s''. advances s' s'') \<longrightarrow>
       (\<forall>i < lk_next s. lk_phase s' i = Gone) \<and> lk_map s' = (\<lambda>_. None))"
proof (intro conjI allI impI)
  show "n + lock_work s' = lock_work s" if "(advances ^^ n) s s'" for n s' by (rule advances_n[OF that])
  fix s' assume r: "advances\<^sup>*\<^sup>* s s'" and stuck: "\<nexists>s''. advances s' s''"
  have "lock_step\<^sup>*\<^sup>* s s'" using r by (rule mono_rtranclp[rule_format, rotated]) (simp add: advances_def)
  then have inv: "lock_inv s'" using lock_inv_reachable rtranclp_trans[OF assms] by blast
  have n: "lk_next s' = lk_next s" using r by (induction rule: rtranclp_induct) (simp_all add: advances_def)
  show "lk_map s' = (\<lambda>_. None)" by (rule stuck_map_empty[OF inv stuck])
  show "lk_phase s' i = Gone" if "i < lk_next s" for i
    using stuck_all_gone[OF inv stuck, of i] that n by simp
qed

lemma host_lock_drains_witness:
  "let s = lock_enter ''a'' lock_init;
       s' = lock_cleanup 0 (set_phase 0 Settled (set_phase 0 Running s))
   in 3 + lock_work s' = lock_work s \<and> lk_phase s' 0 = Gone \<and> lk_map s' = (\<lambda>_. None)"
proof -
  let ?s = "lock_enter ''a'' lock_init"
  let ?s1 = "set_phase 0 Running ?s"
  let ?s2 = "set_phase 0 Settled ?s1"
  let ?s3 = "lock_cleanup 0 ?s2"
  have s: "lk_next ?s = 1" "lk_phase ?s 0 = Waiting" "lk_prev ?s 0 = None"
    by (simp_all add: lock_enter_def lock_init_def Let_def)
  have reach: "lock_step\<^sup>*\<^sup>* lock_init ?s" by (rule r_into_rtranclp[of lock_step]) (rule lock_step.Enter)
  have "advances ?s ?s1"
    using lock_step.Start[of 0 ?s] s by (simp add: advances_def may_start_def set_phase_def)
  moreover have "advances ?s1 ?s2"
    using lock_step.Settle[of 0 ?s1] s by (simp add: advances_def set_phase_def)
  moreover have "advances ?s2 ?s3"
    using lock_step.Cleanup[of 0 ?s2] s by (simp add: advances_def)
  ultimately have run: "(advances ^^ 3) ?s ?s3" by (auto simp: numeral_3_eq_3)
  then have "lock_work ?s3 = 0" using advances_n[OF run] s
    by (simp add: lock_work_def)
  then have stuck: "\<nexists>s''. advances ?s3 s''" using advances_work by fastforce
  have "advances\<^sup>*\<^sup>* ?s ?s3" using run by (rule relpowp_imp_rtranclp)
  then show ?thesis using host_lock_drains[OF reach] run stuck s by (auto simp: Let_def)
qed

end
