(* ===== verification/Server_Shell.thy ===== *)
theory Server_Shell
  imports Accounts Tls_Health
begin

section \<open>The shell of the admin server\<close>

text \<open>
  \<open>error-handlers.ts\<close>, \<open>rate-limit-config.ts\<close> and the hooks, health checks and settings of \<open>index.ts\<close>:
  what an exception of a handler becomes, the two hooks every request passes first, the readiness, and the
  values read from the environment.
\<close>

subsection \<open>Errors\<close>

text \<open>
  An exception as the error handler sees it: whether it is the failed validation of a schema, whether it is
  a \<open>URIError\<close>, and its \<open>statusCode\<close> and \<open>code\<close>.
\<close>

record thrown =
  th_validation :: bool
  th_uri :: bool
  th_statusCode :: "int option"
  th_code :: "string option"

definition error_handler :: "thrown \<Rightarrow> int \<times> string" where
  "error_handler err =
     (if th_validation err then (or_else (th_statusCode err) 400, ''invalid_input'')
      else if th_uri err then (400, ''invalid_input'')
      else
        let status = or_else (th_statusCode err) 500
        in if 500 \<le> status then (status, ''internal_error'')
           else (status, or_else (th_code err) ''request_error''))"

definition not_found_handler :: "int \<times> string" where
  "not_found_handler = (404, ''not_found'')"

text \<open>An exception without a status, that of \<open>decodeURIComponent\<close>, and that of the rate limit.\<close>

definition plain_error :: thrown where
  "plain_error = \<lparr>th_validation = False, th_uri = False, th_statusCode = None, th_code = None\<rparr>"

definition uri_error :: thrown where
  "uri_error = plain_error\<lparr>th_uri := True\<rparr>"

definition rate_limit_error :: thrown where
  "rate_limit_error = plain_error\<lparr>th_statusCode := Some 429, th_code := Some ''rate_limit_exceeded''\<rparr>"

text \<open>What goes out for the result of a handler: the status, and the member \<open>error\<close> of the body.\<close>

fun sent_reply :: "'a reply \<Rightarrow> int \<times> string option" where
  "sent_reply (Ok n b) = (n, None)"
| "sent_reply (Reject n e) = (n, Some e)"
| "sent_reply Throw = (fst (error_handler plain_error), Some (snd (error_handler plain_error)))"
| "sent_reply UriError = (fst (error_handler uri_error), Some (snd (error_handler uri_error)))"

subsection \<open>Limits\<close>

definition WRITE_LIMIT_PER_MIN :: nat where
  "WRITE_LIMIT_PER_MIN = 30"

definition WRITE_LIMIT_BURST_PER_MIN :: nat where
  "WRITE_LIMIT_BURST_PER_MIN = 60"

definition writeRateLimitKey :: "string option \<Rightarrow> string \<Rightarrow> string" where
  "writeRateLimitKey sub ip =
     (case sub of
        None \<Rightarrow> ''ip:'' @ ip
      | Some s \<Rightarrow> if s \<noteq> [] then ''user:'' @ s else ''ip:'' @ ip)"

subsection \<open>The hooks before every handler\<close>

text \<open>
  \<open>requireInternalToken\<close> and then \<open>requireAuth\<close>; a reply of the first ends the request. The result is the
  refusal, or the claims that the handler finds with the request.
\<close>

definition pre_handlers ::
  "string option \<Rightarrow> keys \<Rightarrow> users \<Rightarrow> string \<Rightarrow> string option \<Rightarrow> string option \<Rightarrow> (int \<times> string) + claims option" where
  "pre_handlers env k s url header token =
     (case requireInternalToken env url header of
        IThrow \<Rightarrow> Inl (error_handler plain_error)
      | IDeny e \<Rightarrow> Inl (401, e)
      | IPass \<Rightarrow>
          (case requireAuth k s url token of
             Deny clear_cookie \<Rightarrow> Inl (401, ''unauthenticated'')
           | Skip \<Rightarrow> Inr None
           | Allow c \<Rightarrow> Inr (Some c)))"

text \<open>The two hooks on the way out: what the access log calls the route, and the headers against caching.\<close>

datatype route_kind = PublicRoute | AuthRoute | InternalRoute

definition routeKind :: "string \<Rightarrow> route_kind" where
  "routeKind url =
     (if starts_with ''/internal/'' url then InternalRoute
      else if starts_with ''/api/auth/'' url then AuthRoute else PublicRoute)"

definition no_store_headers :: "string \<Rightarrow> (string \<times> string) list" where
  "no_store_headers url =
     (if starts_with ''/api/'' url then [(''Cache-Control'', ''no-store, max-age=0''), (''Pragma'', ''no-cache'')] else [])"

subsection \<open>Settings\<close>

text \<open>The origins allowed; \<open>None\<close> is the exit of a production server that has none.\<close>

definition allowedOrigins :: "string option \<Rightarrow> string option \<Rightarrow> string list option" where
  "allowedOrigins env node_env =
     (if (env = None \<or> env = Some []) \<and> node_env = Some ''production'' then None
      else Some (case env of
                   None \<Rightarrow> [''http://localhost:4173'', ''http://localhost:7777'']
                 | Some s \<Rightarrow> split_on CHR '','' s))"

definition grpcAddr :: "string \<Rightarrow> string" where
  "grpcAddr url =
     (if starts_with ''http://'' url then drop 7 url
      else if starts_with ''https://'' url then drop 8 url else url)"

definition server_port :: "string option \<Rightarrow> rat" where
  "server_port env =
     (case env of
        None \<Rightarrow> 4001
      | Some s \<Rightarrow> (case number_of_string s of Fin x \<Rightarrow> if x = 0 then 4001 else x | _ \<Rightarrow> 4001))"

subsection \<open>Health\<close>

text \<open>
  The readiness, from the answer of the database (\<open>None\<close> for its exception) and the cached states of the
  services: proxy, storage, tls, dns, and the optimizer, which does not count.
\<close>

record ready_body =
  rb_status :: string
  rb_db_ok :: bool
  rb_services :: "bool list"

definition health_ready :: "int option \<Rightarrow> monitor \<Rightarrow> int \<times> ready_body" where
  "health_ready db_one m =
     (let dbOk = (db_one = Some 1);
          services = map sv_online (hm_services m);
          criticalReady = (services ! 0 \<and> services ! 1 \<and> services ! 2 \<and> services ! 3);
          ready = (dbOk \<and> criticalReady)
      in (if ready then 200 else 503,
          \<lparr>rb_status = (if ready then ''ready'' else ''not_ready''), rb_db_ok = dbOk, rb_services = services\<rparr>))"

subsection \<open>Laws\<close>

lemma route_kind_disjoint: "routeKind url = InternalRoute \<Longrightarrow> no_store_headers url = []"
  by (auto simp: routeKind_def no_store_headers_def starts_with_iff split: if_splits)

text \<open>The key of a request that no guard has seen yet is its address, whoever sent it.\<close>

lemma key_before_guard: "writeRateLimitKey None ip = ''ip:'' @ ip"
  by (simp add: writeRateLimitKey_def)

lemma rate_limit_reply: "error_handler rate_limit_error = (429, ''rate_limit_exceeded'')"
  by (simp add: error_handler_def rate_limit_error_def plain_error_def or_else_def)

text \<open>An origin after a comma and a space is kept with the space, so no request has it.\<close>

lemma origins_not_trimmed: "allowedOrigins (Some ''http://a, http://b'') None = Some [''http://a'', '' http://b'']"
  by code_simp

text \<open>The statuses by which the results of the handlers are described are those that the error handler sends.\<close>

lemma replies_as_sent:
  "fst (sent_reply r) = status_of r"
  "sent_reply (Throw :: 'b reply) = (500, Some ''internal_error'')"
  "sent_reply (UriError :: 'b reply) = (400, Some ''invalid_input'')"
  by (cases r) (simp_all add: error_handler_def plain_error_def uri_error_def or_else_def)

text \<open>
  C14. The two hooks let a request through exactly if its path is an internal one and it has the configured
  token, or it is one of the listed public paths, or the guard of the sessions allows it; the handler then
  finds claims exactly in the last case. For ASCII tokens every other request is refused with a 401.
\<close>

theorem request_passes:
  assumes "list_all (\<lambda>c. (of_char c :: nat) < 128) (or_else env [])"
    and "list_all (\<lambda>c. (of_char c :: nat) < 128) (or_else header [])"
  shows "pre_handlers env k s url header token =
     (if starts_with ''/internal/'' url then
        (if or_else env [] = [] then Inl (401, ''internal_token_misconfigured'')
         else if header = env then Inr None else Inl (401, ''internal_token_mismatch''))
      else if auth_exempt url then Inr None
      else (case requireAuth k s url token of
              Allow c \<Rightarrow> Inr (Some c)
            | _ \<Rightarrow> Inl (401, ''unauthenticated'')))"
proof (cases "starts_with ''/internal/'' url")
  case True
  have i: "requireInternalToken env url header = IPass \<longleftrightarrow> or_else env [] \<noteq> [] \<and> or_else header [] = or_else env []"
    using internal_token_ascii[of env header url] assms True by (simp add: list_all_iff)
  have u: "length (utf8 (or_else env [])) = length (or_else env [])" "length (utf8 (or_else header [])) = length (or_else header [])"
    using length_utf8_ascii[of "or_else env []"] length_utf8_ascii[of "or_else header []"] assms by (simp_all add: list_all_iff)
  have "or_else env [] \<noteq> [] \<Longrightarrow> or_else header [] = or_else env [] \<longleftrightarrow> header = env"
    by (cases env; cases header) (auto simp: or_else_def)
  then show ?thesis
    using i u True by (auto simp: pre_handlers_def requireAuth_def auth_exempt_def requireInternalToken_def Let_def)
next
  case False
  then have "requireInternalToken env url header = IPass" by (simp add: requireInternalToken_def)
  moreover have "requireAuth k s url token = Skip \<longleftrightarrow> auth_exempt url" by (auto simp: requireAuth_def split: option.splits)
  ultimately show ?thesis using False by (auto simp: pre_handlers_def split: auth_result.splits)
qed

lemma request_passes_witness:
  "\<forall>k s. pre_handlers (Some ''t'') k s ''/internal/snapshot'' (Some ''x'') None =
     Inl (401, ''internal_token_mismatch'')"
proof (intro allI)
  fix k s
  have a: "list_all (\<lambda>c. (of_char c :: nat) < 128) (or_else (Some ''t'') [])"
    "list_all (\<lambda>c. (of_char c :: nat) < 128) (or_else (Some ''x'') [])" by code_simp+
  have "starts_with ''/internal/'' ''/internal/snapshot''" by code_simp
  then show "pre_handlers (Some ''t'') k s ''/internal/snapshot'' (Some ''x'') None =
      Inl (401, ''internal_token_mismatch'')"
    using request_passes[OF a, of k s "''/internal/snapshot''" None] by (simp add: or_else_def)
qed

text \<open>
  The server is not ready before the first round of the health monitor, and after a round it is ready
  exactly when the database answers and the proxy and the storage, TLS and DNS services did, whatever became
  of the optimizer.
\<close>

theorem ready_after_tick:
  assumes "po_services p = [storage, tls, dns, optimizer]"
  shows "fst (health_ready db_one monitor_init) = 503 \<and>
    (fst (health_ready db_one (fst (monitor_tick w c p m))) = 200 \<longleftrightarrow>
       db_one = Some 1 \<and> po_proxy p \<noteq> None \<and> (\<forall>r \<in> {storage, tls, dns}. \<exists>ms. r = Some (True, ms)))"
proof
  have "health_ready db_one monitor_init = (503, snd (health_ready db_one monitor_init))"
    by (simp add: health_ready_def monitor_init_def OFFLINE_SVC_def Let_def)
  then show "fst (health_ready db_one monitor_init) = 503" by (metis fst_conv)
  have on: "sv_online (measured r) \<longleftrightarrow> (\<exists>ms. r = Some (True, ms))" for r
    by (auto simp: measured_def OFFLINE_SVC_def split: option.splits)
  show "fst (health_ready db_one (fst (monitor_tick w c p m))) = 200 \<longleftrightarrow>
       db_one = Some 1 \<and> po_proxy p \<noteq> None \<and> (\<forall>r \<in> {storage, tls, dns}. \<exists>ms. r = Some (True, ms))"
    by (simp add: health_ready_def monitor_tick_def assms Let_def on)
qed

lemma ready_after_tick_witness:
  "fst (health_ready (Some 1) (fst (monitor_tick w c
     \<lparr>po_proxy = Some OFFLINE_PROXY, po_now = 0, po_latency = 1,
      po_services = [Some (True, 1), Some (True, 1), Some (True, 1), None], po_disk = None\<rparr> m))) = 200"
  using ready_after_tick[of "\<lparr>po_proxy = Some OFFLINE_PROXY, po_now = 0, po_latency = 1,
      po_services = [Some (True, 1), Some (True, 1), Some (True, 1), None], po_disk = None\<rparr>"] by simp

end
