(* ===== verification/Rebuild.thy ===== *)
theory Rebuild
  imports Startup
begin

section \<open>Start-up: the tables rebuilt\<close>

text \<open>
  The migrations of \<open>index.ts\<close> that rebuild a table: the users for the collation \<open>NOCASE\<close> (issue 340) and for
  times in seconds (issue 377), with the column \<open>token_version\<close> added between them (issue 330), the events
  for times in seconds and the new columns of the statistics. What follows is what the server starts from: a
  table of accounts as the account routes expect it.
\<close>

subsection \<open>The rows before\<close>

text \<open>
  A row of the old table of users, its times ISO texts; the token version is \<open>None\<close> where the table does not
  have the column yet. \<open>strf\<close> is \<open>CAST(strftime('%s', x) AS INTEGER)\<close> of SQLite, \<open>None\<close> its \<open>NULL\<close>.
\<close>

record user_row = dup_row +
  ur_password_hash :: string
  ur_created_at :: string
  ur_last_login_at :: "string option"
  ur_token_version :: "int option"

type_synonym user_rows = "user_row list"
type_synonym strf = "string \<Rightarrow> int option"

subsection \<open>Names that agree without case\<close>

definition nocase_group ::
  "(string \<Rightarrow> string \<Rightarrow> bool) \<Rightarrow> string \<Rightarrow> 'a dup_rows \<Rightarrow> 'a dup_rows \<Rightarrow> 'a dup_rows option" where
  "nocase_group same now rows t =
     (if length rows \<le> 1 then Some t
      else (case order_by keeper_le rows of
              [] \<Rightarrow> Some t
            | keeper # losers \<Rightarrow> migrate_losers same now losers t))"

fun nocase_groups ::
  "(string \<Rightarrow> string \<Rightarrow> bool) \<Rightarrow> string \<Rightarrow> 'a dup_rows list \<Rightarrow> 'a dup_rows \<Rightarrow> 'a dup_rows option" where
  "nocase_groups same now [] t = Some t"
| "nocase_groups same now (g # gs) t = Option.bind (nocase_group same now g t) (nocase_groups same now gs)"

definition nocase_cleanup :: "(string \<Rightarrow> string \<Rightarrow> bool) \<Rightarrow> string \<Rightarrow> 'a dup_rows \<Rightarrow> 'a dup_rows option" where
  "nocase_cleanup same now t = nocase_groups same now (map snd (group_by (\<lambda>r. name_key (dp_username r)) t)) t"

subsection \<open>The rebuilt table\<close>

text \<open>
  The \<open>SELECT\<close> of both rebuilds but for the token version, and the table it fills: a name that is there
  already violates \<open>UNIQUE COLLATE NOCASE\<close>, and \<open>AUTOINCREMENT\<close> goes on behind the largest id.
\<close>

definition copy_columns :: "strf \<Rightarrow> (user_row \<Rightarrow> int) \<Rightarrow> user_row \<Rightarrow> user" where
  "copy_columns strf tv r =
     \<lparr>u_id = dp_id r, u_username = dp_username r, u_password_hash = ur_password_hash r,
      u_created_at = or_else (strf (ur_created_at r)) 0,
      u_updated_at = or_else (strf (dp_updated_at r)) 0,
      u_disabled_at = Option.bind (dp_disabled_at r) strf,
      u_last_login_at = Option.bind (ur_last_login_at r) strf,
      u_token_version = tv r\<rparr>"

definition fill_table :: "user list \<Rightarrow> users option" where
  "fill_table us =
     (if distinct (map u_id us) \<and> distinct (map (\<lambda>u. nocase (u_username u)) us)
      then Some \<lparr>us_rows = us, us_seq = foldr max (map u_id us) 0\<rparr> else None)"

definition rebuild_nocase :: "strf \<Rightarrow> string \<Rightarrow> user_rows \<Rightarrow> users option" where
  "rebuild_nocase strf now t =
     Option.bind (nocase_cleanup (=) now t) (\<lambda>t1. fill_table (map (copy_columns strf (\<lambda>_. 0)) t1))"

definition add_token_version :: "user_rows \<Rightarrow> user_rows" where
  "add_token_version t =
     map (\<lambda>r. case ur_token_version r of None \<Rightarrow> r\<lparr>ur_token_version := Some 0\<rparr> | Some _ \<Rightarrow> r) t"

definition rebuild_times :: "strf \<Rightarrow> user_rows \<Rightarrow> users option" where
  "rebuild_times strf t = fill_table (map (copy_columns strf (\<lambda>r. or_else (ur_token_version r) 0)) t)"

text \<open>
  The migrations of a table of users with text times, in the order of the start: \<open>nocase_col\<close> says whether its
  column has the collation already. The rebuild for the collation also converts the times, and the table it
  makes has the column of the token version, so it is the last of them.
\<close>

definition start_users :: "bool \<Rightarrow> strf \<Rightarrow> string \<Rightarrow> string \<Rightarrow> user_rows \<Rightarrow> users option" where
  "start_users nocase_col strf now now' t =
     Option.bind (migrate_usernames (if nocase_col then same_name else (=)) now t)
       (\<lambda>t1. if nocase_col then rebuild_times strf (add_token_version t1) else rebuild_nocase strf now' t1)"

subsection \<open>Events and statistics\<close>

text \<open>
  An old event is its text time with the other columns. The columns a table of statistics lacks are added with
  0; \<open>cols\<close> are those it has, and a row says nothing of the others.
\<close>

definition events_in_seconds :: "strf \<Rightarrow> (string \<times> event) list \<Rightarrow> event list" where
  "events_in_seconds strf t = map (\<lambda>(ts, e). e\<lparr>e_ts := or_else (strf ts) 0\<rparr>) t"

definition column_or_zero :: "string list \<Rightarrow> string \<Rightarrow> int \<Rightarrow> int" where
  "column_or_zero cols c v = (if c \<in> set cols then v else 0)"

definition add_stats_columns :: "string list \<Rightarrow> stats \<Rightarrow> stats" where
  "add_stats_columns cols t =
     map (\<lambda>r. r\<lparr>st_l1_hits := column_or_zero cols ''l1_hits'' (st_l1_hits r),
                 st_l2_hits := column_or_zero cols ''l2_hits'' (st_l2_hits r),
                 st_bypass_method := column_or_zero cols ''bypass_method'' (st_bypass_method r),
                 st_bypass_nocache := column_or_zero cols ''bypass_nocache'' (st_bypass_nocache r),
                 st_bypass_size := column_or_zero cols ''bypass_size'' (st_bypass_size r),
                 st_bypass_other := column_or_zero cols ''bypass_other'' (st_bypass_other r)\<rparr>) t"

text \<open>An event with a time SQLite does not read is the first the pruner takes: no cutoff after 1970 keeps it.\<close>

lemma unread_event_pruned:
  assumes "strf ts = None" and "0 < cutoff" and "e' \<in> set (fst (prune_events cutoff (events_in_seconds strf [(ts, e)])))"
  shows False
  using assms by (simp add: prune_events_def events_in_seconds_def or_else_def Let_def)

lemma add_stats_columns_idem: "add_stats_columns cols (add_stats_columns cols t) = add_stats_columns cols t"
  by (simp add: add_stats_columns_def column_or_zero_def)

subsection \<open>Archive names have keys of their own\<close>

lemma js_lower_digits: "list_all is_digit s \<Longrightarrow> js_lower s = s"
  by (auto simp: js_lower_def list_all_iff lower_char_def is_digit_def Let_def intro!: map_idI)

lemma js_trim_archive: "\<exists>v. js_trim (archive_name i u) = archive_name i v"
proof -
  have "dropWhile is_ws (archive_name i u) = archive_name i u"
    by (simp add: archive_name_def is_ws_def Let_def)
  moreover have "rev (dropWhile is_ws (rev (archive_name i u))) = archive_name i (rev (dropWhile is_ws (rev u)))"
    by (cases "\<exists>c \<in> set u. \<not> is_ws c")
      (auto simp: archive_name_def dropWhile_append is_ws_def Let_def)
  ultimately show ?thesis by (auto simp: js_trim_def)
qed

lemma name_key_archive: "0 \<le> i \<Longrightarrow> \<exists>v. name_key (archive_name i u) = archive_name i v"
proof -
  assume "0 \<le> i"
  then have "js_lower (archive_name i v) = archive_name i (js_lower v)" for v
    using js_lower_digits[OF int_text_digits[of i]]
    by (simp add: archive_name_def js_lower_def lower_char_def Let_def)
  then show ?thesis using js_trim_archive[of i u] by (auto simp: name_key_def)
qed

lemma migrated_keys_distinct:
  assumes "fresh_names t"
  shows "distinct (map (\<lambda>r. name_key (dp_username (migrated now t r))) t)"
proof -
  have key: "name_key (dp_username (migrated now t r)) =
      (if r = keeper_of t (name_key (dp_username r)) then name_key (dp_username r)
       else name_key (archive_name (dp_id r) (dp_username r)))" if "r \<in> set t" for r
    using assms that loser_row_name[of r now] by (auto simp: migrated_def fresh_names_def)
  have "r = r'" if r: "r \<in> set t" "r' \<in> set t"
    and e: "name_key (dp_username (migrated now t r)) = name_key (dp_username (migrated now t r'))" for r r'
  proof -
    have f: "0 \<le> dp_id r" "0 \<le> dp_id r'" "\<not> starts_with ''__dup_'' (name_key (dp_username r))"
      "\<not> starts_with ''__dup_'' (name_key (dp_username r'))"
      using assms r by (auto simp: fresh_names_def)
    have p: "starts_with ''__dup_'' (archive_name i v)" for i v
      by (simp add: archive_name_def starts_with_def)
    obtain v v' where v: "name_key (archive_name (dp_id r) (dp_username r)) = archive_name (dp_id r) v"
      "name_key (archive_name (dp_id r') (dp_username r')) = archive_name (dp_id r') v'"
      using name_key_archive f(1,2) by metis
    have i: "dp_id r = dp_id r' \<Longrightarrow> r = r'"
      using assms r by (auto simp: fresh_names_def distinct_map inj_on_def)
    show ?thesis
      using e f p v i archive_name_inj[of "dp_id r" v "dp_id r'" v'] unfolding key[OF r(1)] key[OF r(2)]
      by (auto split: if_splits)
  qed
  moreover have "distinct t" using assms by (simp add: fresh_names_def distinct_map)
  ultimately show ?thesis by (auto simp: distinct_map inj_on_def)
qed

text \<open>Where no two names agree the safety net of the rebuild does nothing.\<close>

lemma single_groups: "distinct (map f t) \<Longrightarrow> length (filter (\<lambda>r. f r = k) t) \<le> 1"
proof (induction t)
  case (Cons a t)
  then show ?case
  proof (cases "f a = k")
    case True
    then have "filter (\<lambda>r. f r = k) t = []" using Cons.prems by (auto simp: filter_empty_conv image_iff)
    then show ?thesis by simp
  qed simp
qed simp

lemma nocase_groups_single: "\<forall>g \<in> set gs. length g \<le> 1 \<Longrightarrow> nocase_groups same now gs t = Some t"
  by (induction gs) (simp_all add: nocase_group_def)

lemma nocase_cleanup_id:
  assumes "distinct (map (\<lambda>r. name_key (dp_username r)) t)"
  shows "nocase_cleanup same now t = Some t"
  unfolding nocase_cleanup_def
  by (rule nocase_groups_single) (use single_groups[OF assms] in \<open>auto simp: group_by_def\<close>)

subsection \<open>The tables the server starts from\<close>

lemma foldr_max_le: "x \<in> set xs \<Longrightarrow> x \<le> foldr max xs (0 :: int)"
  by (induction xs) auto

lemma foldr_max_nonneg: "(0 :: int) \<le> foldr max xs 0"
  by (induction xs) auto

lemma fill_table_ok:
  assumes "distinct (map u_id us)" and "distinct (map (\<lambda>u. nocase (u_username u)) us)"
    and "\<forall>u \<in> set us. 1 \<le> u_id u"
  shows "\<exists>s. fill_table us = Some s \<and> us_rows s = us \<and> users_ok s"
  using assms foldr_max_le[of _ "map u_id us"] foldr_max_nonneg
  by (auto simp: fill_table_def users_ok_def ids_of_def)

text \<open>Both ways through the start copy the migrated rows; they differ in the token version alone.\<close>

definition started_row :: "bool \<Rightarrow> strf \<Rightarrow> user_row \<Rightarrow> user" where
  "started_row nocase_col strf =
     copy_columns strf (\<lambda>r. if nocase_col then or_else (ur_token_version r) 0 else 0)"

lemma rebuild_times_added:
  "rebuild_times strf (add_token_version t) = fill_table (map (started_row True strf) t)"
  by (auto simp: rebuild_times_def add_token_version_def started_row_def copy_columns_def or_else_def
    intro!: arg_cong[of _ _ fill_table] split: option.split)

lemma start_users_rows:
  assumes "fresh_names t"
  shows "start_users nocase_col strf now now' t =
    fill_table (map (\<lambda>r. started_row nocase_col strf (migrated now t r)) t)"
proof -
  let ?same = "if nocase_col then same_name else (=)"
  have "no_clash ?same now t" by (rule fresh_no_clash[OF assms]) (simp split: if_splits add: same_name_def)
  then have m: "migrate_usernames ?same now t = Some (map (migrated now t) t)"
    by (rule migrate_usernames_map[rotated]) (use assms in \<open>simp add: fresh_names_def\<close>)
  have c: "nocase_cleanup (=) now' (map (migrated now t) t) = Some (map (migrated now t) t)"
    by (rule nocase_cleanup_id) (use migrated_keys_distinct[OF assms, of now] in \<open>simp add: o_def\<close>)
  show ?thesis
    unfolding start_users_def m Option.bind.simps
    by (simp add: rebuild_times_added rebuild_nocase_def c started_row_def o_def)
qed

lemma started_row_columns:
  "u_id (started_row c strf r) = dp_id r" "u_username (started_row c strf r) = dp_username r"
  "u_password_hash (started_row c strf r) = ur_password_hash r"
  "u_disabled_at (started_row c strf r) = Option.bind (dp_disabled_at r) strf"
  "u_token_version (started_row c strf r) = (if c then or_else (ur_token_version r) 0 else 0)"
  by (simp_all add: started_row_def copy_columns_def)

text \<open>What the migration of the names leaves alone.\<close>

lemma migrated_columns:
  "ur_password_hash (migrated now t r) = ur_password_hash r"
  "ur_token_version (migrated now t r) = ur_token_version r"
  by (simp_all add: migrated_def keeper_row_def loser_row_def Let_def)

lemma migrated_disabled:
  assumes "strf now \<noteq> None" and "\<forall>x. dp_disabled_at r = Some x \<longrightarrow> strf x \<noteq> None"
  shows "(Option.bind (dp_disabled_at (migrated now t r)) strf = None) =
    (r = keeper_of t (name_key (dp_username r)) \<and> dp_disabled_at r = None)"
  using assms by (cases "dp_disabled_at r") (auto simp: migrated_def keeper_row_def loser_row_def Let_def)

lemma archive_is_archive: "is_archive (archive_name i u)"
  by (simp add: is_archive_prefix starts_with_nocase_archive)


definition sample_user_rows :: user_rows where
  "sample_user_rows =
     [\<lparr>dp_id = 1, dp_username = ''A@b.c'', dp_disabled_at = Some ''x'', dp_updated_at = ''x'',
       ur_password_hash = ''h'', ur_created_at = ''x'', ur_last_login_at = None, ur_token_version = Some 4\<rparr>,
      \<lparr>dp_id = 2, dp_username = ''a@b.c '', dp_disabled_at = None, dp_updated_at = ''x'',
       ur_password_hash = ''g'', ur_created_at = ''x'', ur_last_login_at = None, ur_token_version = Some 3\<rparr>]"


text \<open>The next start lowers an archive name that has capitals, so the web client no longer shows the old name.\<close>

lemma restart_lowers_archive:
  "map dp_username (the (Option.bind (migrate_usernames (=) ''y'' sample_dups) (migrate_usernames same_name ''z''))) =
     [''__dup_1__a@b.c'', ''a@b.c'']"
  by code_simp

end
