(* ===== verification/Api_Client.thy ===== *)
theory Api_Client
  imports Domains_Page Detail_Tabs Auth_Client
begin

section \<open>The web client: requests\<close>

text \<open>
  The functions of \<open>api/\<close>: for each the method, the path, the query and the body of its request, and beside them
  the routes the server registers. A route is a method and the segments of its path, a parameter begins with
  a colon. The router is a library; here only which routes a request fits.
\<close>

subsection \<open>A request\<close>

datatype http_method = GET | POST | PUT | DELETE

datatype json = JPrim jsprim | JArray "json list" | JObject "(string \<times> json) list"

record http_call =
  hc_method :: http_method
  hc_path :: string
  hc_params :: "(string \<times> jsprim) list"
  hc_body :: "json option"

text \<open>A parameter that is absent is not sent.\<close>

definition sent_params :: "(string \<times> jsprim) list \<Rightarrow> (string \<times> jsprim) list" where
  "sent_params ps = filter (\<lambda>(k, v). v \<noteq> Undef \<and> v \<noteq> Null) ps"

definition get_call :: "string \<Rightarrow> (string \<times> jsprim) list \<Rightarrow> http_call" where
  "get_call path ps = \<lparr>hc_method = GET, hc_path = path, hc_params = sent_params ps, hc_body = None\<rparr>"

definition send_call :: "http_method \<Rightarrow> string \<Rightarrow> json option \<Rightarrow> http_call" where
  "send_call m path b = \<lparr>hc_method = m, hc_path = path, hc_params = [], hc_body = b\<rparr>"

definition opt_str :: "string option \<Rightarrow> jsprim" where
  "opt_str v = (case v of None \<Rightarrow> Undef | Some s \<Rightarrow> Str s)"

definition domain_path :: "string \<Rightarrow> string" where
  "domain_path host = ''/api/domains/'' @ encodeURIComponent host"

subsection \<open>Domains\<close>

definition fetchDomains :: "page_filter option \<Rightarrow> http_call" where
  "fetchDomains f =
     get_call ''/api/domains''
       (case f of
          None \<Rightarrow> []
        | Some p \<Rightarrow> [(''q'', opt_str (cf_q p)), (''enabled'', case cf_enabled p of None \<Rightarrow> Undef | Some b \<Rightarrow> Bool b),
                    (''sort'', opt_str (cf_sort p)), (''order'', opt_str (cf_order p))])"

definition fetchDomain :: "string \<Rightarrow> http_call" where
  "fetchDomain host = get_call (domain_path host) []"

definition fetchDomainSummary :: http_call where
  "fetchDomainSummary = get_call ''/api/domains/summary'' []"

definition addDomain :: "string \<Rightarrow> string \<Rightarrow> http_call" where
  "addDomain host ori =
     send_call POST ''/api/domains'' (Some (JObject [(''host'', JPrim (Str host)), (''origin'', JPrim (Str ori))]))"

definition updateDomain :: "string \<Rightarrow> put_body \<Rightarrow> http_call" where
  "updateDomain host b =
     send_call PUT (domain_path host)
       (Some (JObject [(''origin'', JPrim (pb_origin b)), (''enabled'', JPrim (pb_enabled b)),
          (''description'', JPrim (pb_description b)), (''stale_if_error_secs'', JPrim (pb_stale_if_error_secs b)),
          (''coalesce_capacity'', JPrim (pb_coalesce_capacity b))]))"

definition toggleDomain :: "string \<Rightarrow> http_call" where
  "toggleDomain host = send_call POST (domain_path host @ ''/toggle'') None"

definition purgeDomain :: "string \<Rightarrow> http_call" where
  "purgeDomain host = send_call POST (domain_path host @ ''/purge'') None"

definition deleteDomain :: "string \<Rightarrow> http_call" where
  "deleteDomain host = send_call DELETE (domain_path host) None"

definition bulkAddDomains :: "(string \<times> string) list \<Rightarrow> http_call" where
  "bulkAddDomains ds =
     send_call POST ''/api/domains/bulk''
       (Some (JObject [(''domains'', JArray (map (\<lambda>(h, ori). JObject [(''host'', JPrim (Str h)), (''origin'', JPrim (Str ori))]) ds))]))"

definition bulkDeleteDomains :: "string list \<Rightarrow> http_call" where
  "bulkDeleteDomains hosts =
     send_call DELETE ''/api/domains/bulk'' (Some (JObject [(''hosts'', JArray (map (JPrim \<circ> Str) hosts))]))"

definition bulkToggleDomains :: "string list \<Rightarrow> bool \<Rightarrow> http_call" where
  "bulkToggleDomains hosts b =
     send_call POST ''/api/domains/bulk-toggle''
       (Some (JObject [(''hosts'', JArray (map (JPrim \<circ> Str) hosts)), (''enabled'', JPrim (Bool b))]))"

definition bulkPurgeDomains :: "string list \<Rightarrow> http_call" where
  "bulkPurgeDomains hosts =
     send_call POST ''/api/domains/bulk-purge'' (Some (JObject [(''hosts'', JArray (map (JPrim \<circ> Str) hosts))]))"

definition fetchDomainHostSummary :: "string \<Rightarrow> http_call" where
  "fetchDomainHostSummary host = get_call (domain_path host @ ''/summary'') []"

text \<open>The two ends of a range are sent for a custom period alone.\<close>

definition range_params :: "string \<Rightarrow> (string \<times> string) option \<Rightarrow> (string \<times> jsprim) list" where
  "range_params p r =
     (case r of None \<Rightarrow> [] | Some (fr, til) \<Rightarrow> if p = ''custom'' then [(''from'', Str fr), (''to'', Str til)] else [])"

definition fetchDomainStats :: "string \<Rightarrow> string \<Rightarrow> (string \<times> string) option \<Rightarrow> http_call" where
  "fetchDomainStats host p r = get_call (domain_path host @ ''/stats'') ((''period'', Str p) # range_params p r)"

definition fetchDomainLogs :: "string \<Rightarrow> logs_query \<Rightarrow> http_call" where
  "fetchDomainLogs host opts =
     get_call (domain_path host @ ''/logs'')
       [(''limit'', opt_str (gq_limit opts)), (''offset'', opt_str (gq_offset opts)), (''status'', opt_str (gq_status opts)),
        (''cache'', opt_str (gq_cache opts)), (''q'', opt_str (gq_q opts)), (''period'', opt_str (gq_period opts)),
        (''from'', opt_str (gq_from opts)), (''to'', opt_str (gq_to opts))]"

definition fetchDomainTopUrls :: "string \<Rightarrow> string \<Rightarrow> (string \<times> string) option \<Rightarrow> http_call" where
  "fetchDomainTopUrls host p r =
     get_call (domain_path host @ ''/top-urls'') ((''period'', Str p) # (''limit'', Num (Fin 5)) # range_params p r)"

text \<open>An empty string is left out here, where the query is put together by hand.\<close>

definition fetchUrlBreakdown :: "string \<Rightarrow> breakdown_params \<Rightarrow> http_call" where
  "fetchUrlBreakdown host ps =
     (let given = (\<lambda>v. if v = Some [] then Undef else opt_str v)
      in get_call (domain_path host @ ''/optimization/url-breakdown'')
           [(''period'', given (up_period ps)), (''sort'', given (up_sort ps)), (''decision'', given (up_decision ps)),
            (''q'', given (up_q ps)), (''limit'', opt_str (up_limit ps)), (''offset'', opt_str (up_offset ps))])"

definition fetchTextCompressStats :: "string \<Rightarrow> string \<Rightarrow> http_call" where
  "fetchTextCompressStats host p =
     get_call ''/api/optimization/stats'' [(''type'', Str ''text_compress''), (''host'', Str host), (''period'', Str p)]"

definition fetchDomainDiagnose :: "string \<Rightarrow> string \<Rightarrow> string \<Rightarrow> string \<Rightarrow> http_call" where
  "fetchDomainDiagnose host path qs rng =
     get_call (domain_path host @ ''/diagnose'') [(''path'', Str path), (''query'', Str qs), (''range'', Str rng)]"

subsection \<open>Cache, DNS, certificates, optimizer, proxy, system\<close>

definition fetchCacheStats :: http_call where
  "fetchCacheStats = get_call ''/api/cache/stats'' []"

definition given_host :: "string option \<Rightarrow> jsprim" where
  "given_host h = (if h = Some [] then Undef else opt_str h)"

definition fetchCacheSeries :: "string \<Rightarrow> string option \<Rightarrow> http_call" where
  "fetchCacheSeries rng h = get_call ''/api/cache/series'' [(''range'', Str rng), (''host'', given_host h)]"

definition fetchCachePopular :: "string option \<Rightarrow> http_call" where
  "fetchCachePopular h = get_call ''/api/cache/popular'' [(''domain'', given_host h)]"

definition purgeCache :: "string \<Rightarrow> string option \<Rightarrow> http_call" where
  "purgeCache typ target =
     send_call DELETE ''/api/cache/purge'' (Some (JObject [(''type'', JPrim (Str typ)), (''target'', JPrim (opt_str target))]))"

definition fetchDnsStatus :: http_call where
  "fetchDnsStatus = get_call ''/api/dns/status'' []"

definition fetchDnsRecords :: http_call where
  "fetchDnsRecords = get_call ''/api/dns/records'' []"

definition fetchDnsQueries :: "int \<Rightarrow> http_call" where
  "fetchDnsQueries n = get_call ''/api/dns/queries'' [(''limit'', Num (Fin (of_int n)))]"

definition fetchDnsMetrics :: "string \<Rightarrow> http_call" where
  "fetchDnsMetrics rng = get_call ''/api/dns/metrics'' [(''range'', Str rng)]"

definition fetchCertificates :: http_call where
  "fetchCertificates = get_call ''/api/tls/certificates'' []"

definition renewCert :: "string \<Rightarrow> http_call" where
  "renewCert host = send_call POST (''/api/tls/renew/'' @ encodeURIComponent host) None"

definition syncDomain :: "string \<Rightarrow> http_call" where
  "syncDomain host = send_call POST (domain_path host @ ''/sync'') None"

definition fetchOptimizerProfiles :: http_call where
  "fetchOptimizerProfiles = get_call ''/api/optimizer/profiles'' []"

text \<open>A profile: domain, quality, width and whether it is in force.\<close>

definition updateOptimizerProfile :: "string \<Rightarrow> jsprim \<Rightarrow> jsprim \<Rightarrow> bool \<Rightarrow> http_call" where
  "updateOptimizerProfile host quality width b =
     send_call PUT (''/api/optimizer/profiles/'' @ encodeURIComponent host)
       (Some (JObject [(''quality'', JPrim quality), (''max_width'', JPrim width), (''enabled'', JPrim (Bool b))]))"

definition fetchOptimizationStats :: "string option \<Rightarrow> http_call" where
  "fetchOptimizationStats h = get_call ''/api/stats/optimization'' [(''domain'', given_host h)]"

definition fetchProxyStatus :: http_call where
  "fetchProxyStatus = get_call ''/api/proxy/status'' []"

definition fetchProxyRequests :: http_call where
  "fetchProxyRequests = get_call ''/api/proxy/requests'' []"

definition testProxy :: "string \<Rightarrow> string \<Rightarrow> string option \<Rightarrow> http_call" where
  "testProxy host path protocol =
     send_call POST ''/api/proxy/test''
       (Some (JObject [(''domain'', JPrim (Str host)), (''path'', JPrim (Str path)),
          (''protocol'', JPrim (Str (or_else protocol ''http'')))]))"

definition fetchSystemStatus :: http_call where
  "fetchSystemStatus = get_call ''/api/system/status'' []"

subsection \<open>Accounts and the audit log, through the instance with the base \<open>/api\<close>\<close>

definition listUsers :: "user_list_query \<Rightarrow> http_call" where
  "listUsers o' =
     get_call ''/api/users''
       [(''q'', if lq_q o' = Some [] then Undef else opt_str (lq_q o')), (''enabled'', opt_str (lq_enabled o')),
        (''sort'', if lq_sort o' = Some [] then Undef else opt_str (lq_sort o')),
        (''order'', if lq_order o' = Some [] then Undef else opt_str (lq_order o')),
        (''limit'', opt_str (lq_limit o')), (''offset'', opt_str (lq_offset o'))]"

definition createUser :: "string \<Rightarrow> string \<Rightarrow> http_call" where
  "createUser username password =
     send_call POST ''/api/users'' (Some (JObject [(''username'', JPrim (Str username)), (''password'', JPrim (Str password))]))"

definition updatePassword :: "int \<Rightarrow> string \<Rightarrow> string option \<Rightarrow> http_call" where
  "updatePassword i password current =
     send_call PUT (''/api/users/'' @ int_text i @ ''/password'')
       (Some (JObject ((''password'', JPrim (Str password)) #
          (case current of None \<Rightarrow> [] | Some p \<Rightarrow> [(''currentPassword'', JPrim (Str p))]))))"

definition disableUser :: "int \<Rightarrow> http_call" where
  "disableUser i = send_call DELETE (''/api/users/'' @ int_text i) None"

definition enableUser :: "int \<Rightarrow> http_call" where
  "enableUser i = send_call PUT (''/api/users/'' @ int_text i @ ''/enable'') (Some (JObject []))"

text \<open>The members of the filter in their order; those absent or empty are left out.\<close>

definition fetchAudit :: "(string \<times> jsprim) list \<Rightarrow> http_call" where
  "fetchAudit q = get_call ''/api/audit'' (filter (\<lambda>(k, v). v \<noteq> Undef \<and> v \<noteq> Str []) q)"

definition fetchAuthState :: http_call where
  "fetchAuthState = get_call ''/api/auth/state'' []"

definition login_call :: "string \<Rightarrow> string \<Rightarrow> http_call" where
  "login_call username password =
     send_call POST ''/api/auth/login'' (Some (JObject [(''username'', JPrim (Str username)), (''password'', JPrim (Str password))]))"

definition logout_call :: http_call where
  "logout_call = send_call POST ''/api/auth/logout'' None"

definition setup_call :: "string \<Rightarrow> string \<Rightarrow> http_call" where
  "setup_call username password =
     send_call POST ''/api/auth/setup'' (Some (JObject [(''username'', JPrim (Str username)), (''password'', JPrim (Str password))]))"

subsection \<open>The routes of the server\<close>

text \<open>
  In the order \<open>index.ts\<close> registers them, with the paths given in the files under \<open>routes/\<close>: first the proxy, the
  cache and the certificates, then the domains, the services, the accounts with the internal list and the audit log.
\<close>

type_synonym route = "http_method \<times> string list"

definition proxy_and_cache_routes :: "route list" where
  "proxy_and_cache_routes =
     [(GET, [''api'', ''proxy'', ''status'']), (GET, [''api'', ''proxy'', ''requests'']), (POST, [''api'', ''proxy'', ''test'']),
      (GET, [''api'', ''cache'', ''stats'']), (GET, [''api'', ''cache'', ''series'']), (GET, [''api'', ''cache'', ''popular'']),
      (DELETE, [''api'', ''cache'', ''purge'']),
      (GET, [''api'', ''tls'', ''ca'']), (GET, [''api'', ''tls'', ''ca'', ''mobileconfig'']),
      (GET, [''api'', ''tls'', ''certificates'']), (POST, [''api'', ''tls'', ''renew'', '':host''])]"

definition domain_routes :: "route list" where
  "domain_routes =
     [(GET, [''api'', ''domains'']), (GET, [''api'', ''domains'', ''summary'']), (POST, [''api'', ''domains'', ''bulk'']),
      (DELETE, [''api'', ''domains'', ''bulk'']), (POST, [''api'', ''domains'', ''bulk-toggle'']),
      (POST, [''api'', ''domains'', ''bulk-purge'']), (POST, [''api'', ''domains'']), (GET, [''api'', ''domains'', '':host'']),
      (PUT, [''api'', ''domains'', '':host'']), (POST, [''api'', ''domains'', '':host'', ''toggle'']),
      (POST, [''api'', ''domains'', '':host'', ''sync'']), (POST, [''api'', ''domains'', '':host'', ''purge'']),
      (GET, [''api'', ''domains'', '':host'', ''summary'']), (GET, [''api'', ''domains'', '':host'', ''stats'']),
      (GET, [''api'', ''domains'', '':host'', ''logs'']), (GET, [''api'', ''domains'', '':host'', ''top-urls'']),
      (GET, [''api'', ''domains'', '':host'', ''optimization'', ''url-breakdown'']),
      (DELETE, [''api'', ''domains'', '':host''])]"

definition service_routes :: "route list" where
  "service_routes =
     [(GET, [''api'', ''system'', ''status'']), (GET, [''api'', ''optimizer'', ''profiles'']),
      (PUT, [''api'', ''optimizer'', ''profiles'', '':domain'']), (GET, [''api'', ''stats'', ''optimization'']),
      (GET, [''api'', ''dns'', ''status'']), (GET, [''api'', ''dns'', ''records'']), (GET, [''api'', ''dns'', ''queries'']),
      (GET, [''api'', ''dns'', ''metrics'']), (GET, [''api'', ''logs'', '':service'']),
      (POST, [''internal'', ''events'', ''batch'']), (GET, [''api'', ''optimization'', ''events'']),
      (GET, [''api'', ''optimization'', ''stats'']), (GET, [''api'', ''domains'', '':host'', ''diagnose''])]"

definition account_routes :: "route list" where
  "account_routes =
     [(GET, [''api'', ''auth'', ''state'']), (POST, [''api'', ''auth'', ''setup'']), (POST, [''api'', ''auth'', ''login'']),
      (POST, [''api'', ''auth'', ''logout'']), (GET, [''api'', ''users'']), (POST, [''api'', ''users'']),
      (PUT, [''api'', ''users'', '':id'', ''password'']), (PUT, [''api'', ''users'', '':id'', ''enable'']),
      (DELETE, [''api'', ''users'', '':id'']), (GET, [''internal'', ''domains'', ''snapshot'']), (GET, [''api'', ''audit''])]"

definition server_routes :: "route list" where
  "server_routes =
     [(GET, [''api'', ''health'']), (GET, [''api'', ''health'', ''live'']), (GET, [''api'', ''health'', ''ready''])] @
     proxy_and_cache_routes @ domain_routes @ service_routes @ account_routes"

text \<open>The parameters of a path that fits the segments of a route; none of them is empty.\<close>

fun fits :: "string list \<Rightarrow> string list \<Rightarrow> string list option" where
  "fits [] [] = Some []"
| "fits (p # ps) (s # ss) =
     (if starts_with '':'' p then (if s = [] then None else map_option ((#) s) (fits ps ss))
      else if p = s then fits ps ss else None)"
| "fits ps ss = None"

text \<open>The routes that the segments of a path fit.\<close>

definition segments :: "http_call \<Rightarrow> string list" where
  "segments c = split_on CHR ''/'' (tl (hc_path c))"

definition fitting :: "http_method \<Rightarrow> string list \<Rightarrow> (route \<times> string list) list" where
  "fitting m ws = List.map_filter (\<lambda>r. if fst r = m then map_option (Pair r) (fits (snd r) ws) else None) server_routes"

text \<open>
  What the router promises: the only route that fits is taken, and a route without parameters goes before one
  with a parameter.
\<close>

definition router_law :: "(http_method \<Rightarrow> string list \<Rightarrow> (route \<times> string list) option) \<Rightarrow> bool" where
  "router_law router =
     (\<forall>m ws x. (fitting m ws = [x] \<longrightarrow> router m ws = Some x) \<and>
        (x \<in> set (fitting m ws) \<and> snd x = [] \<longrightarrow> router m ws = Some x))"

subsection \<open>Queries, changes and their requests\<close>

text \<open>A query of a hook of the client with the arguments of the hook, and a change of a mutation.\<close>

datatype query =
    QDomains "page_filter option"
  | QSummary
  | QDomain string
  | QHostSummary string
  | QStats string string "(string \<times> string) option"
  | QTopUrls string string "(string \<times> string) option"
  | QLogs string logs_query
  | QUrls string breakdown_params
  | QTextCompress string string
  | QCacheStats
  | QCachePopular
  | QCacheSeries string "string option"
  | QCertificates
  | QCert string
  | QDnsStatus
  | QDnsRecords
  | QDnsQueries int
  | QDnsMetrics string
  | QOptimizerStats
  | QOptimizerProfiles
  | QOptimizerProfile string
  | QOptimization string
  | QProxyStatus
  | QProxyRequests
  | QSystemStatus
  | QDiagnose string string string string

datatype client_mutation =
    MAdd string string
  | MBulkAdd "(string \<times> string) list"
  | MUpdate string put_body
  | MToggle string
  | MBulkToggle "string list" bool
  | MDelete string
  | MBulkDelete "string list"
  | MPurgeDomain string
  | MBulkPurge "string list"
  | MPurgeCache string "string option"
  | MSync string
  | MTestProxy string string "string option"
  | MTlsRenew string
  | MProfile string jsprim jsprim bool

fun query_call :: "query \<Rightarrow> http_call" where
  "query_call (QDomains f) = fetchDomains f"
| "query_call QSummary = fetchDomainSummary"
| "query_call (QDomain h) = fetchDomain h"
| "query_call (QHostSummary h) = fetchDomainHostSummary h"
| "query_call (QStats h p r) = fetchDomainStats h p r"
| "query_call (QTopUrls h p r) = fetchDomainTopUrls h p r"
| "query_call (QLogs h opts) = fetchDomainLogs h opts"
| "query_call (QUrls h ps) = fetchUrlBreakdown h ps"
| "query_call (QTextCompress h p) = fetchTextCompressStats h p"
| "query_call QCacheStats = fetchCacheStats"
| "query_call QCachePopular = fetchCachePopular None"
| "query_call (QCacheSeries rng h) = fetchCacheSeries rng h"
| "query_call QCertificates = fetchCertificates"
| "query_call (QCert h) = fetchCertificates"
| "query_call QDnsStatus = fetchDnsStatus"
| "query_call QDnsRecords = fetchDnsRecords"
| "query_call (QDnsQueries n) = fetchDnsQueries n"
| "query_call (QDnsMetrics rng) = fetchDnsMetrics rng"
| "query_call QOptimizerStats = fetchOptimizationStats None"
| "query_call QOptimizerProfiles = fetchOptimizerProfiles"
| "query_call (QOptimizerProfile h) = fetchOptimizerProfiles"
| "query_call (QOptimization h) = fetchOptimizationStats (Some h)"
| "query_call QProxyStatus = fetchProxyStatus"
| "query_call QProxyRequests = fetchProxyRequests"
| "query_call QSystemStatus = fetchSystemStatus"
| "query_call (QDiagnose h path qs rng) = fetchDomainDiagnose h path qs rng"

fun mutation_call :: "client_mutation \<Rightarrow> http_call" where
  "mutation_call (MAdd h ori) = addDomain h ori"
| "mutation_call (MBulkAdd ds) = bulkAddDomains ds"
| "mutation_call (MUpdate h b) = updateDomain h b"
| "mutation_call (MToggle h) = toggleDomain h"
| "mutation_call (MBulkToggle hs b) = bulkToggleDomains hs b"
| "mutation_call (MDelete h) = deleteDomain h"
| "mutation_call (MBulkDelete hs) = bulkDeleteDomains hs"
| "mutation_call (MPurgeDomain h) = purgeDomain h"
| "mutation_call (MBulkPurge hs) = bulkPurgeDomains hs"
| "mutation_call (MPurgeCache typ target) = purgeCache typ target"
| "mutation_call (MSync h) = syncDomain h"
| "mutation_call (MTestProxy h path protocol) = testProxy h path protocol"
| "mutation_call (MTlsRenew h) = renewCert h"
| "mutation_call (MProfile h quality width b) = updateOptimizerProfile h quality width b"

subsection \<open>The routes meant, and the parameters in the path\<close>

abbreviation at_domain :: "http_method \<Rightarrow> string list \<Rightarrow> route" where
  "at_domain m ws \<equiv> (m, [''api'', ''domains'', '':host''] @ ws)"

fun query_route :: "query \<Rightarrow> route" where
  "query_route (QDomains f) = (GET, [''api'', ''domains''])"
| "query_route QSummary = (GET, [''api'', ''domains'', ''summary''])"
| "query_route (QDomain h) = at_domain GET []"
| "query_route (QHostSummary h) = at_domain GET [''summary'']"
| "query_route (QStats h p r) = at_domain GET [''stats'']"
| "query_route (QTopUrls h p r) = at_domain GET [''top-urls'']"
| "query_route (QLogs h opts) = at_domain GET [''logs'']"
| "query_route (QUrls h ps) = at_domain GET [''optimization'', ''url-breakdown'']"
| "query_route (QTextCompress h p) = (GET, [''api'', ''optimization'', ''stats''])"
| "query_route QCacheStats = (GET, [''api'', ''cache'', ''stats''])"
| "query_route QCachePopular = (GET, [''api'', ''cache'', ''popular''])"
| "query_route (QCacheSeries rng h) = (GET, [''api'', ''cache'', ''series''])"
| "query_route QDnsStatus = (GET, [''api'', ''dns'', ''status''])"
| "query_route QDnsRecords = (GET, [''api'', ''dns'', ''records''])"
| "query_route (QDnsQueries n) = (GET, [''api'', ''dns'', ''queries''])"
| "query_route (QDnsMetrics rng) = (GET, [''api'', ''dns'', ''metrics''])"
| "query_route QOptimizerStats = (GET, [''api'', ''stats'', ''optimization''])"
| "query_route (QOptimization h) = (GET, [''api'', ''stats'', ''optimization''])"
| "query_route QOptimizerProfiles = (GET, [''api'', ''optimizer'', ''profiles''])"
| "query_route (QOptimizerProfile h) = (GET, [''api'', ''optimizer'', ''profiles''])"
| "query_route QProxyStatus = (GET, [''api'', ''proxy'', ''status''])"
| "query_route QProxyRequests = (GET, [''api'', ''proxy'', ''requests''])"
| "query_route QSystemStatus = (GET, [''api'', ''system'', ''status''])"
| "query_route (QDiagnose h path qs rng) = at_domain GET [''diagnose'']"
| "query_route _ = (GET, [''api'', ''tls'', ''certificates''])"

fun path_hosts :: "query \<Rightarrow> string list" where
  "path_hosts (QDomain h) = [h]"
| "path_hosts (QHostSummary h) = [h]"
| "path_hosts (QStats h p r) = [h]"
| "path_hosts (QTopUrls h p r) = [h]"
| "path_hosts (QLogs h opts) = [h]"
| "path_hosts (QUrls h ps) = [h]"
| "path_hosts (QDiagnose h path qs rng) = [h]"
| "path_hosts _ = []"

fun mutation_route :: "client_mutation \<Rightarrow> route" where
  "mutation_route (MAdd h ori) = (POST, [''api'', ''domains''])"
| "mutation_route (MBulkAdd ds) = (POST, [''api'', ''domains'', ''bulk''])"
| "mutation_route (MUpdate h b) = at_domain PUT []"
| "mutation_route (MToggle h) = at_domain POST [''toggle'']"
| "mutation_route (MBulkToggle hs b) = (POST, [''api'', ''domains'', ''bulk-toggle''])"
| "mutation_route (MDelete h) = at_domain DELETE []"
| "mutation_route (MBulkDelete hs) = (DELETE, [''api'', ''domains'', ''bulk''])"
| "mutation_route (MPurgeDomain h) = at_domain POST [''purge'']"
| "mutation_route (MBulkPurge hs) = (POST, [''api'', ''domains'', ''bulk-purge''])"
| "mutation_route (MPurgeCache typ target) = (DELETE, [''api'', ''cache'', ''purge''])"
| "mutation_route (MSync h) = at_domain POST [''sync'']"
| "mutation_route (MTestProxy h path protocol) = (POST, [''api'', ''proxy'', ''test''])"
| "mutation_route (MTlsRenew h) = (POST, [''api'', ''tls'', ''renew'', '':host''])"
| "mutation_route (MProfile h quality width b) = (PUT, [''api'', ''optimizer'', ''profiles'', '':domain''])"

fun changed_path_hosts :: "client_mutation \<Rightarrow> string list" where
  "changed_path_hosts (MUpdate h b) = [h]"
| "changed_path_hosts (MToggle h) = [h]"
| "changed_path_hosts (MDelete h) = [h]"
| "changed_path_hosts (MPurgeDomain h) = [h]"
| "changed_path_hosts (MSync h) = [h]"
| "changed_path_hosts (MTlsRenew h) = [h]"
| "changed_path_hosts (MProfile h quality width b) = [h]"
| "changed_path_hosts _ = []"

subsection \<open>Every request of the client fits one route\<close>

text \<open>A host with a dot is none of the words the paths have in the place of a host.\<close>

definition path_host :: "string \<Rightarrow> bool" where
  "path_host h = (CHR ''.'' \<in> set h)"

lemma encoded_set: "c \<in> set (encodeURIComponent s) \<Longrightarrow> c = CHR ''%'' \<or> unreserved c"
proof (induction s)
  case (Cons d s)
  have p: "x = CHR ''%'' \<or> unreserved x" if "x \<in> set (pct b)" "b < 256" for x b
  proof -
    have "b div 16 < 16" "b mod 16 < 16" using that(2) by auto
    then show ?thesis using that(1) unreserved_hex by (auto simp: pct_def)
  qed
  have b: "\<forall>b \<in> set (utf8 [d]). b < 256" using utf8_char[of d] by auto
  show ?case
  proof (cases "c \<in> set (encodeURIComponent s)")
    case False
    then have "c = d \<and> unreserved d \<or> (\<exists>b \<in> set (utf8 [d]). c \<in> set (pct b))"
      using Cons.prems by (auto simp: enc_Cons split: if_splits)
    with b p show ?thesis by blast
  qed (use Cons.IH in blast)
qed (simp add: encodeURIComponent_def)

lemma encoded_segment:
  assumes "path_host h"
  shows "CHR ''/'' \<notin> set (encodeURIComponent h)" and "CHR ''.'' \<in> set (encodeURIComponent h)"
proof -
  have "\<not> unreserved CHR ''/''" by code_simp
  then show "CHR ''/'' \<notin> set (encodeURIComponent h)" using encoded_set[of "CHR ''/''" h] by auto
  have "unreserved CHR ''.''" by code_simp
  then show "CHR ''.'' \<in> set (encodeURIComponent h)"
    using assms unfolding path_host_def by (induction h) (auto simp: enc_Cons)
qed

lemma good_path_host:
  assumes "good_host h" shows "path_host h"
proof (rule ccontr)
  assume n: "\<not> path_host h"
  let ?r = "if starts_with ''*.'' h then drop 2 h else h"
  have "CHR ''.'' \<notin> set ?r" using n in_set_dropD[of _ 2 h] by (auto simp: path_host_def)
  then have "split_on CHR ''.'' ?r = [?r]" by (rule split_on_notin)
  with assms show False by (simp add: good_host_def DOMAIN_RE_def Let_def)
qed

lemma not_word:
  assumes "CHR ''.'' \<in> set e"
  shows "e \<noteq> []" "e \<noteq> ''summary''" "''summary'' \<noteq> e" "e \<noteq> ''bulk''" "''bulk'' \<noteq> e" "e \<noteq> ''bulk-toggle''" "''bulk-toggle'' \<noteq> e"
    "e \<noteq> ''bulk-purge''" "''bulk-purge'' \<noteq> e"
  using assms by auto

text \<open>The paths about a host, cut into segments.\<close>

lemma domain_segments:
  assumes "CHR ''/'' \<notin> set e"
  shows "split_on CHR ''/'' (''api/domains/'' @ e) = [''api'', ''domains'', e]"
    and "split_on CHR ''/'' (''api/domains/'' @ e @ CHR ''/'' # r) = [''api'', ''domains'', e] @ split_on CHR ''/'' r"
    and "split_on CHR ''/'' (''api/tls/renew/'' @ e) = [''api'', ''tls'', ''renew'', e]"
    and "split_on CHR ''/'' (''api/optimizer/profiles/'' @ e) = [''api'', ''optimizer'', ''profiles'', e]"
  using split_on_notin[OF assms] split_on_append[OF assms] by simp_all

lemmas route_defs = fitting_def server_routes_def proxy_and_cache_routes_def domain_routes_def service_routes_def account_routes_def

lemma fitting_host:
  assumes "CHR ''.'' \<in> set e"
  shows "fitting GET [''api'', ''domains'', e] = [(at_domain GET [], [e])]"
    and "fitting PUT [''api'', ''domains'', e] = [(at_domain PUT [], [e])]"
    and "fitting DELETE [''api'', ''domains'', e] = [(at_domain DELETE [], [e])]"
    and "fitting POST [''api'', ''domains'', e, ''toggle''] = [(at_domain POST [''toggle''], [e])]"
    and "fitting POST [''api'', ''domains'', e, ''sync''] = [(at_domain POST [''sync''], [e])]"
    and "fitting POST [''api'', ''domains'', e, ''purge''] = [(at_domain POST [''purge''], [e])]"
    and "fitting GET [''api'', ''domains'', e, ''summary''] = [(at_domain GET [''summary''], [e])]"
    and "fitting GET [''api'', ''domains'', e, ''stats''] = [(at_domain GET [''stats''], [e])]"
    and "fitting GET [''api'', ''domains'', e, ''logs''] = [(at_domain GET [''logs''], [e])]"
    and "fitting GET [''api'', ''domains'', e, ''top-urls''] = [(at_domain GET [''top-urls''], [e])]"
    and "fitting GET [''api'', ''domains'', e, ''diagnose''] = [(at_domain GET [''diagnose''], [e])]"
    and "fitting GET [''api'', ''domains'', e, ''optimization'', ''url-breakdown''] =
      [(at_domain GET [''optimization'', ''url-breakdown''], [e])]"
    and "fitting POST [''api'', ''tls'', ''renew'', e] = [((POST, [''api'', ''tls'', ''renew'', '':host'']), [e])]"
    and "fitting PUT [''api'', ''optimizer'', ''profiles'', e] = [((PUT, [''api'', ''optimizer'', ''profiles'', '':domain'']), [e])]"
  using not_word[OF assms] by (simp_all add: route_defs map_filter_simps starts_with_def)

lemma fixed_segments:
  "split_on CHR ''/'' ''toggle'' = [''toggle'']" "split_on CHR ''/'' ''sync'' = [''sync'']" "split_on CHR ''/'' ''purge'' = [''purge'']"
  "split_on CHR ''/'' ''summary'' = [''summary'']" "split_on CHR ''/'' ''stats'' = [''stats'']" "split_on CHR ''/'' ''logs'' = [''logs'']"
  "split_on CHR ''/'' ''top-urls'' = [''top-urls'']" "split_on CHR ''/'' ''diagnose'' = [''diagnose'']"
  "split_on CHR ''/'' ''optimization/url-breakdown'' = [''optimization'', ''url-breakdown'']"
  by code_simp+

lemma fixed_split:
  "split_on CHR ''/'' ''api/domains'' = [''api'', ''domains'']"
  "split_on CHR ''/'' ''api/domains/summary'' = [''api'', ''domains'', ''summary'']"
  "split_on CHR ''/'' ''api/domains/bulk'' = [''api'', ''domains'', ''bulk'']"
  "split_on CHR ''/'' ''api/domains/bulk-toggle'' = [''api'', ''domains'', ''bulk-toggle'']"
  "split_on CHR ''/'' ''api/domains/bulk-purge'' = [''api'', ''domains'', ''bulk-purge'']"
  "split_on CHR ''/'' ''api/optimization/stats'' = [''api'', ''optimization'', ''stats'']"
  "split_on CHR ''/'' ''api/cache/stats'' = [''api'', ''cache'', ''stats'']"
  "split_on CHR ''/'' ''api/cache/popular'' = [''api'', ''cache'', ''popular'']"
  "split_on CHR ''/'' ''api/cache/series'' = [''api'', ''cache'', ''series'']"
  "split_on CHR ''/'' ''api/cache/purge'' = [''api'', ''cache'', ''purge'']"
  "split_on CHR ''/'' ''api/tls/certificates'' = [''api'', ''tls'', ''certificates'']"
  "split_on CHR ''/'' ''api/dns/status'' = [''api'', ''dns'', ''status'']"
  "split_on CHR ''/'' ''api/dns/records'' = [''api'', ''dns'', ''records'']"
  "split_on CHR ''/'' ''api/dns/queries'' = [''api'', ''dns'', ''queries'']"
  "split_on CHR ''/'' ''api/dns/metrics'' = [''api'', ''dns'', ''metrics'']"
  "split_on CHR ''/'' ''api/stats/optimization'' = [''api'', ''stats'', ''optimization'']"
  "split_on CHR ''/'' ''api/optimizer/profiles'' = [''api'', ''optimizer'', ''profiles'']"
  "split_on CHR ''/'' ''api/proxy/status'' = [''api'', ''proxy'', ''status'']"
  "split_on CHR ''/'' ''api/proxy/requests'' = [''api'', ''proxy'', ''requests'']"
  "split_on CHR ''/'' ''api/proxy/test'' = [''api'', ''proxy'', ''test'']"
  "split_on CHR ''/'' ''api/system/status'' = [''api'', ''system'', ''status'']"
  by code_simp+

text \<open>A registered route without parameters fits its own segments.\<close>

definition static_route :: "route \<Rightarrow> bool" where
  "static_route r = (r \<in> set server_routes \<and> list_all (\<lambda>w. \<not> starts_with '':'' w) (snd r))"

lemma fits_itself: "list_all (\<lambda>w. \<not> starts_with '':'' w) ws \<Longrightarrow> fits ws ws = Some []"
  by (induction ws) auto

lemma static_fits: "static_route r \<Longrightarrow> (r, []) \<in> set (fitting (fst r) (snd r))"
  by (auto simp: static_route_def fitting_def List.map_filter_def fits_itself intro!: image_eqI[of _ _ r])

lemma static_routes:
  "static_route (GET, [''api'', ''domains''])"
  "static_route (GET, [''api'', ''domains'', ''summary''])"
  "static_route (POST, [''api'', ''domains''])"
  "static_route (POST, [''api'', ''domains'', ''bulk''])"
  "static_route (DELETE, [''api'', ''domains'', ''bulk''])"
  "static_route (POST, [''api'', ''domains'', ''bulk-toggle''])"
  "static_route (POST, [''api'', ''domains'', ''bulk-purge''])"
  "static_route (GET, [''api'', ''optimization'', ''stats''])"
  "static_route (GET, [''api'', ''cache'', ''stats''])"
  "static_route (GET, [''api'', ''cache'', ''popular''])"
  "static_route (GET, [''api'', ''cache'', ''series''])"
  "static_route (DELETE, [''api'', ''cache'', ''purge''])"
  "static_route (GET, [''api'', ''tls'', ''certificates''])"
  "static_route (GET, [''api'', ''dns'', ''status''])"
  "static_route (GET, [''api'', ''dns'', ''records''])"
  "static_route (GET, [''api'', ''dns'', ''queries''])"
  "static_route (GET, [''api'', ''dns'', ''metrics''])"
  "static_route (GET, [''api'', ''stats'', ''optimization''])"
  "static_route (GET, [''api'', ''optimizer'', ''profiles''])"
  "static_route (GET, [''api'', ''proxy'', ''status''])"
  "static_route (GET, [''api'', ''proxy'', ''requests''])"
  "static_route (POST, [''api'', ''proxy'', ''test''])"
  "static_route (GET, [''api'', ''system'', ''status''])"
  by code_simp+

lemmas api_defs = get_call_def send_call_def domain_path_def fetchDomains_def fetchDomain_def fetchDomainSummary_def addDomain_def
  updateDomain_def toggleDomain_def purgeDomain_def deleteDomain_def bulkAddDomains_def bulkDeleteDomains_def
  bulkToggleDomains_def bulkPurgeDomains_def fetchDomainHostSummary_def fetchDomainStats_def fetchDomainLogs_def
  fetchDomainTopUrls_def fetchUrlBreakdown_def fetchTextCompressStats_def fetchDomainDiagnose_def fetchCacheStats_def
  fetchCacheSeries_def fetchCachePopular_def purgeCache_def fetchDnsStatus_def fetchDnsRecords_def fetchDnsQueries_def
  fetchDnsMetrics_def fetchCertificates_def renewCert_def syncDomain_def fetchOptimizerProfiles_def
  updateOptimizerProfile_def fetchOptimizationStats_def fetchProxyStatus_def fetchProxyRequests_def testProxy_def
  fetchSystemStatus_def

lemma router_one: "router_law router \<Longrightarrow> fitting m ws = [x] \<Longrightarrow> router m ws = Some x"
  unfolding router_law_def by blast

lemma router_static: "router_law router \<Longrightarrow> static_route r \<Longrightarrow> router (fst r) (snd r) = Some (r, [])"
  using static_fits unfolding router_law_def by fastforce

lemma query_served:
  assumes "router_law router" and "list_all path_host (path_hosts q)"
  shows "router (hc_method (query_call q)) (segments (query_call q)) = Some (query_route q, map encodeURIComponent (path_hosts q))"
proof (cases "path_hosts q")
  case Nil
  then have "static_route (query_route q)" "segments (query_call q) = snd (query_route q)" "hc_method (query_call q) = fst (query_route q)"
    by (cases q; simp add: segments_def api_defs fixed_split static_routes Let_def)+
  with router_static[OF assms(1) this(1)] Nil show ?thesis by simp
next
  case (Cons h hs)
  then have e: "CHR ''/'' \<notin> set (encodeURIComponent h)" "CHR ''.'' \<in> set (encodeURIComponent h)"
    using encoded_segment assms(2) by auto
  note seg = domain_segments[OF e(1), simplified]
  have "fitting (hc_method (query_call q)) (segments (query_call q)) = [(query_route q, map encodeURIComponent (path_hosts q))]"
    using Cons
    by (cases q) (simp_all add: segments_def api_defs seg fixed_segments fitting_host[OF e(2)] Let_def)
  with router_one[OF assms(1)] show ?thesis by blast
qed

lemma mutation_served:
  assumes "router_law router" and "list_all path_host (changed_path_hosts m)"
  shows "router (hc_method (mutation_call m)) (segments (mutation_call m)) =
    Some (mutation_route m, map encodeURIComponent (changed_path_hosts m))"
proof (cases "changed_path_hosts m")
  case Nil
  then have "static_route (mutation_route m)" "segments (mutation_call m) = snd (mutation_route m)" "hc_method (mutation_call m) = fst (mutation_route m)"
    by (cases m; simp add: segments_def api_defs fixed_split static_routes Let_def)+
  with router_static[OF assms(1) this(1)] Nil show ?thesis by simp
next
  case (Cons h hs)
  then have e: "CHR ''/'' \<notin> set (encodeURIComponent h)" "CHR ''.'' \<in> set (encodeURIComponent h)"
    using encoded_segment assms(2) by auto
  note seg = domain_segments[OF e(1), simplified]
  have "fitting (hc_method (mutation_call m)) (segments (mutation_call m)) = [(mutation_route m, map encodeURIComponent (changed_path_hosts m))]"
    using Cons
    by (cases m) (simp_all add: segments_def api_defs seg fixed_segments fitting_host[OF e(2)])
  with router_one[OF assms(1)] show ?thesis by blast
qed

subsection \<open>What the server reads from the body\<close>

text \<open>A member of the body that is a primitive, and one that is an array; every other body of the client has none.\<close>

definition body_field :: "string \<Rightarrow> json option \<Rightarrow> jsprim" where
  "body_field k b =
     (case b of
        Some (JObject fs) \<Rightarrow> (case map_of fs k of Some (JPrim v) \<Rightarrow> v | _ \<Rightarrow> Undef)
      | _ \<Rightarrow> Undef)"

definition body_list :: "string \<Rightarrow> json option \<Rightarrow> json list option" where
  "body_list k b =
     (case b of
        Some (JObject fs) \<Rightarrow> (case map_of fs k of Some (JArray xs) \<Rightarrow> Some xs | _ \<Rightarrow> None)
      | _ \<Rightarrow> None)"

fun json_prim :: "json \<Rightarrow> jsprim" where
  "json_prim (JPrim v) = v"
| "json_prim _ = Null"

definition read_post :: "json option \<Rightarrow> request" where
  "read_post b = RPost (body_field ''host'' b) (body_field ''origin'' b)"

definition read_bulk_add :: "json option \<Rightarrow> request" where
  "read_bulk_add b =
     RBulkAdd (map_option (map (\<lambda>x. if x = JPrim Null then None
                                     else Some (body_field ''host'' (Some x), body_field ''origin'' (Some x)))) (body_list ''domains'' b))"

definition read_bulk_delete :: "json option \<Rightarrow> request" where
  "read_bulk_delete b = RBulkDelete (map_option (map json_prim) (body_list ''hosts'' b))"

definition read_bulk_toggle :: "json option \<Rightarrow> request" where
  "read_bulk_toggle b = RBulkToggle (map_option (map json_prim) (body_list ''hosts'' b)) (body_field ''enabled'' b)"

definition read_put :: "string \<Rightarrow> json option \<Rightarrow> request" where
  "read_put raw b =
     RPut raw \<lparr>pb_origin = body_field ''origin'' b, pb_enabled = body_field ''enabled'' b,
       pb_description = body_field ''description'' b, pb_stale_if_error_secs = body_field ''stale_if_error_secs'' b,
       pb_coalesce_capacity = body_field ''coalesce_capacity'' b\<rparr>"

text \<open>The request of a write route, from the parameters of the path and the body.\<close>

definition read_request :: "route \<Rightarrow> string list \<Rightarrow> json option \<Rightarrow> request option" where
  "read_request r args b =
     (if r = (POST, [''api'', ''domains'']) then Some (read_post b)
      else if r = (POST, [''api'', ''domains'', ''bulk'']) then Some (read_bulk_add b)
      else if r = (DELETE, [''api'', ''domains'', ''bulk'']) then Some (read_bulk_delete b)
      else if r = (POST, [''api'', ''domains'', ''bulk-toggle'']) then Some (read_bulk_toggle b)
      else if r = at_domain PUT [] then Some (read_put (hd args) b)
      else if r = at_domain POST [''toggle''] then Some (RToggle (hd args))
      else if r = at_domain DELETE [] then Some (RDelete (hd args))
      else None)"

text \<open>The request of a change of the domains.\<close>

fun request_of :: "client_mutation \<Rightarrow> request option" where
  "request_of (MAdd h ori) = Some (RPost (Str h) (Str ori))"
| "request_of (MBulkAdd ds) = Some (RBulkAdd (Some (map (\<lambda>(h, ori). Some (Str h, Str ori)) ds)))"
| "request_of (MUpdate h b) = Some (RPut (encodeURIComponent h) b)"
| "request_of (MToggle h) = Some (RToggle (encodeURIComponent h))"
| "request_of (MBulkToggle hs b) = Some (RBulkToggle (Some (map Str hs)) (Bool b))"
| "request_of (MDelete h) = Some (RDelete (encodeURIComponent h))"
| "request_of (MBulkDelete hs) = Some (RBulkDelete (Some (map Str hs)))"
| "request_of _ = None"

lemmas read_defs = read_request_def read_post_def read_bulk_add_def read_bulk_delete_def read_bulk_toggle_def read_put_def
  body_field_def body_list_def

lemma request_read:
  "read_request (mutation_route m) (map encodeURIComponent (changed_path_hosts m)) (hc_body (mutation_call m)) = request_of m"
  by (cases m) (auto simp: read_defs api_defs split: prod.splits)

text \<open>A router that keeps the promises.\<close>

definition example_router :: "http_method \<Rightarrow> string list \<Rightarrow> (route \<times> string list) option" where
  "example_router m ws =
     (case filter (\<lambda>x. snd x = []) (fitting m ws) @ fitting m ws of [] \<Rightarrow> None | x # xs \<Rightarrow> Some x)"

lemma fits_static: "fits ps ws = Some [] \<Longrightarrow> ps = ws"
  by (induction ps ws rule: fits.induct) (auto split: if_splits)

lemma fitting_static: "x \<in> set (fitting m ws) \<Longrightarrow> snd x = [] \<Longrightarrow> x = ((m, ws), [])"
  by (auto simp: fitting_def List.map_filter_def fits_static split: if_splits)

lemma example_router_law: "router_law example_router"
  unfolding router_law_def
proof (intro allI conjI impI; (elim conjE)?)
  show "fitting m ws = [x] \<Longrightarrow> example_router m ws = Some x" for m ws x by (simp add: example_router_def)
  fix m ws x
  assume x: "x \<in> set (fitting m ws)" "snd x = []"
  then obtain y ys where y: "filter (\<lambda>x. snd x = []) (fitting m ws) = y # ys"
    by (cases "filter (\<lambda>x. snd x = []) (fitting m ws)") (auto simp: filter_empty_conv)
  then have "y \<in> set (filter (\<lambda>x. snd x = []) (fitting m ws))" by simp
  then have "y \<in> set (fitting m ws)" "snd y = []" by simp_all
  with fitting_static[of y] fitting_static[OF x] y show "example_router m ws = Some x" by (simp add: example_router_def)
qed



end
