(* ===== verification/Query_Cache.thy ===== *)
theory Query_Cache
  imports Domain_Promises Api_Client "HOL-Library.Sublist"
begin

section \<open>The web client: cached answers\<close>

text \<open>
  The hooks under \<open>hooks/\<close> that read from and write to the server through \<open>TanStack Query\<close>: the keys under
  which answers are kept, the keys each change of the domains declares stale, the intervals of polling and
  the retries. A key declared stale stands for every key it is a prefix of, which is what the library
  documents. Put beside the handlers of the server this says which answers the client may go on showing
  although the server would answer otherwise.
\<close>

subsection \<open>Keys\<close>

text \<open>A part of a key.\<close>

datatype key_part =
    KText string
  | KNum int
  | KNull
  | KFilter "page_filter option"
  | KRange string string
  | KLogs logs_query
  | KUrls string breakdown_params

text \<open>\<open>useProxyRequests\<close>: five seconds while there are entries, else by the number of answers so far.\<close>

definition proxy_interval :: "nat option \<Rightarrow> nat \<Rightarrow> int" where
  "proxy_interval entries updates =
     (if (case entries of None \<Rightarrow> False | Some n \<Rightarrow> 0 < n) then 5000
      else min 30000 (5000 * min 8 (max 1 (2 ^ (updates - 1)))))"

lemma proxy_interval_bounds: "5000 \<le> proxy_interval e n \<and> proxy_interval e n \<le> 30000"
  by (simp add: proxy_interval_def)

text \<open>The count is of all answers: after three answers with entries the first empty one gives the longest interval.\<close>

lemma proxy_interval_jumps: "4 \<le> n \<Longrightarrow> proxy_interval (Some 0) n = 30000"
proof -
  assume "4 \<le> n"
  then have "(2 :: int) ^ 3 \<le> 2 ^ (n - 1)" by (intro power_increasing) auto
  then show ?thesis by (simp add: proxy_interval_def)
qed

definition range_part :: "(string \<times> string) option \<Rightarrow> key_part" where
  "range_part r = (case r of None \<Rightarrow> KNull | Some (from, to) \<Rightarrow> KRange from to)"

text \<open>
  A hook that reads: the key, whether it fetches at all, and the interval of polling in milliseconds. A host is
  needed, and a custom period needs its range; the tabs of a domain choose the interval of the logs and the top URLs.
\<close>

record use_query =
  uq_key :: "key_part list"
  uq_enabled :: bool
  uq_interval :: "int option"

definition useDomains :: "page_filter option \<Rightarrow> use_query" where
  "useDomains f =
     \<lparr>uq_key = [KText ''domains'', KFilter f],
      uq_enabled = (True), uq_interval = Some 30000\<rparr>"

definition useDomainSummary :: use_query where
  "useDomainSummary =
     \<lparr>uq_key = [KText ''domains'', KText ''summary''],
      uq_enabled = True, uq_interval = Some 30000\<rparr>"

definition useDomain :: "string \<Rightarrow> use_query" where
  "useDomain h =
     \<lparr>uq_key = [KText ''domain'', KText h],
      uq_enabled = (h \<noteq> []), uq_interval = None\<rparr>"

definition useDomainHostSummary :: "string \<Rightarrow> use_query" where
  "useDomainHostSummary h =
     \<lparr>uq_key = [KText ''domain'', KText h, KText ''host-summary''],
      uq_enabled = (h \<noteq> []), uq_interval = Some 10000\<rparr>"

definition useDomainStats :: "string \<Rightarrow> string \<Rightarrow> (string \<times> string) option \<Rightarrow> use_query" where
  "useDomainStats h p r =
     \<lparr>uq_key = [KText ''domain'', KText h, KText ''stats'', KText p, range_part r],
      uq_enabled = (h \<noteq> [] \<and> (p \<noteq> ''custom'' \<or> r \<noteq> None)), uq_interval = None\<rparr>"

definition useDomainTopUrls :: "string \<Rightarrow> string \<Rightarrow> (string \<times> string) option \<Rightarrow> int option \<Rightarrow> use_query" where
  "useDomainTopUrls h p r ms =
     \<lparr>uq_key = [KText ''domain'', KText h, KText ''top-urls'', KText p, range_part r],
      uq_enabled = (h \<noteq> [] \<and> (p \<noteq> ''custom'' \<or> r \<noteq> None)), uq_interval = (if ms = Some 0 then None else ms)\<rparr>"

definition useDomainLogs :: "string \<Rightarrow> logs_query \<Rightarrow> int option \<Rightarrow> use_query" where
  "useDomainLogs h opts ms =
     \<lparr>uq_key = [KText ''domain'', KText h, KText ''logs'', KLogs opts],
      uq_enabled = (h \<noteq> [] \<and> (gq_period opts \<noteq> Some ''custom'' \<or> gq_from opts \<noteq> None \<and> gq_to opts \<noteq> None)), uq_interval = (if ms = Some 0 then None else ms)\<rparr>"

definition useDomainUrlOptimization :: "string \<Rightarrow> breakdown_params \<Rightarrow> use_query" where
  "useDomainUrlOptimization h ps =
     \<lparr>uq_key = [KText ''domain'', KText h, KText ''url-optimization'', KUrls h ps],
      uq_enabled = (True), uq_interval = None\<rparr>"

definition useTextCompressStats :: "string \<Rightarrow> string \<Rightarrow> use_query" where
  "useTextCompressStats h p =
     \<lparr>uq_key = [KText ''domain'', KText h, KText ''text-compress-stats'', KText p],
      uq_enabled = (True), uq_interval = None\<rparr>"

definition useCacheStats :: use_query where
  "useCacheStats =
     \<lparr>uq_key = [KText ''cache'', KText ''stats''],
      uq_enabled = True, uq_interval = Some 10000\<rparr>"

definition useCachePopular :: use_query where
  "useCachePopular =
     \<lparr>uq_key = [KText ''cache'', KText ''popular''],
      uq_enabled = True, uq_interval = Some 10000\<rparr>"

definition useCacheSeries :: "string \<Rightarrow> string option \<Rightarrow> use_query" where
  "useCacheSeries rng h =
     \<lparr>uq_key = [KText ''cache'', KText ''series'', KText rng, case h of None \<Rightarrow> KNull | Some x \<Rightarrow> KText x],
      uq_enabled = (True), uq_interval = Some 10000\<rparr>"

definition useCertificates :: use_query where
  "useCertificates =
     \<lparr>uq_key = [KText ''tls'', KText ''certificates''],
      uq_enabled = True, uq_interval = Some 30000\<rparr>"

definition useDomainTls :: "string \<Rightarrow> use_query" where
  "useDomainTls h =
     \<lparr>uq_key = [KText ''tls'', KText ''cert'', KText h],
      uq_enabled = (h \<noteq> []), uq_interval = Some 60000\<rparr>"

definition useDnsStatus :: use_query where
  "useDnsStatus =
     \<lparr>uq_key = [KText ''dns'', KText ''status''],
      uq_enabled = True, uq_interval = Some 5000\<rparr>"

definition useDnsRecords :: use_query where
  "useDnsRecords =
     \<lparr>uq_key = [KText ''dns'', KText ''records''],
      uq_enabled = True, uq_interval = Some 30000\<rparr>"

definition useDnsQueries :: "int \<Rightarrow> use_query" where
  "useDnsQueries n =
     \<lparr>uq_key = [KText ''dns'', KText ''queries'', KNum n],
      uq_enabled = (True), uq_interval = Some 5000\<rparr>"

definition useDnsMetrics :: "string \<Rightarrow> use_query" where
  "useDnsMetrics rng =
     \<lparr>uq_key = [KText ''dns'', KText ''metrics'', KText rng],
      uq_enabled = (True), uq_interval = Some 10000\<rparr>"

definition useOptimizationStats :: use_query where
  "useOptimizationStats =
     \<lparr>uq_key = [KText ''optimizer'', KText ''stats''],
      uq_enabled = True, uq_interval = Some 30000\<rparr>"

definition useOptimizerProfiles :: use_query where
  "useOptimizerProfiles =
     \<lparr>uq_key = [KText ''optimizer'', KText ''profiles''],
      uq_enabled = True, uq_interval = None\<rparr>"

definition useOptimizerProfile :: "string \<Rightarrow> use_query" where
  "useOptimizerProfile h =
     \<lparr>uq_key = [KText ''optimizer'', KText ''profile'', KText h],
      uq_enabled = (h \<noteq> []), uq_interval = None\<rparr>"

definition useDomainOptimization :: "string \<Rightarrow> use_query" where
  "useDomainOptimization h =
     \<lparr>uq_key = [KText ''optimization'', KText ''stats'', KText h],
      uq_enabled = (h \<noteq> []), uq_interval = None\<rparr>"

definition useProxyStatus :: use_query where
  "useProxyStatus =
     \<lparr>uq_key = [KText ''proxy'', KText ''status''],
      uq_enabled = True, uq_interval = Some 5000\<rparr>"

definition useProxyRequests :: "nat option \<Rightarrow> nat \<Rightarrow> use_query" where
  "useProxyRequests entries updates =
     \<lparr>uq_key = [KText ''proxy'', KText ''requests''],
      uq_enabled = (True), uq_interval = Some (proxy_interval entries updates)\<rparr>"

definition useSystemStatus :: use_query where
  "useSystemStatus =
     \<lparr>uq_key = [KText ''system'', KText ''status''],
      uq_enabled = True, uq_interval = Some 10000\<rparr>"

definition useDomainDiagnose :: "string \<Rightarrow> string \<Rightarrow> string \<Rightarrow> string \<Rightarrow> use_query" where
  "useDomainDiagnose h path qs rng =
     \<lparr>uq_key = [KText ''domain-diagnose'', KText h, KText path, KText qs, KText rng],
      uq_enabled = (h \<noteq> [] \<and> starts_with ''/'' path), uq_interval = None\<rparr>"

text \<open>
  The hook of a query, with the interval the tab has chosen and the recent requests shown: how many there are, and
  how many answers there have been.
\<close>

record polling =
  po_tab :: "int option"
  po_entries :: "nat option"
  po_updates :: nat

fun hook_of :: "polling \<Rightarrow> query \<Rightarrow> use_query" where
  "hook_of po (QDomains f) = useDomains f"
| "hook_of po QSummary = useDomainSummary"
| "hook_of po (QDomain h) = useDomain h"
| "hook_of po (QHostSummary h) = useDomainHostSummary h"
| "hook_of po (QStats h p r) = useDomainStats h p r"
| "hook_of po (QTopUrls h p r) = useDomainTopUrls h p r (po_tab po)"
| "hook_of po (QLogs h opts) = useDomainLogs h opts (po_tab po)"
| "hook_of po (QUrls h ps) = useDomainUrlOptimization h ps"
| "hook_of po (QTextCompress h p) = useTextCompressStats h p"
| "hook_of po QCacheStats = useCacheStats"
| "hook_of po QCachePopular = useCachePopular"
| "hook_of po (QCacheSeries rng h) = useCacheSeries rng h"
| "hook_of po QCertificates = useCertificates"
| "hook_of po (QCert h) = useDomainTls h"
| "hook_of po QDnsStatus = useDnsStatus"
| "hook_of po QDnsRecords = useDnsRecords"
| "hook_of po (QDnsQueries n) = useDnsQueries n"
| "hook_of po (QDnsMetrics rng) = useDnsMetrics rng"
| "hook_of po QOptimizerStats = useOptimizationStats"
| "hook_of po QOptimizerProfiles = useOptimizerProfiles"
| "hook_of po (QOptimizerProfile h) = useOptimizerProfile h"
| "hook_of po (QOptimization h) = useDomainOptimization h"
| "hook_of po QProxyStatus = useProxyStatus"
| "hook_of po QProxyRequests = useProxyRequests (po_entries po) (po_updates po)"
| "hook_of po QSystemStatus = useSystemStatus"
| "hook_of po (QDiagnose h path qs rng) = useDomainDiagnose h path qs rng"

lemmas hook_defs = useDomains_def useDomainSummary_def useDomain_def useDomainHostSummary_def useDomainStats_def
  useDomainTopUrls_def useDomainLogs_def useDomainUrlOptimization_def useTextCompressStats_def useCacheStats_def
  useCachePopular_def useCacheSeries_def useCertificates_def useDomainTls_def useDnsStatus_def useDnsRecords_def
  useDnsQueries_def useDnsMetrics_def useOptimizationStats_def useOptimizerProfiles_def useOptimizerProfile_def
  useDomainOptimization_def useProxyStatus_def useProxyRequests_def useSystemStatus_def useDomainDiagnose_def

definition queryKey :: "query \<Rightarrow> key_part list" where
  "queryKey q = uq_key (hook_of \<lparr>po_tab = None, po_entries = None, po_updates = 0\<rparr> q)"

lemma queryKey_simps [simp]:
  "queryKey (QDomains f) = [KText ''domains'', KFilter f]"
  "queryKey (QSummary) = [KText ''domains'', KText ''summary'']"
  "queryKey (QDomain h) = [KText ''domain'', KText h]"
  "queryKey (QHostSummary h) = [KText ''domain'', KText h, KText ''host-summary'']"
  "queryKey (QStats h p r) = [KText ''domain'', KText h, KText ''stats'', KText p, range_part r]"
  "queryKey (QTopUrls h p r) = [KText ''domain'', KText h, KText ''top-urls'', KText p, range_part r]"
  "queryKey (QLogs h opts) = [KText ''domain'', KText h, KText ''logs'', KLogs opts]"
  "queryKey (QUrls h ps) = [KText ''domain'', KText h, KText ''url-optimization'', KUrls h ps]"
  "queryKey (QTextCompress h p) = [KText ''domain'', KText h, KText ''text-compress-stats'', KText p]"
  "queryKey (QCacheStats) = [KText ''cache'', KText ''stats'']"
  "queryKey (QCachePopular) = [KText ''cache'', KText ''popular'']"
  "queryKey (QCacheSeries rng ho) = [KText ''cache'', KText ''series'', KText rng, case ho of None \<Rightarrow> KNull | Some x \<Rightarrow> KText x]"
  "queryKey (QCertificates) = [KText ''tls'', KText ''certificates'']"
  "queryKey (QCert h) = [KText ''tls'', KText ''cert'', KText h]"
  "queryKey (QDnsStatus) = [KText ''dns'', KText ''status'']"
  "queryKey (QDnsRecords) = [KText ''dns'', KText ''records'']"
  "queryKey (QDnsQueries n) = [KText ''dns'', KText ''queries'', KNum n]"
  "queryKey (QDnsMetrics rng) = [KText ''dns'', KText ''metrics'', KText rng]"
  "queryKey (QOptimizerStats) = [KText ''optimizer'', KText ''stats'']"
  "queryKey (QOptimizerProfiles) = [KText ''optimizer'', KText ''profiles'']"
  "queryKey (QOptimizerProfile h) = [KText ''optimizer'', KText ''profile'', KText h]"
  "queryKey (QOptimization h) = [KText ''optimization'', KText ''stats'', KText h]"
  "queryKey (QProxyStatus) = [KText ''proxy'', KText ''status'']"
  "queryKey (QProxyRequests) = [KText ''proxy'', KText ''requests'']"
  "queryKey (QSystemStatus) = [KText ''system'', KText ''status'']"
  "queryKey (QDiagnose h path qs rng) = [KText ''domain-diagnose'', KText h, KText path, KText qs, KText rng]"
  by (simp_all add: queryKey_def hook_defs)

text \<open>
  Two hooks with the same key ask for the same: the answer kept under a key is the answer to the request of every
  hook that reads it.
\<close>

lemma key_determines_query: "queryKey q = queryKey q' \<Longrightarrow> q = q'"
  by (cases q; cases q') (auto simp: range_part_def split: option.splits)

subsection \<open>Retries and changes under way\<close>

text \<open>The status of an error, where it has a response; \<open>useDomain\<close> gives up at once on 404 alone.\<close>

definition isNotFoundError :: "int option \<Rightarrow> bool" where
  "isNotFoundError status = (status = Some 404)"

definition domain_retry :: "nat \<Rightarrow> int option \<Rightarrow> bool" where
  "domain_retry failureCount status = (\<not> isNotFoundError status \<and> failureCount < 3)"

text \<open>\<open>usePendingPurgeHosts\<close> and \<open>usePendingToggleHosts\<close>: the hosts of the changes still under way.\<close>

definition pending_hosts :: "(bool \<times> string option) list \<Rightarrow> string set" where
  "pending_hosts ms = set (List.map_filter (\<lambda>(pend, v). if pend then v else None) ms)"

subsection \<open>Changes and what they declare stale\<close>

text \<open>The keys that each hook for a change declares stale when the change succeeds.\<close>

definition useAddDomain :: "string list list" where
  "useAddDomain = [[''domains''], [''tls''], [''dns''], [''cache'', ''popular''], [''cache'', ''stats'']]"

definition useBulkAddDomains :: "string list list" where
  "useBulkAddDomains = [[''domains''], [''tls''], [''dns''], [''cache'', ''popular''], [''cache'', ''stats'']]"

definition useDeleteDomain :: "string list list" where
  "useDeleteDomain = [[''domains''], [''tls''], [''dns''], [''cache'', ''popular''], [''cache'', ''stats'']]"

definition useBulkDeleteDomains :: "string list list" where
  "useBulkDeleteDomains = [[''domains''], [''tls''], [''dns''], [''cache'', ''popular''], [''cache'', ''stats'']]"

definition useUpdateDomain :: "string \<Rightarrow> string list list" where
  "useUpdateDomain host = [[''domains''], [''domain'', host]]"

definition useToggleDomain :: "string \<Rightarrow> string list list" where
  "useToggleDomain host = [[''domains''], [''domain'', host]]"

definition usePurgeDomain :: "string \<Rightarrow> string list list" where
  "usePurgeDomain host = 
     [[''cache'', ''popular''], [''cache'', ''stats''], [''cache'', ''series''], [''domain'', host]]"

definition usePurgeCache :: "string \<Rightarrow> string option \<Rightarrow> string list list" where
  "usePurgeCache typ target = 
     [[''cache'', ''stats''], [''cache'', ''popular''], [''cache'', ''series''], [''domains'', ''summary'']] @
     (case target of
        None \<Rightarrow> []
      | Some h \<Rightarrow> if typ = ''domain'' \<and> h \<noteq> [] then [[''domain'', h]] else [])"

definition useSyncDomain :: "string \<Rightarrow> string list list" where
  "useSyncDomain host = [[''domain'', host], [''domains''], [''tls''], [''dns'']]"

definition useTestProxy :: "string list list" where
  "useTestProxy = 
     [[''proxy'', ''status''], [''proxy'', ''requests''], [''cache'', ''stats''], [''cache'', ''popular''], [''cache'', ''series'']]"

definition useTlsRenew :: "string list list" where
  "useTlsRenew = [[''tls'']]"

definition useUpdateOptimizerProfile :: "string list list" where
  "useUpdateOptimizerProfile = [[''optimizer'']]"

text \<open>The two changes of many domains that the page of the domains makes itself.\<close>

definition bulkToggleMutation :: "string list list" where
  "bulkToggleMutation = [[''domains''], [''domains'', ''summary'']]"

definition bulkPurgeMutation :: "string list list" where
  "bulkPurgeMutation = [[''cache'']]"

text \<open>The dialog that tests the proxy sends its request itself, not through \<open>useTestProxy\<close>: it declares nothing stale.\<close>

fun invalidates :: "client_mutation \<Rightarrow> string list list" where
  "invalidates (MAdd h ori) = useAddDomain"
| "invalidates (MBulkAdd ds) = useBulkAddDomains"
| "invalidates (MUpdate h b) = useUpdateDomain h"
| "invalidates (MToggle h) = useToggleDomain h"
| "invalidates (MBulkToggle hs b) = bulkToggleMutation"
| "invalidates (MDelete h) = useDeleteDomain"
| "invalidates (MBulkDelete hs) = useBulkDeleteDomains"
| "invalidates (MPurgeDomain h) = usePurgeDomain h"
| "invalidates (MBulkPurge hs) = bulkPurgeMutation"
| "invalidates (MPurgeCache typ target) = usePurgeCache typ target"
| "invalidates (MSync h) = useSyncDomain h"
| "invalidates (MTestProxy h path protocol) = []"
| "invalidates (MTlsRenew h) = useTlsRenew"
| "invalidates (MProfile h quality width b) = useUpdateOptimizerProfile"

lemmas stale_defs = useAddDomain_def useBulkAddDomains_def useDeleteDomain_def useBulkDeleteDomains_def useUpdateDomain_def
  useToggleDomain_def usePurgeDomain_def usePurgeCache_def useSyncDomain_def useTestProxy_def useTlsRenew_def
  useUpdateOptimizerProfile_def bulkToggleMutation_def bulkPurgeMutation_def

definition invalidated :: "client_mutation \<Rightarrow> query \<Rightarrow> bool" where
  "invalidated m q = (\<exists>k \<in> set (invalidates m). prefix (map KText k) (queryKey q))"

subsection \<open>What the server would answer\<close>

text \<open>
  The answer to a query that the server computes from its database: \<open>env\<close> has the time, the bucket expression
  and the text parser of the statistics, and the logs of the proxy. Queries of the services are not here.
\<close>

record answer_env =
  en_now :: int
  en_bucket :: "int \<Rightarrow> int \<Rightarrow> rat"
  en_parse :: "string \<Rightarrow> int option"
  en_table :: "access_logs option"
  en_proxy :: "proxy_log list option"

datatype server_answer =
    ADomains "domains reply"
  | AOne "body reply"
  | AHost "host_summary reply"
  | AStats "Domain_Query.host_stats reply"
  | ATop "(string \<times> nat) list reply"
  | ALogs "log_row list reply"
  | AUrls "(nat \<times> breakdown_item list) reply"
  | AText "(int option \<times> int \<times> decision_stats list) reply"
  | AService

definition no_filter :: page_filter where
  "no_filter = \<lparr>cf_q = None, cf_enabled = None, cf_sort = None, cf_order = None\<rparr>"

fun answer :: "answer_env \<Rightarrow> query \<Rightarrow> conn \<Rightarrow> server_answer" where
  "answer en (QDomains f) c = ADomains (list_domains (domains_query (or_else f no_filter)) (t_domains (c_db c)))"
| "answer en (QDomain h) c = AOne (get_one (encodeURIComponent h) c)"
| "answer en (QHostSummary h) c = AHost (get_host_summary (en_now en) (encodeURIComponent h) (c_db c))"
| "answer en (QStats h p r) c =
     AStats (get_host_stats (en_bucket en) (en_now en) (encodeURIComponent h) (Some p)
       (if p = ''custom'' then map_option fst r else None) (if p = ''custom'' then map_option snd r else None) (c_db c))"
| "answer en (QTopUrls h p r) c =
     ATop (get_top_urls (en_parse en) (en_table en) (en_proxy en) (en_now en) (encodeURIComponent h) None (Some p)
       (if p = ''custom'' then map_option fst r else None) (if p = ''custom'' then map_option snd r else None))"
| "answer en (QLogs h opts) c =
     ALogs (get_logs (en_parse en) (en_table en) (en_proxy en) (en_now en) (encodeURIComponent h) opts (c_db c))"
| "answer en (QUrls h ps) c = AUrls (get_url_breakdown (en_now en) (encodeURIComponent h) ps (t_events (c_db c)))"
| "answer en (QTextCompress h p) c =
     AText (get_event_stats (en_now en) (Some ''text_compress'') (Some h) (Some p) (t_events (c_db c)))"
| "answer en _ c = AService"

fun query_host :: "query \<Rightarrow> string option" where
  "query_host (QDomain h) = Some h"
| "query_host (QHostSummary h) = Some h"
| "query_host (QStats h p r) = Some h"
| "query_host (QTopUrls h p r) = Some h"
| "query_host (QLogs h opts) = Some h"
| "query_host (QUrls h ps) = Some h"
| "query_host (QTextCompress h p) = Some h"
| "query_host _ = None"

text \<open>Only an answer of success is kept and shown.\<close>

fun is_ok :: "'a reply \<Rightarrow> bool" where
  "is_ok (Ok n x) = True"
| "is_ok _ = False"

fun good_answer :: "server_answer \<Rightarrow> bool" where
  "good_answer (ADomains r) = is_ok r"
| "good_answer (AOne r) = is_ok r"
| "good_answer (AHost r) = is_ok r"
| "good_answer (AStats r) = is_ok r"
| "good_answer (ATop r) = is_ok r"
| "good_answer (ALogs r) = is_ok r"
| "good_answer (AUrls r) = is_ok r"
| "good_answer (AText r) = is_ok r"
| "good_answer AService = True"

subsection \<open>An answer about a host rests on what the tables have of the host\<close>

definition host_view :: "db \<Rightarrow> string \<Rightarrow> domain option \<times> stats \<times> event list" where
  "host_view s h =
     (findByHost (t_domains s) h, filter (\<lambda>r. st_host r = h) (t_stats s), filter (\<lambda>v. e_host v = h) (ev_rows (t_events s)))"

lemma host_param_encode: "normalizeHost h = h \<Longrightarrow> host_param (encodeURIComponent h) = Some h"
  by (simp add: host_param_def host_in_path_roundtrip)

lemma summary_of_rows: "getSummaryForHost now h t = getSummaryForHost now h (filter (\<lambda>r. st_host r = h) t)"
  by (simp add: getSummaryForHost_def hourly_host_def filter_filter conj_ac Let_def)

lemma window_of_rows: "filter (in_window h a b) t = filter (in_window h a b) (filter (\<lambda>r. st_host r = h) t)"
  by (auto simp: filter_filter in_window_def intro!: filter_cong)

lemma stats_of_rows: "getStats bucket now h p rng t = getStats bucket now h p rng (filter (\<lambda>r. st_host r = h) t)"
  unfolding getStats_def stats_rows_def by (subst (1 2) window_of_rows) (rule refl)

lemma breakdown_of_rows:
  "filter (breakdown_matches now q) t = filter (breakdown_matches now q) (filter (\<lambda>v. e_host v = bq_host q) t)"
  by (auto simp: filter_filter breakdown_matches_def intro!: filter_cong)

lemma text_of_rows:
  "sq_host q = Some h \<Longrightarrow> h \<noteq> [] \<Longrightarrow>
     filter (stats_query_matches now q) t = filter (stats_query_matches now q) (filter (\<lambda>v. e_host v = h) t)"
  by (auto simp: filter_filter stats_query_matches_def opt_eq_def intro!: filter_cong)

lemma breakdown_view:
  "filter (\<lambda>v. e_host v = bq_host q) (ev_rows s) = filter (\<lambda>v. e_host v = bq_host q) (ev_rows s') \<Longrightarrow>
     urlBreakdown now q s = urlBreakdown now q s'"
  unfolding urlBreakdown_def by (metis breakdown_of_rows)

lemma text_view:
  "sq_host q = Some h \<Longrightarrow> h \<noteq> [] \<Longrightarrow> filter (\<lambda>v. e_host v = h) (ev_rows s) = filter (\<lambda>v. e_host v = h) (ev_rows s') \<Longrightarrow>
     statsByDecision now q s = statsByDecision now q s'"
  unfolding statsByDecision_def by (metis text_of_rows)

lemma answer_view:
  assumes "query_host q = Some h" and "normalizeHost h = h" and "h \<noteq> []"
    and "host_view (c_db c) h = host_view (c_db c') h"
  shows "answer en q c = answer en q c'"
proof -
  have v: "findByHost (t_domains (c_db c)) h = findByHost (t_domains (c_db c')) h"
    "filter (\<lambda>r. st_host r = h) (t_stats (c_db c)) = filter (\<lambda>r. st_host r = h) (t_stats (c_db c'))"
    "filter (\<lambda>v. e_host v = h) (ev_rows (t_events (c_db c))) = filter (\<lambda>v. e_host v = h) (ev_rows (t_events (c_db c')))"
    using assms(4) by (simp_all add: host_view_def)
  note p = host_param_encode[OF assms(2)]
  have sm: "getSummaryForHost now h (t_stats (c_db c)) = getSummaryForHost now h (t_stats (c_db c'))" for now
    using summary_of_rows v(2) by metis
  have st: "getStats b now h x rng (t_stats (c_db c)) = getStats b now h x rng (t_stats (c_db c'))" for b now x rng
    using stats_of_rows v(2) by metis
  have br: "bq_host x = h \<Longrightarrow> urlBreakdown now x (t_events (c_db c)) = urlBreakdown now x (t_events (c_db c'))" for now x
    using breakdown_view[of x] v(3) by blast
  have ur: "get_url_breakdown now (encodeURIComponent h) ps (t_events (c_db c)) =
      get_url_breakdown now (encodeURIComponent h) ps (t_events (c_db c'))" for now ps
    unfolding get_url_breakdown_def p option.case Let_def by (simp add: br split: option.split period_value.split)
  have nq: "normalizeHostQuery (Some h) = Some h"
    using assms(2,3) by (simp add: normalizeHostQuery_def normalizeHost_def Let_def)
  have tx: "get_event_stats now ty (Some h) pd (t_events (c_db c)) = get_event_stats now ty (Some h) pd (t_events (c_db c'))"
    for now ty pd
    unfolding get_event_stats_def nq by (simp add: Let_def text_view[OF _ assms(3) v(3)] split: period_value.split)
  have hs: "get_host_stats b now (encodeURIComponent h) pd fr to (c_db c) = get_host_stats b now (encodeURIComponent h) pd fr to (c_db c')"
    for b now pd fr to
    by (simp only: get_host_stats_def p option.case v(1) st)
  show ?thesis
    using assms(1) by (cases q) (auto simp: p v(1) sm hs ur tx get_one_def get_host_summary_def get_logs_def)
qed


subsection \<open>What a change leaves alone\<close>

fun mutation_hosts :: "client_mutation \<Rightarrow> string list" where
  "mutation_hosts (MAdd h ori) = [h]"
| "mutation_hosts (MBulkAdd ds) = map fst ds"
| "mutation_hosts (MUpdate h b) = [h]"
| "mutation_hosts (MToggle h) = [h]"
| "mutation_hosts (MBulkToggle hs b) = hs"
| "mutation_hosts (MDelete h) = [h]"
| "mutation_hosts (MBulkDelete hs) = hs"
| "mutation_hosts _ = []"

definition normal_hosts :: "client_mutation \<Rightarrow> bool" where
  "normal_hosts m = list_all (\<lambda>h. normalizeHost h = h) (mutation_hosts m)"

lemma find_update_other: "k \<noteq> h \<Longrightarrow> findByHost (fst (update now h p t)) k = findByHost t k"
  using domain_rows.modify_frame[of "\<lambda>d. (apply_patch p d)\<lparr>d_updated_at := now\<rparr>" k h t]
  by (cases "p = empty_patch") (simp_all add: update_rows update_empty_rows apply_patch_def)

lemma find_toggle_other: "k \<noteq> h \<Longrightarrow> findByHost (fst (toggleEnabled now h t)) k = findByHost t k"
  using domain_rows.modify_frame[of "\<lambda>d. d\<lparr>d_enabled := (if d_enabled d = 1 then 0 else 1), d_updated_at := now\<rparr>" k h t]
  by (simp add: toggle_rows)

lemma find_bulk_toggle_other:
  "bulk_toggle_loop now v hs t ok failed = (t', ok', failed') \<Longrightarrow> k \<notin> set hs \<Longrightarrow> findByHost t' k = findByHost t k"
proof (induction now v hs t ok failed rule: bulk_toggle_loop.induct)
  case (2 now v h hs t ok failed)
  then show ?case
    using find_update_other[of k h now "empty_patch\<lparr>p_enabled := Some v\<rparr>" t]
    by (auto split: option.splits prod.splits)
qed simp

lemma find_append_other: "k \<notin> set (map d_host new) \<Longrightarrow> findByHost (t @ new) k = findByHost t k"
  by (induction t) (auto simp: findByHost_def find_None_iff)

lemma find_append_old: "findByHost t k \<noteq> None \<Longrightarrow> findByHost (t @ new) k = findByHost t k"
  by (induction t) (auto simp: findByHost_def)

lemma find_filter_other: "(\<And>d. d_host d = k \<Longrightarrow> P d) \<Longrightarrow> findByHost (filter P t) k = findByHost t k"
  by (induction t) (auto simp: findByHost_def)

lemma filter_kept: "(\<And>x. f x = k \<Longrightarrow> P x) \<Longrightarrow> filter (\<lambda>x. P x \<and> f x = k) t = filter (\<lambda>x. f x = k) t"
  by (induction t) auto

lemma run_pending:
  assumes "run w req c = (c', r, e)" and "status_of r < 400"
  shows "\<exists>c1 p e'. begin_req w req c = (c1, Inr p) \<and> finish_req w p True c1 = (c', r, e')"
proof -
  obtain c1 x where b: "begin_req w req c = (c1, x)" by fastforce
  with assms begin_rejects[of w req c c1] obtain p where x: "x = Inr p" by (cases x) (auto simp: run_def)
  with assms b obtain e' where f: "finish_req w p (w_proxy_ok w) c1 = (c', r, e')"
    by (auto simp: run_def syncToProxy_def Let_def split: prod.splits)
  with finish_success[OF f] assms(2) b x show ?thesis by (cases "w_proxy_ok w") auto
qed

text \<open>The routes without a transaction write the table of domains alone.\<close>

lemma run_plain:
  assumes "run w req c = (c', r, e)" and "status_of r < 400"
    and "(\<exists>ds. req = RBulkAdd ds) \<or> (\<exists>hs v. req = RBulkToggle hs v) \<or> (\<exists>h b. req = RPut h b) \<or> (\<exists>h. req = RToggle h)"
  shows "t_stats (c_db c') = t_stats (c_db c) \<and> t_events (c_db c') = t_events (c_db c)"
  using run_pending[OF assms(1,2)] assms(3)
  by (auto simp: bulk_add_begin_def bulk_add_finish_def bulk_toggle_begin_def bulk_toggle_finish_def put_begin_def
      put_finish_def toggle_begin_def toggle_finish_def reject_def Let_def on_domains_def
      split: option.splits if_splits prod.splits jsprim.splits sum.splits)

lemma run_put_others:
  assumes "run w (RPut raw b) c = (c', r, e)" and "status_of r < 400" and "host_param raw = Some h" and "k \<noteq> h"
  shows "findByHost (t_domains (c_db c')) k = findByHost (t_domains (c_db c)) k"
proof -
  have u: "findByHost t k = findByHost (t_domains (c_db c)) k"
    if "update (w_now w) h p (t_domains (c_db c)) = (t, y)" for p t y
    using find_update_other[OF assms(4), of "w_now w" p "t_domains (c_db c)"] that by simp
  show ?thesis
    using run_pending[OF assms(1,2)] assms(3)
    by (auto simp: put_begin_def put_finish_def reject_def split: option.splits if_splits prod.splits sum.splits dest: u)
qed

lemma run_toggle_others:
  assumes "run w (RToggle raw) c = (c', r, e)" and "status_of r < 400" and "host_param raw = Some h" and "k \<noteq> h"
  shows "findByHost (t_domains (c_db c')) k = findByHost (t_domains (c_db c)) k"
proof -
  have u: "findByHost t k = findByHost (t_domains (c_db c)) k"
    if "toggleEnabled (w_now w) h (t_domains (c_db c)) = (t, y)" for t y
    using find_toggle_other[OF assms(4), of "w_now w" "t_domains (c_db c)"] that by simp
  show ?thesis
    using run_pending[OF assms(1,2)] assms(3)
    by (auto simp: toggle_begin_def toggle_finish_def reject_def split: option.splits if_splits prod.splits dest: u)
qed

lemma run_bulk_toggle_others:
  assumes "run w (RBulkToggle (Some raw) v) c = (c', r, e)" and "status_of r < 400"
    and "k \<notin> set (map (normalizeHost \<circ> str_of) raw)"
  shows "findByHost (t_domains (c_db c')) k = findByHost (t_domains (c_db c)) k"
proof -
  have u: "findByHost t k = findByHost (t_domains (c_db c)) k"
    if "bulk_toggle_loop (w_now w) x (map (normalizeHost \<circ> str_of) raw) (t_domains (c_db c)) [] [] = (t, y)" for x t y
    using find_bulk_toggle_other[of _ _ _ _ _ _ t] that assms(3) by (cases y) blast
  show ?thesis
    using run_pending[OF assms(1,2)]
    by (auto simp: bulk_toggle_begin_def bulk_toggle_finish_def reject_def Let_def
        split: option.splits if_splits prod.splits jsprim.splits dest: u)
qed


lemma mutation_frame:
  assumes "request_of m = Some req" and "run w req c = (c', r, e)" and "status_of r < 400" and "normal_hosts m"
    and "distinct (hosts_of (t_domains (c_db c)))" and "k \<notin> set (mutation_hosts m)"
  shows "host_view (c_db c') k = host_view (c_db c) k"
proof (cases m)
  case (MAdd h ori)
  then show ?thesis
    using run_post_created[of w h ori c c' r e] assms by (auto simp: host_view_def normal_hosts_def)
next
  case (MBulkAdd ds)
  let ?items = "map (\<lambda>(h, ori). Some (Str h, Str ori)) ds"
  have r: "run w (RBulkAdd (Some ?items)) c = (c', r, e)" using assms(1,2) MBulkAdd by simp
  obtain res new where n: "t_domains (c_db c') = t_domains (c_db c) @ new"
    "map d_host new = added_hosts res (map (normalizeHost \<circ> str_of \<circ> fst \<circ> the) ?items)"
    using run_bulk_add_created[OF r assms(3)] by auto
  have "map (normalizeHost \<circ> str_of \<circ> fst \<circ> the) ?items = map fst ds"
    using assms(4) MBulkAdd by (auto simp: normal_hosts_def list_all_iff)
  with n assms(6) MBulkAdd have "k \<notin> set (map d_host new)" by (auto simp: added_hosts_def)
  then show ?thesis using run_plain[OF r assms(3)] n(1) find_append_other[of k new] by (simp add: host_view_def)
next
  case (MUpdate h b)
  then have r: "run w (RPut (encodeURIComponent h) b) c = (c', r, e)" using assms(1,2) by simp
  have "host_param (encodeURIComponent h) = Some h" using assms(4) MUpdate by (simp add: normal_hosts_def host_param_encode)
  from run_put_others[OF r assms(3) this, of k] run_plain[OF r assms(3)] assms(6) MUpdate show ?thesis
    by (simp add: host_view_def)
next
  case (MToggle h)
  then have r: "run w (RToggle (encodeURIComponent h)) c = (c', r, e)" using assms(1,2) by simp
  have "host_param (encodeURIComponent h) = Some h" using assms(4) MToggle by (simp add: normal_hosts_def host_param_encode)
  from run_toggle_others[OF r assms(3) this, of k] run_plain[OF r assms(3)] assms(6) MToggle show ?thesis
    by (simp add: host_view_def)
next
  case (MBulkToggle hs b)
  then have r: "run w (RBulkToggle (Some (map Str hs)) (Bool b)) c = (c', r, e)" using assms(1,2) by simp
  have "normalizeHost ` set hs = set hs"
    using assms(4) MBulkToggle by (simp add: normal_hosts_def list_all_iff cong: image_cong)
  with run_bulk_toggle_others[OF r assms(3), of k] run_plain[OF r assms(3)] assms(6) MBulkToggle show ?thesis
    by (simp add: host_view_def)
next
  case (MDelete h)
  then have r: "run w (RDelete (encodeURIComponent h)) c = (c', r, e)" using assms(1,2) by simp
  have "host_param (encodeURIComponent h) = Some h" using assms(4) MDelete by (simp add: normal_hosts_def host_param_encode)
  with run_delete_done[OF r assms(3)] obtain log where "c' = c\<lparr>c_db := (without_host h (c_db c))\<lparr>t_audit := log\<rparr>\<rparr>" by auto
  then show ?thesis
    using assms(6) MDelete by (simp add: host_view_def without_host_def filter_kept find_filter_other)
next
  case (MBulkDelete hs)
  then have r: "run w (RBulkDelete (Some (map Str hs))) c = (c', r, e)" using assms(1,2) by simp
  have "set (map (normalizeHost \<circ> str_of) (map Str hs)) = set hs"
    using assms(4) MBulkDelete by (simp add: normal_hosts_def list_all_iff cong: image_cong)
  with run_bulk_delete_done[OF r assms(3,5)] have
    "t_domains (c_db c') = filter (\<lambda>d. d_host d \<notin> set hs) (t_domains (c_db c))"
    "t_stats (c_db c') = filter (\<lambda>x. st_host x \<notin> set hs) (t_stats (c_db c))"
    "ev_rows (t_events (c_db c')) = filter (\<lambda>v. e_host v \<notin> set hs) (ev_rows (t_events (c_db c)))" by (auto simp: image_image)
  then show ?thesis using assms(6) MBulkDelete by (simp add: host_view_def filter_kept find_filter_other)
qed (use assms(1) in simp_all)

text \<open>A host that was not registered had no answer but of the queries that do not ask for the domain.\<close>

lemma answer_unregistered:
  assumes "query_host q = Some h" and "normalizeHost h = h" and "h \<noteq> []"
    and "findByHost (t_domains (c_db c)) h = None" and "good_answer (answer en q c)"
    and "t_events (c_db c') = t_events (c_db c)"
  shows "answer en q c' = answer en q c"
  using assms
  by (cases q) (auto simp: host_param_encode get_one_def get_host_summary_def get_host_stats_def get_logs_def)

lemma registered_kept:
  assumes "run w (RBulkAdd ds) c = (c', r, e)" and "status_of r < 400" and "findByHost (t_domains (c_db c)) k \<noteq> None"
  shows "host_view (c_db c') k = host_view (c_db c) k"
proof -
  obtain new where "t_domains (c_db c') = t_domains (c_db c) @ new" using run_bulk_add_created[OF assms(1,2)] by auto
  then show ?thesis using run_plain[OF assms(1,2)] find_append_old[OF assms(3), of new] by (simp add: host_view_def)
qed

subsection \<open>The cache and the server\<close>

text \<open>The hosts a change writes without declaring the answers about them stale.\<close>

fun stale_hosts :: "client_mutation \<Rightarrow> conn \<Rightarrow> string set" where
  "stale_hosts (MAdd h ori) c = (if findByHost (t_domains (c_db c)) h = None then {} else {h})"
| "stale_hosts (MBulkToggle hs b) c = set hs"
| "stale_hosts (MDelete h) c = {h}"
| "stale_hosts (MBulkDelete hs) c = set hs"
| "stale_hosts _ c = {}"

lemma lists_invalidated:
  "request_of m = Some req \<Longrightarrow> invalidated m (QDomains f) \<and> invalidated m QSummary"
  by (cases m) (auto simp: invalidated_def stale_defs)

lemma own_host_invalidated:
  "m = MUpdate h b \<or> m = MToggle h \<Longrightarrow> query_host q = Some h \<Longrightarrow> invalidated m q"
  by (cases q) (auto simp: invalidated_def stale_defs)

text \<open>
  An answer the client keeps and does not fetch anew is the one the server would give now, unless it is about
  one of these hosts.
\<close>

lemma answers_current:
  assumes "request_of m = Some req" and "run w req c = (c', r, e)" and "status_of r < 400"
    and "normal_hosts m" and "distinct (hosts_of (t_domains (c_db c)))"
    and "good_answer (answer en q c)" and "\<not> invalidated m q"
    and "\<And>h. query_host q = Some h \<Longrightarrow> normalizeHost h = h \<and> h \<noteq> [] \<and> h \<notin> stale_hosts m c"
  shows "answer en q c' = answer en q c"
proof (cases "query_host q")
  case None
  then show ?thesis using lists_invalidated[OF assms(1)] assms(7) by (cases q) auto
next
  case (Some h)
  have h: "normalizeHost h = h" "h \<noteq> []" "h \<notin> stale_hosts m c" using assms(8)[OF Some] by auto
  note v = answer_view[OF Some h(1,2)]
  show ?thesis
  proof (cases "h \<in> set (mutation_hosts m)")
    case False
    then show ?thesis using v[of c' c] mutation_frame[OF assms(1-5)] by simp
  next
    case True
    show ?thesis
    proof (cases m)
      case (MAdd x ori)
      with True h(3) have "x = h" "findByHost (t_domains (c_db c)) h = None" by (auto split: if_splits)
      moreover have "t_events (c_db c') = t_events (c_db c)"
        using run_post_created[of w x ori c c' r e] assms(1-3) MAdd by auto
      ultimately show ?thesis using answer_unregistered[OF Some h(1,2)] assms(6) by blast
    next
      case (MBulkAdd ds)
      then have r: "run w (RBulkAdd (Some (map (\<lambda>(h, ori). Some (Str h, Str ori)) ds))) c = (c', r, e)"
        using assms(1,2) by simp
      show ?thesis
      proof (cases "findByHost (t_domains (c_db c)) h = None")
        case True
        then show ?thesis using answer_unregistered[OF Some h(1,2)] assms(6) run_plain[OF r assms(3)] by blast
      next
        case False
        then show ?thesis using v[of c' c] registered_kept[OF r assms(3)] by simp
      qed
    qed (use True h(3) own_host_invalidated Some assms(1,7) in auto)
  qed
qed

end
