(* ===== verification/Diagnose_Tab.thy ===== *)
theory Diagnose_Tab
  imports Api_Client Route_Properties
begin

section \<open>The web client: diagnosis of a URL\<close>

text \<open>
  The tab \<open>DomainDiagnoseTab.tsx\<close> with the hooks \<open>useDebouncedValue\<close> and \<open>useDomainDiagnose\<close>: the path typed, the
  delayed values that the request is made of, the address, the dialog that takes a copy out of the cache, and what the
  panels show of an answer. Local dates are an argument; the markup is not modelled.
\<close>

subsection \<open>The delayed values\<close>

text \<open>The value handed out and, while the timer runs, the value it will set.\<close>

record 'a debounced =
  de_value :: 'a
  de_timer :: "'a option"

definition useDebouncedValue :: "'a \<Rightarrow> 'a debounced" where
  "useDebouncedValue v = \<lparr>de_value = v, de_timer = Some v\<rparr>"

definition debounce :: "'a \<Rightarrow> 'a \<Rightarrow> 'a debounced \<Rightarrow> 'a debounced" where
  "debounce old v d = (if v = old then d else d\<lparr>de_timer := Some v\<rparr>)"

definition debounce_fires :: "'a debounced \<Rightarrow> 'a debounced" where
  "debounce_fires d = (case de_timer d of None \<Rightarrow> d | Some v \<Rightarrow> \<lparr>de_value = v, de_timer = None\<rparr>)"

text \<open>For the value \<open>v\<close> given last: it is about to be set, or it has been.\<close>

definition settles :: "'a \<Rightarrow> 'a debounced \<Rightarrow> bool" where
  "settles v d = (case de_timer d of None \<Rightarrow> de_value d = v | Some x \<Rightarrow> x = v)"

lemma settles_mount [simp]: "settles v (useDebouncedValue v)"
  by (simp add: settles_def useDebouncedValue_def)

lemma settles_input [simp]: "settles old d \<Longrightarrow> settles v (debounce old v d)"
  by (auto simp: settles_def debounce_def)

lemma settles_fires [simp]: "settles v d \<Longrightarrow> settles v (debounce_fires d) \<and> de_value (debounce_fires d) = v"
  by (auto simp: settles_def debounce_fires_def split: option.splits)

subsection \<open>The tab\<close>

definition RANGES :: "string list" where
  "RANGES = [''1h'', ''24h'', ''7d'']"

definition splitPathAndQuery :: "string \<Rightarrow> string \<times> string" where
  "splitPathAndQuery input =
     (if CHR ''?'' \<notin> set input then (input, [])
      else (takeWhile (\<lambda>c. c \<noteq> CHR ''?'') input, tl (dropWhile (\<lambda>c. c \<noteq> CHR ''?'') input)))"

text \<open>
  What is typed, the range, the delayed path and query, the dialog with the URL it was opened for, whether a purge is
  under way, how many fetches after a purge are, and the address.
\<close>

record diagnose_tab =
  dt_input :: string
  dt_range :: string
  dt_path :: "string debounced"
  dt_query :: "string debounced"
  dt_confirm :: bool
  dt_pending :: "string option"
  dt_purging :: bool
  dt_refetching :: nat
  dt_nav :: nav

definition pathOnly :: "diagnose_tab \<Rightarrow> string" where
  "pathOnly s = fst (splitPathAndQuery (js_trim (dt_input s)))"

definition queryOnly :: "diagnose_tab \<Rightarrow> string" where
  "queryOnly s = snd (splitPathAndQuery (js_trim (dt_input s)))"

definition pathInvalid :: "diagnose_tab \<Rightarrow> bool" where
  "pathInvalid s = (js_trim (dt_input s) \<noteq> [] \<and> \<not> starts_with ''/'' (pathOnly s))"

text \<open>The effect that follows the path and the range into the address.\<close>

definition sync_address :: "diagnose_tab \<Rightarrow> diagnose_tab" where
  "sync_address s =
     (let typed = js_trim (dt_input s)
      in s\<lparr>dt_nav := set_search_params True (\<lambda>u.
             url_set ''dgRange'' (dt_range s)
               (if typed \<noteq> [] then url_set ''path'' typed (url_set ''tab'' ''diagnose'' u)
                else url_delete ''path'' (url_set ''tab'' ''diagnose'' u))) (dt_nav s)\<rparr>)"

definition initial_range :: "params \<Rightarrow> string" where
  "initial_range u =
     (case url_get ''dgRange'' u of None \<Rightarrow> ''1h'' | Some r \<Rightarrow> if r \<in> set RANGES then r else ''1h'')"

definition diagnose_mount :: "nav \<Rightarrow> diagnose_tab" where
  "diagnose_mount n =
     (let input = or_else (url_get ''path'' (nv_here n)) [];
          (p, q) = splitPathAndQuery (js_trim input)
      in sync_address \<lparr>dt_input = input, dt_range = initial_range (nv_here n), dt_path = useDebouncedValue p,
           dt_query = useDebouncedValue q, dt_confirm = False, dt_pending = None, dt_purging = False,
           dt_refetching = 0, dt_nav = n\<rparr>)"

definition set_path_input :: "string \<Rightarrow> diagnose_tab \<Rightarrow> diagnose_tab" where
  "set_path_input v s =
     (if v = dt_input s then s
      else let s' = s\<lparr>dt_input := v\<rparr>
           in sync_address (s'\<lparr>dt_path := debounce (pathOnly s) (pathOnly s') (dt_path s),
                dt_query := debounce (queryOnly s) (queryOnly s') (dt_query s)\<rparr>))"

definition set_range :: "string \<Rightarrow> diagnose_tab \<Rightarrow> diagnose_tab" where
  "set_range r s = (if r = dt_range s then s else sync_address (s\<lparr>dt_range := r\<rparr>))"

text \<open>The query of the tab, of the delayed values, and the request where it is enabled.\<close>

definition diagnose_query :: "string \<Rightarrow> diagnose_tab \<Rightarrow> query" where
  "diagnose_query host s = QDiagnose host (de_value (dt_path s)) (de_value (dt_query s)) (dt_range s)"

subsection \<open>The copy in the cache\<close>

text \<open>The answer of the proxy, which the server passes on.\<close>

record cdn_answer =
  cdn_state :: string
  cdn_layer :: string

type_synonym answered_diagnosis = "cdn_answer diagnosis"

definition copy_exists :: "answered_diagnosis option \<Rightarrow> bool" where
  "copy_exists d = (case d of None \<Rightarrow> False
     | Some x \<Rightarrow> (case dx_cache_copy x of None \<Rightarrow> False | Some (there, size_b, stored, expires) \<Rightarrow> there))"

definition refreshDisabled :: "answered_diagnosis option \<Rightarrow> diagnose_tab \<Rightarrow> bool" where
  "refreshDisabled d s = (\<not> starts_with ''/'' (pathOnly s) \<or> \<not> copy_exists d \<or> dt_purging s)"

definition buildFullUrl :: "string \<Rightarrow> string \<Rightarrow> string \<Rightarrow> string" where
  "buildFullUrl host p q = ''https://'' @ host @ p @ (if q = [] then [] else CHR ''?'' # q)"

definition onOpenRefresh :: "string \<Rightarrow> diagnose_tab \<Rightarrow> diagnose_tab" where
  "onOpenRefresh host s = s\<lparr>dt_pending := Some (buildFullUrl host (pathOnly s) (queryOnly s)), dt_confirm := True\<rparr>"

text \<open>Up to the call: the dialog closes, and the URL it shows is purged; a missing URL ends it here.\<close>

definition onConfirmRefresh :: "diagnose_tab \<Rightarrow> diagnose_tab \<times> client_mutation list" where
  "onConfirmRefresh s =
     (case dt_pending s of
        None \<Rightarrow> (s\<lparr>dt_confirm := False\<rparr>, [])
      | Some u \<Rightarrow> (s\<lparr>dt_confirm := False, dt_purging := True\<rparr>, [MPurgeCache ''url'' (Some u)]))"

text \<open>After the call: a success waits for the answer fetched anew, a failure ends at once; the end clears the URL.\<close>

definition purge_settled :: "bool \<Rightarrow> diagnose_tab \<Rightarrow> diagnose_tab" where
  "purge_settled ok s =
     (if ok then s\<lparr>dt_purging := False, dt_refetching := Suc (dt_refetching s)\<rparr>
      else s\<lparr>dt_purging := False, dt_pending := None\<rparr>)"

definition refetch_settled :: "diagnose_tab \<Rightarrow> diagnose_tab" where
  "refetch_settled s = s\<lparr>dt_refetching := dt_refetching s - 1, dt_pending := None\<rparr>"

definition close_dialog :: "diagnose_tab \<Rightarrow> diagnose_tab" where
  "close_dialog s = (if dt_purging s then s else s\<lparr>dt_confirm := False, dt_pending := None\<rparr>)"

text \<open>
  What happens to the tab. A click on a button that is disabled does nothing; the click on the button of the copy
  carries the answer shown at that time.
\<close>

datatype tab_event =
    TypePath string
  | ChooseRange string
  | PathTimer
  | QueryTimer
  | OpenRefresh "answered_diagnosis option"
  | ConfirmRefresh
  | CloseDialog
  | PurgeSettled bool
  | RefetchSettled

fun tab_step :: "string \<Rightarrow> tab_event \<Rightarrow> diagnose_tab \<Rightarrow> diagnose_tab \<times> client_mutation list" where
  "tab_step host (TypePath v) s = (set_path_input v s, [])"
| "tab_step host (ChooseRange r) s = (if r \<in> set RANGES then set_range r s else s, [])"
| "tab_step host PathTimer s = (s\<lparr>dt_path := debounce_fires (dt_path s)\<rparr>, [])"
| "tab_step host QueryTimer s = (s\<lparr>dt_query := debounce_fires (dt_query s)\<rparr>, [])"
| "tab_step host (OpenRefresh d) s = (if refreshDisabled d s then s else onOpenRefresh host s, [])"
| "tab_step host ConfirmRefresh s = (if dt_confirm s \<and> \<not> dt_purging s then onConfirmRefresh s else (s, []))"
| "tab_step host CloseDialog s = (close_dialog s, [])"
| "tab_step host (PurgeSettled ok) s = (if dt_purging s then purge_settled ok s else s, [])"
| "tab_step host RefetchSettled s = (if 0 < dt_refetching s then refetch_settled s else s, [])"

fun tab_run :: "string \<Rightarrow> tab_event list \<Rightarrow> diagnose_tab \<Rightarrow> diagnose_tab \<times> client_mutation list" where
  "tab_run host [] s = (s, [])"
| "tab_run host (e # es) s =
     (let (s1, ms) = tab_step host e s; (s2, ms') = tab_run host es s1 in (s2, ms @ ms'))"

subsection \<open>The request follows the input\<close>

lemma split_rejoined:
  "splitPathAndQuery s = (p, q) \<Longrightarrow> s = p @ (if CHR ''?'' \<in> set s then CHR ''?'' # q else [])"
proof -
  assume a: "splitPathAndQuery s = (p, q)"
  show ?thesis
  proof (cases "CHR ''?'' \<in> set s")
    case True
    then obtain ys zs where "s = ys @ CHR ''?'' # zs" "CHR ''?'' \<notin> set ys" using split_list_first by metis
    moreover have "takeWhile (\<lambda>c. c \<noteq> CHR ''?'') (ys @ CHR ''?'' # zs) = ys"
      and "dropWhile (\<lambda>c. c \<noteq> CHR ''?'') (ys @ CHR ''?'' # zs) = CHR ''?'' # zs"
      using calculation(2) by (subst takeWhile_append2 dropWhile_append2; auto)+
    ultimately show ?thesis using a True by (simp add: splitPathAndQuery_def)
  qed (use a in \<open>simp add: splitPathAndQuery_def\<close>)
qed

text \<open>What the delayed values settle to, in every state.\<close>

definition tab_settles :: "diagnose_tab \<Rightarrow> bool" where
  "tab_settles s = (settles (pathOnly s) (dt_path s) \<and> settles (queryOnly s) (dt_query s) \<and> dt_range s \<in> set RANGES)"

lemma typed_kept [simp]:
  "pathOnly (s\<lparr>dt_path := x\<rparr>) = pathOnly s" "queryOnly (s\<lparr>dt_path := x\<rparr>) = queryOnly s"
  "pathOnly (s\<lparr>dt_query := y\<rparr>) = pathOnly s" "queryOnly (s\<lparr>dt_query := y\<rparr>) = queryOnly s"
  "pathOnly (s\<lparr>dt_range := r\<rparr>) = pathOnly s" "queryOnly (s\<lparr>dt_range := r\<rparr>) = queryOnly s"
  "pathOnly (s\<lparr>dt_nav := n\<rparr>) = pathOnly s" "queryOnly (s\<lparr>dt_nav := n\<rparr>) = queryOnly s"
  "pathOnly (s\<lparr>dt_confirm := b\<rparr>) = pathOnly s" "queryOnly (s\<lparr>dt_confirm := b\<rparr>) = queryOnly s"
  "pathOnly (s\<lparr>dt_pending := u\<rparr>) = pathOnly s" "queryOnly (s\<lparr>dt_pending := u\<rparr>) = queryOnly s"
  "pathOnly (s\<lparr>dt_purging := b\<rparr>) = pathOnly s" "queryOnly (s\<lparr>dt_purging := b\<rparr>) = queryOnly s"
  "pathOnly (s\<lparr>dt_refetching := k\<rparr>) = pathOnly s" "queryOnly (s\<lparr>dt_refetching := k\<rparr>) = queryOnly s"
  by (simp_all add: pathOnly_def queryOnly_def)

lemma sync_kept [simp]:
  "pathOnly (sync_address s) = pathOnly s" "queryOnly (sync_address s) = queryOnly s" "dt_path (sync_address s) = dt_path s"
  "dt_query (sync_address s) = dt_query s" "dt_range (sync_address s) = dt_range s" "dt_pending (sync_address s) = dt_pending s"
  "dt_input (sync_address s) = dt_input s"
  by (simp_all add: sync_address_def Let_def)

lemma mount_settles: "tab_settles (diagnose_mount n)"
  by (auto simp: diagnose_mount_def tab_settles_def Let_def initial_range_def RANGES_def pathOnly_def queryOnly_def
      split: prod.splits option.splits)

lemma step_settles: "tab_settles s \<Longrightarrow> tab_settles (fst (tab_step host e s))"
proof (cases e)
  case (TypePath v)
  assume "tab_settles s"
  moreover have "pathOnly (s\<lparr>dt_input := v, dt_path := x, dt_query := y\<rparr>) = pathOnly (s\<lparr>dt_input := v\<rparr>)"
    "queryOnly (s\<lparr>dt_input := v, dt_path := x, dt_query := y\<rparr>) = queryOnly (s\<lparr>dt_input := v\<rparr>)" for x y
    by (simp_all add: pathOnly_def queryOnly_def)
  ultimately show ?thesis using TypePath by (simp add: set_path_input_def Let_def tab_settles_def)
qed (auto simp: tab_settles_def set_range_def onOpenRefresh_def onConfirmRefresh_def close_dialog_def purge_settled_def
    refetch_settled_def split: option.splits)

lemma run_settles: "tab_settles s \<Longrightarrow> tab_settles (fst (tab_run host es s))"
proof (induction es arbitrary: s)
  case (Cons e es)
  then show ?case using step_settles[of s host e] by (auto split: prod.splits) (metis fst_conv)
qed simp

text \<open>
  When both timers have fired the request is of the path and the query typed last. The server takes it but for the
  characters and the length of path and query, which the tab does not check.
\<close>

lemma diagnosis_of_input:
  assumes "tab_run host es (diagnose_mount n) = (s, ms)"
  shows "tab_run host [PathTimer, QueryTimer] s = (s', ms') \<Longrightarrow>
    diagnose_query host s' = QDiagnose host (pathOnly s) (queryOnly s) (dt_range s)"
  using run_settles[OF mount_settles[of n], of host es] assms
  by (auto simp: tab_settles_def diagnose_query_def)

lemma diagnosis_accepted:
  assumes "tab_settles s" and "starts_with ''/'' p" and "PATH_SAFE_RE p" and "length p \<le> 2048" and "QUERY_SAFE_RE q" and "length q \<le> 4096"
    and "registered (t_domains db) host" and "normalizeHost host = host"
  shows "\<exists>d. get_diagnose sha proxy storage now host (Some p) (Some q) (Some (dt_range s)) db = Ok 200 d"
proof -
  obtain k where "PERIOD_SEC (dt_range s) = Some k" using assms(1) by (auto simp: tab_settles_def RANGES_def PERIOD_SEC_def)
  with assms show ?thesis by (simp add: get_diagnose_def diagnose_schema_def Let_def)
qed

subsection \<open>What is purged\<close>

text \<open>The members of the body of a purge that the server looks at.\<close>

definition read_purge :: "json option \<Rightarrow> (jsprim \<times> jsprim) option" where
  "read_purge b = (case b of Some (JObject fs) \<Rightarrow> Some (body_field ''type'' b, body_field ''target'' b) | _ \<Rightarrow> None)"

text \<open>A URL for which the dialog was opened in the course of some events.\<close>

definition dialog_opened :: "string \<Rightarrow> diagnose_tab \<Rightarrow> tab_event list \<Rightarrow> string \<Rightarrow> bool" where
  "dialog_opened host s es u =
     (\<exists>before d rest. es = before @ OpenRefresh d # rest \<and> \<not> refreshDisabled d (fst (tab_run host before s)) \<and>
        u = buildFullUrl host (pathOnly (fst (tab_run host before s))) (queryOnly (fst (tab_run host before s))))"

lemma tab_run_snoc:
  "tab_run host (es @ [e]) s =
     (let (s1, ms) = tab_run host es s; (s2, ms') = tab_step host e s1 in (s2, ms @ ms'))"
  by (induction es arbitrary: s) (auto simp: Let_def split: prod.splits)

lemma opened_more: "dialog_opened host s es u \<Longrightarrow> dialog_opened host s (es @ [e]) u"
  unfolding dialog_opened_def by (metis append_Cons append_assoc)

lemma opened_now:
  "\<not> refreshDisabled d (fst (tab_run host es s)) \<Longrightarrow>
   dialog_opened host s (es @ [OpenRefresh d])
     (buildFullUrl host (pathOnly (fst (tab_run host es s))) (queryOnly (fst (tab_run host es s))))"
  unfolding dialog_opened_def by blast

lemma step_pending:
  assumes "tab_step host e s = (s', ms)"
  shows "dt_pending s' \<in> {None, dt_pending s} \<or>
      (\<exists>d. e = OpenRefresh d \<and> \<not> refreshDisabled d s \<and> dt_pending s' = Some (buildFullUrl host (pathOnly s) (queryOnly s)))"
    and "m \<in> set ms \<Longrightarrow> dt_confirm s \<and> (\<exists>u. dt_pending s = Some u \<and> m = MPurgeCache ''url'' (Some u))"
  using assms
  by (cases e; auto simp: set_path_input_def set_range_def onOpenRefresh_def onConfirmRefresh_def close_dialog_def
      purge_settled_def refetch_settled_def Let_def split: option.splits if_splits)+

lemma run_pending_opened:
  assumes "tab_run host es s0 = (s, ms)" and "dt_pending s0 = None"
  shows "(\<forall>u. dt_pending s = Some u \<longrightarrow> dialog_opened host s0 es u) \<and>
    (\<forall>m \<in> set ms. \<exists>u. m = MPurgeCache ''url'' (Some u) \<and> dialog_opened host s0 es u)"
  using assms(1)
proof (induction es arbitrary: s ms rule: rev_induct)
  case (snoc e es)
  obtain s1 ms1 ms2 where r: "tab_run host es s0 = (s1, ms1)" "tab_step host e s1 = (s, ms2)" "ms = ms1 @ ms2"
    using snoc.prems by (auto simp: tab_run_snoc Let_def split: prod.splits)
  note IH = snoc.IH[OF r(1)]
  have p: "dialog_opened host s0 (es @ [e]) u" if "dt_pending s1 = Some u" for u using IH that opened_more by blast
  have "dialog_opened host s0 (es @ [e]) u" if "dt_pending s = Some u" for u
    using step_pending(1)[OF r(2)] that p opened_now[of _ host es s0] r(1) by auto
  moreover have "\<exists>u. m = MPurgeCache ''url'' (Some u) \<and> dialog_opened host s0 (es @ [e]) u" if "m \<in> set ms" for m
    using step_pending(2)[OF r(2), of m] that p IH r(3) opened_more by fastforce
  ultimately show ?case by blast
qed (use assms(2) in simp)

lemma purge_confirmed:
  assumes "starts_with ''/'' p" and "w_url w (buildFullUrl host p q) = Some x" and "url_protocol x = ''https:''"
    and "normalizeHost (url_hostname x) = host" and "registered (t_domains (c_db c)) host" and "host \<noteq> []"
  shows "snd (snd (purge w storage (read_purge (hc_body (mutation_call (MPurgeCache ''url'' (Some (buildFullUrl host p q)))))) c)) =
    [PurgeUrl (buildFullUrl host p q)]"
proof -
  let ?u = "buildFullUrl host p q"
  have "read_purge (hc_body (mutation_call (MPurgeCache ''url'' (Some ?u)))) = Some (Str ''url'', Str ?u)"
    by (simp add: read_purge_def purgeCache_def send_call_def body_field_def opt_str_def)
  moreover have "purgeBodySchema (Some (Str ''url'', Str ?u)) = Some (PbUrl ?u)"
    by (simp add: purgeBodySchema_def buildFullUrl_def)
  moreover have "purge_check (w_url w) (t_domains (c_db c)) (PbUrl ?u) = Inr (PurgeUrl ?u)"
    using assms by (simp add: purge_check_def url_registered_def)
  ultimately show ?thesis by (simp add: purge_def split: option.splits)
qed

text \<open>
  C36. The copy that is dropped: whatever is typed and clicked in the tab, in whatever order the timers fire and the
  answers arrive, every purge it sends is for the URL that the path typed gave when the dialog was opened, at a time
  when a copy was known to exist; and where the parser of URLs reads the host of such URLs back, the server answers
  each with exactly this one call to the storage service.
\<close>

theorem purges_what_was_shown:
  assumes "tab_run host es (diagnose_mount n) = (s, ms)" and "m \<in> set ms"
    and "registered (t_domains (c_db c)) host" and "host \<noteq> []"
    and "\<And>p q. starts_with ''/'' p \<Longrightarrow>
      \<exists>x. w_url w (buildFullUrl host p q) = Some x \<and> url_protocol x = ''https:'' \<and> normalizeHost (url_hostname x) = host"
  shows "\<exists>before d rest. es = before @ OpenRefresh d # rest \<and>
    (let s' = fst (tab_run host before (diagnose_mount n)); u = buildFullUrl host (pathOnly s') (queryOnly s')
     in starts_with ''/'' (pathOnly s') \<and> copy_exists d \<and> \<not> dt_purging s' \<and> m = MPurgeCache ''url'' (Some u) \<and>
        snd (snd (purge w storage (read_purge (hc_body (mutation_call m))) c)) = [PurgeUrl u])"
proof -
  have "dt_pending (diagnose_mount n) = None" by (simp add: diagnose_mount_def Let_def split: prod.split)
  with run_pending_opened[OF assms(1)] assms(2) obtain u
    where u: "m = MPurgeCache ''url'' (Some u)" "dialog_opened host (diagnose_mount n) es u" by blast
  then obtain before d rest where b: "es = before @ OpenRefresh d # rest"
    "\<not> refreshDisabled d (fst (tab_run host before (diagnose_mount n)))"
    "u = buildFullUrl host (pathOnly (fst (tab_run host before (diagnose_mount n)))) (queryOnly (fst (tab_run host before (diagnose_mount n))))"
    unfolding dialog_opened_def by blast
  let ?s = "fst (tab_run host before (diagnose_mount n))"
  have p: "starts_with ''/'' (pathOnly ?s)" "copy_exists d" "\<not> dt_purging ?s" using b(2) by (auto simp: refreshDisabled_def)
  obtain x where "w_url w u = Some x" "url_protocol x = ''https:''" "normalizeHost (url_hostname x) = host"
    using assms(5)[OF p(1)] b(3) by blast
  with purge_confirmed[OF p(1)] assms(3,4) b(3) u(1)
  have "snd (snd (purge w storage (read_purge (hc_body (mutation_call m))) c)) = [PurgeUrl u]" by simp
  with b(1,3) p u(1) show ?thesis by (metis (no_types, lifting))
qed

definition sample_diagnosis :: answered_diagnosis where
  "sample_diagnosis = \<lparr>dx_cdn = None, dx_origin_status = None, dx_avg_rtt_ms = None, dx_error_5xx = 0, dx_timeout_count = 0,
     dx_origin_sample_count = 0, dx_cache_copy = Some (True, Num (Fin 10), Num (Fin 5), Num (Fin 0)), dx_response_headers = Some [],
     dx_range_single = 0, dx_range_multi = 0, dx_range_none = 0, dx_hit_ratio_pct = None, dx_sample_count = 0\<rparr>"

definition diagnose_world :: world where
  "diagnose_world = route_world\<lparr>w_url := (\<lambda>u. Some \<lparr>url_protocol = ''https:'', url_hostname = ''a.com'', url_pathname = ''/'',
     url_search = [], url_hash = [], url_origin = ''https://a.com''\<rparr>)\<rparr>"

definition diagnose_conn :: conn where
  "diagnose_conn = \<lparr>c_db = route_db\<lparr>t_domains := [new_domain 10 ''a.com'' ''http://o'' []]\<rparr>, c_saved = None\<rparr>"

text \<open>The path is changed while the dialog is open; the URL it was opened for is purged.\<close>

definition sample_clicks :: "tab_event list" where
  "sample_clicks = [TypePath '' /v?x=1 '', PathTimer, QueryTimer, OpenRefresh (Some sample_diagnosis), TypePath ''/other'', ConfirmRefresh]"

lemma purges_what_was_shown_witness:
  "snd (tab_run ''a.com'' sample_clicks (diagnose_mount \<lparr>nv_back = [], nv_here = []\<rparr>)) =
      [MPurgeCache ''url'' (Some ''https://a.com/v?x=1'')] \<and>
   snd (snd (purge diagnose_world (\<lambda>_. None) (read_purge (hc_body (mutation_call (MPurgeCache ''url'' (Some ''https://a.com/v?x=1''))))) diagnose_conn)) = [PurgeUrl ''https://a.com/v?x=1'']"
proof -
  let ?m = "MPurgeCache ''url'' (Some ''https://a.com/v?x=1'')" and ?s = "diagnose_mount \<lparr>nv_back = [], nv_here = []\<rparr>"
  have ms: "snd (tab_run ''a.com'' sample_clicks ?s) = [?m]" by code_simp
  then obtain s where r: "tab_run ''a.com'' sample_clicks ?s = (s, [?m])" by (metis prod.collapse)
  have m: "?m \<in> set [?m]" by simp
  have reg: "registered (t_domains (c_db diagnose_conn)) ''a.com''" and ne: "''a.com'' \<noteq> []"
    and h: "normalizeHost ''a.com'' = ''a.com''"
    by code_simp+
  have "\<exists>x. w_url diagnose_world (buildFullUrl ''a.com'' p q) = Some x \<and> url_protocol x = ''https:'' \<and>
      normalizeHost (url_hostname x) = ''a.com''" for p q
    by (simp add: diagnose_world_def h)
  with purges_what_was_shown[OF r m reg ne, of diagnose_world "\<lambda>_. None"] ms show ?thesis
    unfolding Let_def by auto
qed

text \<open>
  What is confirmed need not be purged: the end of a first run, after its fetch, clears the URL of a dialog that was
  opened in the meantime, and its confirmation does nothing.
\<close>

lemma second_refresh_lost:
  "(let es = [TypePath ''/v'', PathTimer, OpenRefresh (Some sample_diagnosis), ConfirmRefresh, PurgeSettled True,
       OpenRefresh (Some sample_diagnosis), RefetchSettled];
       s = fst (tab_run ''a.com'' es (diagnose_mount \<lparr>nv_back = [], nv_here = []\<rparr>))
    in dt_confirm s \<and> snd (tab_step ''a.com'' ConfirmRefresh s) = [])"
  by code_simp

text \<open>The button rests on the answer for the delayed path: it can offer to drop what has no copy.\<close>

lemma copy_of_older_path:
  "(let s = fst (tab_run ''a.com'' [TypePath ''/v'', PathTimer, TypePath ''/w''] (diagnose_mount \<lparr>nv_back = [], nv_here = []\<rparr>))
    in diagnose_query ''a.com'' s = QDiagnose ''a.com'' ''/v'' [] ''1h'' \<and> \<not> refreshDisabled (Some sample_diagnosis) s \<and>
       dt_pending (onOpenRefresh ''a.com'' s) = Some ''https://a.com/w'')"
  by code_simp

subsection \<open>What is shown of an answer\<close>

text \<open>\<open>toFixed(1)\<close> of a number that is not negative: tenths, halves rounded up.\<close>

definition fixed1 :: "rat \<Rightarrow> string" where
  "fixed1 x = (let t = \<lfloor>10 * x + 1 / 2\<rfloor> in int_text (t div 10) @ ''.'' @ int_text (t mod 10))"

definition formatHitRatio :: "jsnum option \<Rightarrow> string option" where
  "formatHitRatio v =
     (case v of Some (Fin x) \<Rightarrow> Some (fixed1 (min 100 (max 0 x)) @ ''%'') | _ \<Rightarrow> None)"

text \<open>\<open>None\<close> stands for the dash.\<close>

definition formatBytes :: "jsnum \<Rightarrow> (jsnum \<Rightarrow> string) \<Rightarrow> string option" where
  "formatBytes b txt =
     (case b of
        Fin x \<Rightarrow>
          if x < 0 then None
          else if x < 1024 then Some (txt b @ '' B'')
          else if x < 1024 * 1024 then Some (fixed1 (x / 1024) @ '' KB'')
          else if x < 1024 * 1024 * 1024 then Some (fixed1 (x / 1024 / 1024) @ '' MB'')
          else Some (fixed1 (x / 1024 / 1024 / 1024) @ '' GB'')
      | _ \<Rightarrow> None)"

text \<open>The date of a time above zero, by the function given, else the text for none.\<close>

definition formatEpochSeconds :: "(rat \<Rightarrow> string) \<Rightarrow> jsprim \<Rightarrow> string \<Rightarrow> string" where
  "formatEpochSeconds date v fallback =
     (case v of Num (Fin x) \<Rightarrow> if x \<le> 0 then fallback else date (x * 1000) | _ \<Rightarrow> fallback)"

datatype cdn_summary = CdnUnknown | CdnState string "string option"
datatype origin_summary = OriginNoData | OriginState origin_status
datatype copy_summary = CopyFailed | CopyKept string | CopyAbsent

definition SummaryLine :: "(rat \<Rightarrow> string) \<Rightarrow> answered_diagnosis \<Rightarrow> cdn_summary \<times> origin_summary \<times> copy_summary" where
  "SummaryLine date d =
     ((case dx_cdn d of
         None \<Rightarrow> CdnUnknown
       | Some x \<Rightarrow> CdnState (cdn_state x) (if cdn_layer x \<noteq> ''none'' then Some (cdn_layer x) else None)),
      (case dx_origin_status d of None \<Rightarrow> OriginNoData | Some o' \<Rightarrow> OriginState o'),
      (case dx_cache_copy d of
         None \<Rightarrow> CopyFailed
       | Some (there, size_b, stored, expires) \<Rightarrow>
           if there then CopyKept (formatEpochSeconds date expires ''none'') else CopyAbsent))"

text \<open>The panel of the proxy: whether it says that the proxy gave no answer, the state, the layer, the hit ratio.\<close>

definition CdnPanel :: "answered_diagnosis option \<Rightarrow> bool \<times> string option \<times> string option \<times> string option" where
  "CdnPanel d =
     (let cdn = (case d of None \<Rightarrow> None | Some x \<Rightarrow> dx_cdn x);
          hitRatio = (case d of None \<Rightarrow> None | Some x \<Rightarrow> dx_hit_ratio_pct x)
      in (cdn = None,
          map_option cdn_state cdn,
          (case cdn of None \<Rightarrow> None | Some x \<Rightarrow> if cdn_layer x = ''none'' then None else Some (cdn_layer x)),
          formatHitRatio (map_option (Fin \<circ> of_int) hitRatio)))"

text \<open>The panel of the origin: without samples no counts are shown.\<close>

datatype origin_counts = NoSamples | Counts "int option" int int int

definition OriginPanel :: "answered_diagnosis option \<Rightarrow> origin_status option \<times> origin_counts" where
  "OriginPanel d =
     (case d of
        None \<Rightarrow> (None, NoSamples)
      | Some x \<Rightarrow>
          (dx_origin_status x,
           if dx_origin_sample_count x \<le> 0 then NoSamples
           else Counts (dx_avg_rtt_ms x) (dx_error_5xx x) (dx_timeout_count x) (dx_origin_sample_count x)))"

text \<open>The panel of the copy and the card of the headers tell a failed question from an empty answer.\<close>

datatype copy_panel = CopyError | CopyDash | CopyShown "jsprim" string string

definition CacheCopyPanel :: "(rat \<Rightarrow> string) \<Rightarrow> answered_diagnosis option \<Rightarrow> copy_panel" where
  "CacheCopyPanel date d =
     (case (case d of None \<Rightarrow> None | Some x \<Rightarrow> dx_cache_copy x) of
        None \<Rightarrow> CopyError
      | Some (there, size_b, stored, expires) \<Rightarrow>
          if there then CopyShown size_b (formatEpochSeconds date stored ''-'') (formatEpochSeconds date expires ''none'') else CopyDash)"

datatype headers_card = HeadersError | NoHeaders | Headers "(string \<times> string) list"

definition HeadersCard :: "answered_diagnosis option \<Rightarrow> headers_card" where
  "HeadersCard d =
     (case (case d of None \<Rightarrow> None | Some x \<Rightarrow> dx_response_headers x) of
        None \<Rightarrow> HeadersError
      | Some [] \<Rightarrow> NoHeaders
      | Some hs \<Rightarrow> Headers hs)"

datatype diagnose_line = DiagnoseError bool | DiagnoseLoading | DiagnoseNothing | DiagnoseSummary answered_diagnosis

definition diagnose_line :: "bool \<Rightarrow> bool \<Rightarrow> answered_diagnosis option \<Rightarrow> diagnose_line" where
  "diagnose_line isError isFetching d =
     (if isError then DiagnoseError (\<not> isFetching)
      else if isFetching \<and> d = None then DiagnoseLoading
      else case d of None \<Rightarrow> DiagnoseNothing | Some x \<Rightarrow> DiagnoseSummary x)"

definition RangeCard :: "answered_diagnosis option \<Rightarrow> int option \<times> int option \<times> int option" where
  "RangeCard d = (map_option dx_range_single d, map_option dx_range_multi d, map_option dx_range_none d)"

text \<open>
  The page as a whole: the host and the input, the ranges with the one chosen, the line and the panels, the button,
  and the open dialog with the URL, the text it shows and whether its buttons and its closing are held.
\<close>

record diagnose_view =
  dv_host :: string
  dv_input :: string
  dv_path_error :: bool
  dv_ranges :: "(string \<times> bool) list"
  dv_line :: diagnose_line
  dv_cdn :: "bool \<times> string option \<times> string option \<times> string option"
  dv_origin :: "origin_status option \<times> origin_counts"
  dv_copy :: copy_panel
  dv_headers :: headers_card
  dv_range :: "int option \<times> int option \<times> int option"
  dv_refresh_disabled :: bool
  dv_dialog :: "(string option \<times> bool) option"

definition refresh_dialog :: "diagnose_tab \<Rightarrow> (string option \<times> bool) option" where
  "refresh_dialog s =
     (if dt_confirm s
      then Some (case dt_pending s of Some (c # u) \<Rightarrow> Some (c # u) | _ \<Rightarrow> None, dt_purging s)
      else None)"

definition DomainDiagnoseTab ::
  "(rat \<Rightarrow> string) \<Rightarrow> string \<Rightarrow> bool \<Rightarrow> bool \<Rightarrow> answered_diagnosis option \<Rightarrow> diagnose_tab \<Rightarrow> diagnose_view" where
  "DomainDiagnoseTab date host isError isFetching d s =
     \<lparr>dv_host = host, dv_input = dt_input s, dv_path_error = pathInvalid s,
      dv_ranges = map (\<lambda>r. (r, r = dt_range s)) RANGES,
      dv_line = diagnose_line isError isFetching d,
      dv_cdn = CdnPanel d, dv_origin = OriginPanel d, dv_copy = CacheCopyPanel date d,
      dv_headers = HeadersCard d, dv_range = RangeCard d,
      dv_refresh_disabled = refreshDisabled d s,
      dv_dialog = refresh_dialog s\<rparr>"

text \<open>
  An open dialog shows the URL that its button will purge, its buttons are held while a purge is under way, and the
  button that opens it is not offered for a path that the tab marks as wrong.
\<close>

lemma dialog_shows_target:
  assumes "dv_dialog (DomainDiagnoseTab date host er fe d s) = Some (shown, held)"
    and "onConfirmRefresh s = (s', ms)"
  shows "(shown = None \<longrightarrow> dt_pending s \<in> {None, Some []}) \<and> (\<forall>u. shown = Some u \<longrightarrow> ms = [MPurgeCache ''url'' (Some u)]) \<and>
    (held \<longleftrightarrow> dt_purging s)"
  using assms
  by (auto simp: DomainDiagnoseTab_def refresh_dialog_def onConfirmRefresh_def split: if_splits option.splits list.splits) (metis+)

lemma wrong_path_no_refresh:
  "dv_path_error (DomainDiagnoseTab date host er fe d s) \<Longrightarrow> dv_refresh_disabled (DomainDiagnoseTab date host er fe d s)"
  by (simp add: DomainDiagnoseTab_def pathInvalid_def refreshDisabled_def)

text \<open>Before there is an answer the panel of the copy says that the storage service failed.\<close>

lemma copy_panel_before_answer: "CacheCopyPanel date None = CopyError \<and> HeadersCard None = HeadersError"
  by (simp add: CacheCopyPanel_def HeadersCard_def)

lemma bytes_below_next_unit: "formatBytes (Fin 1048575) txt = Some ''1024.0 KB''"
  by code_simp

end
