(* ===== verification/System_Page.thy ===== *)
theory System_Page
  imports Diagnose_Tab Query_Cache Tls_Health
begin

section \<open>The web client: system page\<close>

text \<open>
  \<open>pages/SystemPage.tsx\<close> with the list of the certificates and its search in the address, the badge of a certificate,
  the use of the disk, the state of the services, the purge of everything and the theme (\<open>lib/theme.ts\<close>), and the frame
  of the page of one domain (\<open>pages/DomainDetailPage.tsx\<close>). Dates are read by an argument; the markup is not modelled.
\<close>

subsection \<open>Certificates\<close>

definition CERT_TABLE_PAGINATION_THRESHOLD :: nat where
  "CERT_TABLE_PAGINATION_THRESHOLD = 10"

text \<open>The time a certificate ends: a missing one is later than all, and a text that is no date has no number.\<close>

definition expiry_ms :: "(string \<Rightarrow> int option) \<Rightarrow> cert \<Rightarrow> jsnum" where
  "expiry_ms parse c =
     (if ct_expires_at c = [] then PosInf
      else case parse (ct_expires_at c) of None \<Rightarrow> NotANum | Some t \<Rightarrow> Fin (of_int t))"

text \<open>The comparison does not put the first behind the second: the difference is not above zero.\<close>

definition cert_le :: "(string \<Rightarrow> int option) \<Rightarrow> cert \<Rightarrow> cert \<Rightarrow> bool" where
  "cert_le parse a b =
     (case (expiry_ms parse a, expiry_ms parse b) of
        (Fin x, Fin y) \<Rightarrow> x \<le> y
      | (PosInf, Fin y) \<Rightarrow> False
      | _ \<Rightarrow> True)"

definition sortedCertificates :: "(string \<Rightarrow> int option) \<Rightarrow> cert list option \<Rightarrow> cert list option" where
  "sortedCertificates parse certs = map_option (order_by (cert_le parse)) certs"

definition showCertSearch :: "cert list option \<Rightarrow> bool" where
  "showCertSearch certs = (case certs of None \<Rightarrow> False | Some cs \<Rightarrow> CERT_TABLE_PAGINATION_THRESHOLD < length cs)"

definition certSearchQuery :: "params \<Rightarrow> string" where
  "certSearchQuery u = or_else (url_get ''certQ'' u) []"

definition handleCertSearchChange :: "string \<Rightarrow> nav \<Rightarrow> nav" where
  "handleCertSearchChange v = set_search_params True (if v \<noteq> [] then url_set ''certQ'' v else url_delete ''certQ'')"

definition filteredCertificates :: "(string \<Rightarrow> int option) \<Rightarrow> cert list option \<Rightarrow> params \<Rightarrow> cert list option" where
  "filteredCertificates parse certs u =
     (if \<not> showCertSearch certs then sortedCertificates parse certs
      else let q = js_lower (js_trim (certSearchQuery u))
           in if q = [] then sortedCertificates parse certs
              else map_option (filter (\<lambda>c. js_includes q (js_lower (ct_domain c)))) (sortedCertificates parse certs))"

text \<open>The effect that takes a search out of the address while there is no field for it.\<close>

definition cert_correct :: "cert list option \<Rightarrow> params \<Rightarrow> params option" where
  "cert_correct certs u =
     (if certs = None \<or> showCertSearch certs \<or> url_get ''certQ'' u = None then None else Some (url_delete ''certQ'' u))"

datatype cert_view = CertsLoading | CertsFailed | NoCertificates | CertSearchEmpty | CertTable "cert list"

definition cert_card :: "(string \<Rightarrow> int option) \<Rightarrow> bool \<Rightarrow> bool \<Rightarrow> cert list option \<Rightarrow> params \<Rightarrow> cert_view" where
  "cert_card parse isLoading failed certs u =
     (if isLoading then CertsLoading
      else if failed then CertsFailed
      else case filteredCertificates parse certs u of
             None \<Rightarrow> NoCertificates
           | Some cs \<Rightarrow>
               if certs = Some [] then NoCertificates else if cs = [] then CertSearchEmpty else CertTable cs)"

interpretation certs: corrected_page "cert_correct certs" "filteredCertificates parse certs" for certs parse
  by unfold_locales (auto simp: cert_correct_def filteredCertificates_def certSearchQuery_def split: if_splits)

text \<open>The certificates in the order shown: those that end first are first, and none is lost.\<close>

definition dated :: "(string \<Rightarrow> int option) \<Rightarrow> cert \<Rightarrow> bool" where
  "dated parse c = (ct_expires_at c = [] \<or> parse (ct_expires_at c) \<noteq> None)"

definition ends_before :: "(string \<Rightarrow> int option) \<Rightarrow> cert \<Rightarrow> cert \<Rightarrow> bool" where
  "ends_before parse a b =
     (ct_expires_at b = [] \<or>
      ct_expires_at a \<noteq> [] \<and> (\<forall>x y. parse (ct_expires_at a) = Some x \<and> parse (ct_expires_at b) = Some y \<longrightarrow> x \<le> y))"

lemma cert_le_dated:
  assumes "dated parse a" and "dated parse b"
  shows "cert_le parse a b = ends_before parse a b"
  using assms by (auto simp: cert_le_def ends_before_def dated_def expiry_ms_def)

lemma sorted_insert_cert:
  assumes "sorted_wrt (ends_before parse) xs" and "\<And>y. y \<in> set (x # xs) \<Longrightarrow> dated parse y"
  shows "sorted_wrt (ends_before parse) (insert_by (cert_le parse) x xs)"
  using assms
proof (induction xs)
  case (Cons y ys)
  have set: "set (insert_by (cert_le parse) x ys) = set (x # ys)" for ys
    by (induction ys) auto
  have d: "dated parse x" "dated parse y" "\<And>z. z \<in> set ys \<Longrightarrow> dated parse z" using Cons.prems(2) by auto
  show ?case
  proof (cases "cert_le parse x y")
    case True
    then have "ends_before parse x y" using cert_le_dated d by blast
    moreover have "ends_before parse x z" if "z \<in> set ys" "ends_before parse y z" for z
      using calculation that d by (auto simp: ends_before_def dated_def)
    ultimately show ?thesis using True Cons.prems(1) by auto
  next
    case False
    then have "ends_before parse y x" using cert_le_dated[of parse x y] d by (auto simp: ends_before_def dated_def)
    then show ?thesis using False Cons.IH Cons.prems set by auto
  qed
qed simp

lemma certificates_sorted:
  "list_all (dated parse) cs \<Longrightarrow> sorted_wrt (ends_before parse) (order_by (cert_le parse) cs)"
proof (induction cs)
  case (Cons c cs)
  have "set (foldr (insert_by (cert_le parse)) cs []) = set cs" using set_order_by[of "cert_le parse" cs] by (simp add: order_by_def)
  with Cons sorted_insert_cert[of parse "order_by (cert_le parse) cs" c] show ?case
    by (auto simp: order_by_def list_all_iff)
qed (simp add: order_by_def)

text \<open>
  Whatever search the address has, the effect ends; then the table has the certificates whose domain the search names,
  each as often as the server sent it, those that end first before the others, and without a field for a search it has
  all of them.
\<close>

lemma certificates_shown:
  assumes "list_all (dated parse) cs"
  shows "\<exists>n' rows. effect_loop (cert_correct (Some cs)) n = Some n' \<and>
    filteredCertificates parse (Some cs) (nv_here n') = Some rows \<and> sorted_wrt (ends_before parse) rows \<and>
    (let q = js_lower (js_trim (certSearchQuery (nv_here n)))
     in mset rows = (if length cs \<le> 10 \<or> q = [] then mset cs
                     else filter_mset (\<lambda>c. js_includes q (js_lower (ct_domain c))) (mset cs))) \<and>
    (length cs \<le> 10 \<longrightarrow> url_get ''certQ'' (nv_here n') = None)"
proof -
  obtain n' where n': "effect_loop (cert_correct (Some cs)) n = Some n'" "cert_correct (Some cs) (nv_here n') = None"
    "filteredCertificates parse (Some cs) (nv_here n') = filteredCertificates parse (Some cs) (nv_here n)"
    using certs.loop_ends[of "Some cs" n parse] by blast
  have rows: "filteredCertificates parse (Some cs) (nv_here n) = Some (
      let q = js_lower (js_trim (certSearchQuery (nv_here n)))
      in if length cs \<le> 10 \<or> q = [] then order_by (cert_le parse) cs
         else filter (\<lambda>c. js_includes q (js_lower (ct_domain c))) (order_by (cert_le parse) cs))"
    by (simp add: filteredCertificates_def sortedCertificates_def showCertSearch_def CERT_TABLE_PAGINATION_THRESHOLD_def Let_def)
  have "length cs \<le> 10 \<Longrightarrow> url_get ''certQ'' (nv_here n') = None"
    using n'(2) by (auto simp: cert_correct_def showCertSearch_def CERT_TABLE_PAGINATION_THRESHOLD_def split: if_splits)
  then show ?thesis
    using n' rows certificates_sorted[OF assms] by (auto simp: Let_def sorted_wrt_filter mset_filter)
qed

subsection \<open>The badge of a certificate\<close>

datatype tls_badge = NotIssued | BadgeExpired | HoursLeft int | DaysLeft int | BadgeValid

text \<open>A text that is no date passes every comparison and is shown as valid.\<close>

definition TlsStatusBadge :: "(string \<Rightarrow> int option) \<Rightarrow> int \<Rightarrow> string option \<Rightarrow> tls_badge" where
  "TlsStatusBadge parse now expiresAt =
     (if expiresAt = None \<or> expiresAt = Some [] then NotIssued
      else case parse (the expiresAt) of
             None \<Rightarrow> BadgeValid
           | Some expiresMs \<Rightarrow>
               let diffMs = expiresMs - now
               in if diffMs \<le> 0 then BadgeExpired
                  else if diffMs < 86400000 then HoursLeft (max 1 (diffMs div 3600000))
                  else let days = - ((- diffMs) div 86400000)
                       in if days \<le> 30 then DaysLeft days else BadgeValid)"

text \<open>
  The server counts whole days, the badge begun ones: they agree on a certificate in good order but within the day
  behind the thirtieth, where the server warns and the badge is that of a valid certificate.
\<close>

lemma badge_and_severity:
  assumes "ct_expires_at c \<noteq> []" and "parse (ct_expires_at c) = Some ms"
  shows "TlsStatusBadge parse now (Some (ct_expires_at c)) = BadgeValid \<longleftrightarrow> 30 * 86400000 < ms - now"
    and "severity_of (cert_days parse now c) = SevNone \<longleftrightarrow> 31 * 86400000 \<le> ms - now"
    and "TlsStatusBadge parse now (Some (ct_expires_at c)) = BadgeExpired \<longleftrightarrow> ms \<le> now"
  using assms by (auto simp: TlsStatusBadge_def Let_def cert_days_def severity_threshold)

lemma badge_bounds:
  "TlsStatusBadge parse now e = HoursLeft n \<Longrightarrow> 1 \<le> n \<and> n \<le> 23"
  "TlsStatusBadge parse now e = DaysLeft n \<Longrightarrow> 1 \<le> n \<and> n \<le> 30"
  by (auto simp: TlsStatusBadge_def Let_def split: if_splits option.splits)

subsection \<open>Services, uptime, disk\<close>

record system_status =
  sy_proxy :: service_status
  sy_storage :: service_status
  sy_tls :: service_status
  sy_dns :: service_status
  sy_optimizer :: service_status

definition anyOffline :: "system_status option \<Rightarrow> bool" where
  "anyOffline st =
     (case st of
        None \<Rightarrow> False
      | Some s \<Rightarrow> \<not> sv_online (sy_proxy s) \<or> \<not> sv_online (sy_storage s) \<or> \<not> sv_online (sy_tls s) \<or>
                  \<not> sv_online (sy_dns s) \<or> \<not> sv_online (sy_optimizer s))"

text \<open>The cards of the five services: the time of an answer where one is online; none before the first answer.\<close>

definition service_cards :: "bool \<Rightarrow> system_status option \<Rightarrow> (bool \<times> int option) list option" where
  "service_cards isLoading st =
     (if isLoading then None
      else map_option (\<lambda>s. map (\<lambda>x. (sv_online x, if sv_online x then Some (sv_latency_ms x) else None))
             [sy_proxy s, sy_storage s, sy_tls s, sy_dns s, sy_optimizer s]) st)"

datatype time_unit = UDay | UHour | UMinute | USecond

text \<open>The parts of an uptime, \<open>None\<close> for the dash.\<close>

definition formatUptime :: "jsnum \<Rightarrow> (int \<times> time_unit) list option" where
  "formatUptime v =
     (case v of
        Fin s \<Rightarrow>
          if s < 0 then None
          else if s < 60 then Some [(\<lfloor>s\<rfloor>, USecond)]
          else let days = \<lfloor>s / 86400\<rfloor>;
                   hours = \<lfloor>(s - 86400 * of_int days) / 3600\<rfloor>;
                   minutes = \<lfloor>(s - 3600 * of_int \<lfloor>s / 3600\<rfloor>) / 60\<rfloor>
               in Some ((if 0 < days then [(days, UDay)] else []) @ (if 0 < hours then [(hours, UHour)] else []) @ [(minutes, UMinute)])
      | _ \<Rightarrow> None)"

fun unit_seconds :: "time_unit \<Rightarrow> int" where
  "unit_seconds UDay = 86400"
| "unit_seconds UHour = 3600"
| "unit_seconds UMinute = 60"
| "unit_seconds USecond = 1"

text \<open>For whole seconds; the parts add up to the uptime, but for what is below a minute.\<close>

lemma uptime_whole:
  "formatUptime (Fin (of_int n)) =
     (if n < 0 then None
      else if n < 60 then Some [(n, USecond)]
      else Some ((if 0 < n div 86400 then [(n div 86400, UDay)] else []) @
             (if 0 < n mod 86400 div 3600 then [(n mod 86400 div 3600, UHour)] else []) @ [(n mod 3600 div 60, UMinute)]))"
proof -
  have f: "\<lfloor>(of_int a :: rat) / of_int b\<rfloor> = a div b" for a b by (rule floor_divide_of_int_eq)
  have d: "\<lfloor>(of_int n :: rat) / 86400\<rfloor> = n div 86400" "\<lfloor>(of_int n :: rat) / 3600\<rfloor> = n div 3600"
    using f[of n 86400] f[of n 3600] by simp_all
  have r: "(of_int n - 86400 * of_int (n div 86400) :: rat) = of_int (n mod 86400)"
    "(of_int n - 3600 * of_int (n div 3600) :: rat) = of_int (n mod 3600)"
    by (simp_all flip: minus_mult_div_eq_mod)
  have h: "\<lfloor>(of_int n - 86400 * of_int (n div 86400) :: rat) / 3600\<rfloor> = n mod 86400 div 3600"
    unfolding r using f[of "n mod 86400" 3600] by simp
  have m: "\<lfloor>(of_int n - 3600 * of_int (n div 3600) :: rat) / 60\<rfloor> = n mod 3600 div 60"
    unfolding r using f[of "n mod 3600" 60] by simp
  have c: "(of_int n :: rat) < 0 \<longleftrightarrow> n < 0" "(of_int n :: rat) < 60 \<longleftrightarrow> n < 60"
    by (simp, metis of_int_less_iff of_int_numeral)
  show ?thesis unfolding formatUptime_def jsnum.case c Let_def d h m by simp
qed

lemma uptime_parts:
  assumes "formatUptime (Fin (of_int n)) = Some ps"
  shows "sum_list (map (\<lambda>(k, t). k * unit_seconds t) ps) = (if n < 60 then n else 60 * (n div 60))"
proof -
  define d h m where x: "d = n div 86400" "h = n mod 86400 div 3600" "m = n mod 3600 div 60"
  have "n mod 86400 mod 3600 = n mod 3600" "n mod 3600 mod 60 = n mod 60" by (simp_all add: mod_mod_cancel)
  then have "n = d * 86400 + n mod 86400" "n mod 86400 = h * 3600 + n mod 3600" "n mod 3600 = m * 60 + n mod 60"
    using div_mult_mod_eq[of n 86400] div_mult_mod_eq[of "n mod 86400" 3600] div_mult_mod_eq[of "n mod 3600" 60]
    unfolding x by simp_all
  then have e: "d * 86400 + (h * 3600 + m * 60) = 60 * (n div 60)" using div_mult_mod_eq[of n 60] by linarith
  have "0 \<le> n \<Longrightarrow> 0 \<le> d" "0 \<le> h" unfolding x by (auto simp: pos_imp_zdiv_nonneg_iff)
  with e assms[unfolded uptime_whole, folded x] show ?thesis by (auto split: if_splits)
qed

definition diskUsageRatio :: "(rat \<times> rat) option \<Rightarrow> rat" where
  "diskUsageRatio disk = (case disk of None \<Rightarrow> 0 | Some (used, maxb) \<Rightarrow> if 0 < maxb then used / maxb else 0)"

definition diskUsagePercent :: "(rat \<times> rat) option \<Rightarrow> int" where
  "diskUsagePercent disk =
     (if 1 \<le> diskUsageRatio disk then 100 else min \<lfloor>diskUsageRatio disk * 100\<rfloor> 99)"

definition isDiskWarning :: "(rat \<times> rat) option \<Rightarrow> bool" where
  "isDiskWarning disk = (9 / 10 \<le> diskUsageRatio disk)"

text \<open>The bar stays within its frame, and only a full disk is shown as full.\<close>

lemma disk_percent:
  assumes "case disk of None \<Rightarrow> True | Some (used, maxb) \<Rightarrow> 0 \<le> used"
  shows "0 \<le> diskUsagePercent disk \<and> diskUsagePercent disk \<le> 100 \<and>
    (diskUsagePercent disk = 100 \<longleftrightarrow> 1 \<le> diskUsageRatio disk) \<and> (isDiskWarning disk \<longleftrightarrow> 90 \<le> diskUsagePercent disk)"
proof -
  have "0 \<le> diskUsageRatio disk" using assms by (auto simp: diskUsageRatio_def split: option.splits)
  then show ?thesis by (auto simp: diskUsagePercent_def isDiskWarning_def le_floor_iff min_def floor_eq_iff)
qed

text \<open>The purge of everything: what is said of its outcome.\<close>

datatype purge_toast = NothingPurged | Purged jsnum "string option" | PurgeFailed

definition handlePurge :: "(jsnum \<Rightarrow> string) \<Rightarrow> (jsnum \<times> jsnum) option \<Rightarrow> purge_toast" where
  "handlePurge txt result =
     (case result of
        None \<Rightarrow> PurgeFailed
      | Some (purged, freed) \<Rightarrow> if purged = Fin 0 then NothingPurged else Purged purged (formatBytes freed txt))"

subsection \<open>Theme\<close>

datatype theme = ThemeSystem | ThemeLight | ThemeDark

fun theme_text :: "theme \<Rightarrow> string" where
  "theme_text ThemeSystem = ''system''"
| "theme_text ThemeLight = ''light''"
| "theme_text ThemeDark = ''dark''"

text \<open>The entry of the local storage, the setting of the system, the class of the document, and the choice shown.\<close>

record theme_page =
  tp_stored :: "string option"
  tp_os_dark :: bool
  tp_class :: bool
  tp_current :: theme

definition getTheme :: "string option \<Rightarrow> theme" where
  "getTheme stored = (if stored = Some ''light'' then ThemeLight else if stored = Some ''dark'' then ThemeDark else ThemeSystem)"

definition applyTheme :: "theme \<Rightarrow> theme_page \<Rightarrow> theme_page" where
  "applyTheme t s = s\<lparr>tp_class := (t = ThemeDark \<or> t = ThemeSystem \<and> tp_os_dark s)\<rparr>"

definition setTheme :: "theme \<Rightarrow> theme_page \<Rightarrow> theme_page" where
  "setTheme t s = applyTheme t (s\<lparr>tp_stored := Some (theme_text t)\<rparr>)"

definition handleThemeChange :: "theme \<Rightarrow> theme_page \<Rightarrow> theme_page" where
  "handleThemeChange t s = (setTheme t s)\<lparr>tp_current := t\<rparr>"

definition initTheme :: "theme_page \<Rightarrow> theme_page" where
  "initTheme s = applyTheme (getTheme (tp_stored s)) s"

definition os_theme_changed :: "bool \<Rightarrow> theme_page \<Rightarrow> theme_page" where
  "os_theme_changed dark s =
     (let s' = s\<lparr>tp_os_dark := dark\<rparr> in if getTheme (tp_stored s') = ThemeSystem then applyTheme ThemeSystem s' else s')"

inductive theme_reachable :: "theme_page \<Rightarrow> bool" where
  loaded: "theme_reachable ((initTheme s)\<lparr>tp_current := getTheme (tp_stored s)\<rparr>)"
| chosen: "theme_reachable s \<Longrightarrow> theme_reachable (handleThemeChange t s)"
| os_changed: "theme_reachable s \<Longrightarrow> theme_reachable (os_theme_changed dark s)"

lemma getTheme_text [simp]: "getTheme (Some (theme_text t)) = t"
  by (cases t) (simp_all add: getTheme_def)

text \<open>The page is dark exactly when the stored choice asks for it, and the button pressed is the stored one.\<close>

lemma theme_followed:
  "theme_reachable s \<Longrightarrow>
   tp_current s = getTheme (tp_stored s) \<and>
   (tp_class s \<longleftrightarrow> tp_current s = ThemeDark \<or> tp_current s = ThemeSystem \<and> tp_os_dark s)"
proof (induction rule: theme_reachable.induct)
  case (loaded s)
  then show ?case by (simp add: initTheme_def applyTheme_def)
next
  case (chosen s t)
  then show ?case by (simp add: handleThemeChange_def setTheme_def applyTheme_def)
next
  case (os_changed s dark)
  then show ?case by (auto simp: os_theme_changed_def applyTheme_def Let_def)
qed

subsection \<open>The system page as a whole\<close>

text \<open>What a query has: data, whether its first fetch runs, whether it failed.\<close>

record 'a fetched =
  fe_data :: "'a option"
  fe_loading :: bool
  fe_failed :: bool

datatype 'a card = CardLoading | CardFailed | CardShown 'a

definition card_of :: "'a fetched \<Rightarrow> 'b \<Rightarrow> 'b card" where
  "card_of q v = (if fe_loading q then CardLoading else if fe_failed q then CardFailed else CardShown v)"

text \<open>A certificate in the table: host, address of its page, both dates as text, badge. The date of issue is
  an argument: the record of a certificate leaves it out.\<close>

record cert_row =
  cr_domain :: string
  cr_link :: string
  cr_issued :: string
  cr_expires :: string
  cr_badge :: tls_badge

definition cert_row_of ::
  "(string \<Rightarrow> int option) \<Rightarrow> (string \<Rightarrow> string) \<Rightarrow> (cert \<Rightarrow> string) \<Rightarrow> int \<Rightarrow> cert \<Rightarrow> cert_row" where
  "cert_row_of parse date issued now c =
     \<lparr>cr_domain = ct_domain c, cr_link = ''/domains/'' @ encodeURIComponent (ct_domain c), cr_issued = issued c,
      cr_expires = date (ct_expires_at c), cr_badge = TlsStatusBadge parse now (Some (ct_expires_at c))\<rparr>"

text \<open>The field of the search with the two numbers beside it, the buttons of the downloads, those of the theme.\<close>

definition cert_search :: "(string \<Rightarrow> int option) \<Rightarrow> cert list option \<Rightarrow> params \<Rightarrow> (string \<times> nat \<times> nat) option" where
  "cert_search parse certs u =
     (if showCertSearch certs
      then Some (certSearchQuery u, length (or_else (filteredCertificates parse certs u) []), length (or_else (sortedCertificates parse certs) []))
      else None)"

definition download_buttons :: "bool \<Rightarrow> bool \<Rightarrow> (bool \<times> string) list" where
  "download_buttons ca mc =
     [(ca, if ca then ''downloading'' else ''.crt''), (mc, if mc then ''downloading'' else ''iOS profile'')]"

definition theme_buttons :: "theme_page \<Rightarrow> (theme \<times> bool) list" where
  "theme_buttons th = map (\<lambda>t. (t, t = tp_current th)) [ThemeSystem, ThemeLight, ThemeDark]"

record system_view =
  sw_services :: "(bool \<times> int option) list option"
  sw_offline_banner :: bool
  sw_disk_banner :: "int option"
  sw_uptime :: "((int \<times> time_unit) list option \<times> bool) card"
  sw_disk :: "(string option option \<times> string option option \<times> bool \<times> int) card"
  sw_downloads :: "(bool \<times> string) list"
  sw_search :: "(string \<times> nat \<times> nat) option"
  sw_certs :: cert_view
  sw_rows :: "cert_row list"
  sw_themes :: "(theme \<times> bool) list"

definition SystemPage ::
  "(string \<Rightarrow> int option) \<Rightarrow> (string \<Rightarrow> string) \<Rightarrow> (cert \<Rightarrow> string) \<Rightarrow> (jsnum \<Rightarrow> string) \<Rightarrow> int \<Rightarrow> (jsnum \<times> bool) fetched \<Rightarrow>
   (rat \<times> rat) fetched \<Rightarrow> cert list fetched \<Rightarrow> system_status fetched \<Rightarrow> bool \<Rightarrow> bool \<Rightarrow> theme_page \<Rightarrow> params \<Rightarrow> system_view" where
  "SystemPage parse date issued txt now status cache certs sys caBusy mcBusy th u =
     (let disk = fe_data cache;
          view = cert_card parse (fe_loading certs) (fe_failed certs) (fe_data certs) u
      in \<lparr>sw_services = service_cards (fe_loading sys) (fe_data sys),
          sw_offline_banner = anyOffline (fe_data sys),
          sw_disk_banner = (if isDiskWarning disk then Some (diskUsagePercent disk) else None),
          sw_uptime = card_of status
            (case fe_data status of None \<Rightarrow> (None, False) | Some (uptime, online) \<Rightarrow> (formatUptime uptime, online)),
          sw_disk = card_of cache
            (map_option (\<lambda>(used, maxb). formatBytes (Fin used) txt) disk, map_option (\<lambda>(used, maxb). formatBytes (Fin maxb) txt) disk,
             isDiskWarning disk, diskUsagePercent disk),
          sw_downloads = download_buttons caBusy mcBusy,
          sw_search = (case view of
                         CertSearchEmpty \<Rightarrow> cert_search parse (fe_data certs) u
                       | CertTable cs \<Rightarrow> cert_search parse (fe_data certs) u
                       | _ \<Rightarrow> None),
          sw_certs = view,
          sw_rows = (case view of CertTable cs \<Rightarrow> map (cert_row_of parse date issued now) cs | _ \<Rightarrow> []),
          sw_themes = theme_buttons th\<rparr>)"

text \<open>The rows and the count over them agree, and the count never exceeds the number of certificates.\<close>

lemma search_counts_rows:
  assumes "sw_search (SystemPage parse date issued txt now status cache certs sys ca mc th u) = Some (q, n, all)"
  shows "n = length (sw_rows (SystemPage parse date issued txt now status cache certs sys ca mc th u)) \<and> n \<le> all"
proof -
  obtain cs where cs: "fe_data certs = Some cs" "CERT_TABLE_PAGINATION_THRESHOLD < length cs"
    using assms by (auto simp: SystemPage_def Let_def cert_search_def showCertSearch_def split: if_splits option.splits cert_view.splits)
  have le: "length (filter P (order_by r cs)) \<le> length cs" for P r
    by (metis length_filter_le mset_order_by size_mset)
  have same: "length (order_by r cs) = length cs" for r :: "cert \<Rightarrow> cert \<Rightarrow> bool"
    by (metis mset_order_by size_mset)
  have none: "order_by r cs = [] \<longleftrightarrow> cs = []" for r :: "cert \<Rightarrow> cert \<Rightarrow> bool"
    by (metis mset_order_by mset_zero_iff)
  show ?thesis using assms cs le same none
    by (auto simp: SystemPage_def Let_def cert_card_def cert_search_def filteredCertificates_def sortedCertificates_def split: if_splits)
qed

text \<open>The warning above the page names the number of the bar below it.\<close>

lemma disk_banner_agrees:
  assumes "sw_disk_banner (SystemPage parse date issued txt now status cache certs sys ca mc th u) = Some p"
    and "sw_disk (SystemPage parse date issued txt now status cache certs sys ca mc th u) = CardShown (used, maxb, warn, shown)"
  shows "warn \<and> shown = p \<and> fe_data cache \<noteq> None"
  using assms
  by (auto simp: SystemPage_def Let_def card_of_def isDiskWarning_def diskUsageRatio_def split: if_splits option.splits)

subsection \<open>The page of one domain\<close>

text \<open>What \<open>useDomain\<close> has: the domain, whether the first fetch runs, an error with its status.\<close>

record domain_result =
  dq_data :: "domain option"
  dq_loading :: bool
  dq_error :: "int option option"
  dq_fetching :: bool

datatype detail_page = DetailError bool | DetailSkeleton | DetailShown domain

definition DomainDetailPage :: "domain_result \<Rightarrow> detail_page" where
  "DomainDetailPage r =
     (case dq_error r of
        Some e \<Rightarrow>
          if \<not> isNotFoundError e then DetailError (\<not> dq_fetching r)
          else (case dq_data r of None \<Rightarrow> DetailSkeleton | Some d \<Rightarrow> if dq_loading r then DetailSkeleton else DetailShown d)
      | None \<Rightarrow> (case dq_data r of None \<Rightarrow> DetailSkeleton | Some d \<Rightarrow> if dq_loading r then DetailSkeleton else DetailShown d))"

text \<open>The effect that leads to the list, and the route without a host that does so at once.\<close>

definition leaves_for_list :: "domain_result \<Rightarrow> bool" where
  "leaves_for_list r = (case dq_error r of None \<Rightarrow> False | Some e \<Rightarrow> isNotFoundError e)"

definition detail_route :: "string option \<Rightarrow> string option" where
  "detail_route host = (if host = None \<or> host = Some [] then Some ''/domains'' else None)"

text \<open>How often a failed request for the domain is sent again: three times, but not after a 404.\<close>

fun domain_attempts :: "nat \<Rightarrow> int option list \<Rightarrow> nat" where
  "domain_attempts n [] = n"
| "domain_attempts n (e # es) = (if domain_retry n e then domain_attempts (Suc n) es else Suc n)"

lemma domain_attempts_bound: "n \<le> 3 \<Longrightarrow> domain_attempts n es \<le> 4"
  by (induction n es rule: domain_attempts.induct) (auto simp: domain_retry_def)

text \<open>
  The server answers 404 to the request of the page exactly when the host is not registered: the page is left for the
  list for such hosts alone, and every other failure is shown with a way to try again.
\<close>

lemma leaves_when_unregistered:
  assumes "normalizeHost h = h" and "get_one (encodeURIComponent h) c = r"
    and "dq_error q = (if is_ok r then None else Some (Some (status_of r)))"
  shows "leaves_for_list q \<longleftrightarrow> findByHost (t_domains (c_db c)) h = None"
  using assms by (auto simp: leaves_for_list_def isNotFoundError_def get_one_def host_param_encode split: option.splits)

end
