(* ===== verification/Detail_Actions.thy ===== *)
theory Detail_Actions
  imports System_Page
begin

section \<open>The web client: actions on domains\<close>

text \<open>
  The buttons and dialogs that change domains: the header of a domain (\<open>DomainDetailHeader.tsx\<close>), its quick actions
  (\<open>DomainQuickActions.tsx\<close>), the deletion of several (\<open>DomainBulkDeleteDialog.tsx\<close>) and the purge of everything
  (\<open>DangerZoneCard.tsx\<close>), what is said of the outcome of the changes of many domains, and the banner of the alerts.
\<close>

subsection \<open>Dialogs that ask before they act\<close>

text \<open>Open or not, and whether the request is under way; a dialog does not close while it is.\<close>

record confirm =
  cd_open :: bool
  cd_pending :: bool

definition dialog_show :: "confirm \<Rightarrow> confirm" where
  "dialog_show c = c\<lparr>cd_open := True\<rparr>"

definition dialog_close :: "confirm \<Rightarrow> confirm" where
  "dialog_close c = (if cd_pending c then c else c\<lparr>cd_open := False\<rparr>)"

text \<open>The button of the dialog, disabled while the request is under way; the result tells whether it is sent.\<close>

definition dialog_confirm :: "confirm \<Rightarrow> confirm \<times> bool" where
  "dialog_confirm c = (if cd_open c \<and> \<not> cd_pending c then (c\<lparr>cd_pending := True\<rparr>, True) else (c, False))"

text \<open>The end of the request: some dialogs stay open after a failure, others close in any case.\<close>

definition dialog_settled :: "bool \<Rightarrow> confirm \<Rightarrow> confirm" where
  "dialog_settled keeps c = \<lparr>cd_open = (cd_open c \<and> keeps), cd_pending = False\<rparr>"

text \<open>While a request is under way its dialog is open, so no second one is sent before its end.\<close>

definition dialog_ok :: "confirm \<Rightarrow> bool" where
  "dialog_ok c = (cd_pending c \<longrightarrow> cd_open c)"

lemma dialog_kept [simp]:
  "dialog_ok c \<Longrightarrow> dialog_ok (dialog_show c)" "dialog_ok c \<Longrightarrow> dialog_ok (dialog_close c)"
  "dialog_ok c \<Longrightarrow> dialog_ok (fst (dialog_confirm c))" "dialog_ok (dialog_settled keeps c)"
  by (auto simp: dialog_ok_def dialog_show_def dialog_close_def dialog_confirm_def dialog_settled_def)

subsection \<open>The header of a domain\<close>

record header =
  hd_purge :: confirm
  hd_delete :: confirm
  hd_toggling :: bool
  hd_left :: bool

definition header_mount :: header where
  "header_mount = \<lparr>hd_purge = \<lparr>cd_open = False, cd_pending = False\<rparr>, hd_delete = \<lparr>cd_open = False, cd_pending = False\<rparr>,
     hd_toggling = False, hd_left = False\<rparr>"

datatype header_event =
    HPurge | HPurgeClose | HPurgeConfirm | HPurgeSettled bool
  | HToggle | HToggleSettled
  | HDelete | HDeleteClose | HDeleteConfirm | HDeleteSettled bool

text \<open>The button for a purge is disabled for a domain that is not enabled, the one for the dialog is not.\<close>

definition header_purge_disabled :: "domain \<Rightarrow> header \<Rightarrow> bool" where
  "header_purge_disabled d s = (cd_pending (hd_purge s) \<or> d_enabled d \<noteq> 1)"

definition header_purge_settled :: "bool \<Rightarrow> header \<Rightarrow> header" where
  "header_purge_settled ok s = s\<lparr>hd_purge := dialog_settled (\<not> ok) (hd_purge s)\<rparr>"

definition header_toggle :: "domain \<Rightarrow> header \<Rightarrow> header \<times> client_mutation list" where
  "header_toggle d s = (if hd_toggling s then (s, []) else (s\<lparr>hd_toggling := True\<rparr>, [MToggle (d_host d)]))"

text \<open>A deletion that succeeded leads to the list; the dialog closes in any case.\<close>

definition header_delete_settled :: "bool \<Rightarrow> header \<Rightarrow> header" where
  "header_delete_settled ok s = s\<lparr>hd_delete := dialog_settled False (hd_delete s), hd_left := (hd_left s \<or> ok)\<rparr>"

fun header_step :: "domain \<Rightarrow> header_event \<Rightarrow> header \<Rightarrow> header \<times> client_mutation list" where
  "header_step d HPurge s = (if header_purge_disabled d s then s else s\<lparr>hd_purge := dialog_show (hd_purge s)\<rparr>, [])"
| "header_step d HPurgeClose s = (s\<lparr>hd_purge := dialog_close (hd_purge s)\<rparr>, [])"
| "header_step d HPurgeConfirm s =
     (case dialog_confirm (hd_purge s) of (c, sent) \<Rightarrow> (s\<lparr>hd_purge := c\<rparr>, if sent then [MPurgeDomain (d_host d)] else []))"
| "header_step d (HPurgeSettled ok) s = (if cd_pending (hd_purge s) then header_purge_settled ok s else s, [])"
| "header_step d HToggle s = header_toggle d s"
| "header_step d HToggleSettled s = (s\<lparr>hd_toggling := False\<rparr>, [])"
| "header_step d HDelete s = (s\<lparr>hd_delete := dialog_show (hd_delete s)\<rparr>, [])"
| "header_step d HDeleteClose s = (s\<lparr>hd_delete := dialog_close (hd_delete s)\<rparr>, [])"
| "header_step d HDeleteConfirm s =
     (case dialog_confirm (hd_delete s) of (c, sent) \<Rightarrow> (s\<lparr>hd_delete := c\<rparr>, if sent then [MDelete (d_host d)] else []))"
| "header_step d (HDeleteSettled ok) s = (if cd_pending (hd_delete s) then header_delete_settled ok s else s, [])"

text \<open>The domain may be another row of the same host with each event, as it is fetched anew.\<close>

fun header_run :: "(domain \<times> header_event) list \<Rightarrow> header \<Rightarrow> header \<times> client_mutation list" where
  "header_run [] s = (s, [])"
| "header_run ((d, e) # es) s =
     (let (s1, ms) = header_step d e s; (s2, ms') = header_run es s1 in (s2, ms @ ms'))"

definition pending_requests :: "header \<Rightarrow> nat" where
  "pending_requests s =
     (if cd_pending (hd_purge s) then 1 else 0) + (if cd_pending (hd_delete s) then 1 else 0) + (if hd_toggling s then 1 else 0)"

text \<open>Requests are about the host of the page, and of each kind at most one is under way.\<close>

lemma header_step_sent:
  assumes "header_step d e s = (s', ms)" and "m \<in> set ms"
  shows "m \<in> {MPurgeDomain (d_host d), MToggle (d_host d), MDelete (d_host d)}"
    and "pending_requests s' = Suc (pending_requests s)"
  using assms by (cases e; auto simp: header_toggle_def dialog_confirm_def pending_requests_def split: if_splits)+

lemma header_run_hosts:
  "header_run es s = (s', ms) \<Longrightarrow> list_all (\<lambda>(d, e). d_host d = h) es \<Longrightarrow>
   set ms \<subseteq> {MPurgeDomain h, MToggle h, MDelete h}"
proof (induction es arbitrary: s ms)
  case (Cons x es)
  obtain d e where x: "x = (d, e)" by fastforce
  obtain s1 ms1 ms2 where r: "header_step d e s = (s1, ms1)" "header_run es s1 = (s', ms2)" "ms = ms1 @ ms2"
    using Cons.prems(1) x by (auto simp: Let_def split: prod.splits)
  with Cons header_step_sent(1)[OF r(1)] x show ?case by fastforce
qed simp

subsection \<open>The quick actions\<close>

text \<open>What the dialog of the proxy test keeps: no path was given, the request failed, or the answer of the server.\<close>

datatype test_outcome = PathMissing | RequestFailed | Answered test_result

text \<open>How it is shown: an error with its text, a status from 400 on, a redirect, or a success with its headers.\<close>

datatype test_view = ShownError string | ShownStatus int | ShownRedirect int | ShownSuccess int "(string \<times> string) list"

definition test_shown :: "test_outcome \<Rightarrow> test_view" where
  "test_shown o' =
     (case o' of
        PathMissing \<Rightarrow> ShownError ''path missing''
      | RequestFailed \<Rightarrow> ShownError ''request failed''
      | Answered (TestFailed e) \<Rightarrow> ShownError e
      | Answered (TestOk n hs) \<Rightarrow>
          if 400 \<le> n then ShownStatus n else if 300 \<le> n then ShownRedirect n else ShownSuccess n hs)"

record proxy_dialog =
  pd_open :: bool
  pd_https :: bool
  pd_path :: string
  pd_loading :: bool
  pd_result :: "test_outcome option"

definition proxy_dialog_mount :: proxy_dialog where
  "proxy_dialog_mount = \<lparr>pd_open = False, pd_https = True, pd_path = ''/'', pd_loading = False, pd_result = None\<rparr>"

text \<open>The button, disabled while a test runs; a blank path ends it here.\<close>

definition handleTest :: "string \<Rightarrow> proxy_dialog \<Rightarrow> proxy_dialog \<times> client_mutation list" where
  "handleTest host s =
     (if pd_loading s then (s, [])
      else if js_trim (pd_path s) = [] then (s\<lparr>pd_result := Some PathMissing\<rparr>, [])
      else (s\<lparr>pd_loading := True, pd_result := None\<rparr>,
            [MTestProxy host (pd_path s) (Some (if pd_https s then ''https'' else ''http''))]))"

definition test_answered :: "test_result reply \<Rightarrow> proxy_dialog \<Rightarrow> proxy_dialog" where
  "test_answered r s =
     s\<lparr>pd_loading := False, pd_result := Some (case r of Ok n x \<Rightarrow> Answered x | _ \<Rightarrow> RequestFailed)\<rparr>"

definition handleClose :: "proxy_dialog \<Rightarrow> proxy_dialog" where
  "handleClose s = s\<lparr>pd_open := False, pd_https := True, pd_path := ''/'', pd_result := None\<rparr>"

record quick_actions =
  qa_test :: proxy_dialog
  qa_purge :: confirm
  qa_renewing :: bool
  qa_syncing :: bool

datatype quick_event =
    QTestOpen | QTestClose | QProtocol bool | QPath string | QTest | QTestAnswered "test_result reply"
  | QPurge | QPurgeClose | QPurgeConfirm | QPurgeSettled bool
  | QRenew | QRenewSettled | QSync | QSyncSettled

definition isInactive :: "domain \<Rightarrow> bool" where
  "isInactive d = (d_enabled d = 0)"

fun quick_step :: "domain \<Rightarrow> quick_event \<Rightarrow> quick_actions \<Rightarrow> quick_actions \<times> client_mutation list" where
  "quick_step d QTestOpen s = (if isInactive d then s else s\<lparr>qa_test := (qa_test s)\<lparr>pd_open := True\<rparr>\<rparr>, [])"
| "quick_step d QTestClose s = (s\<lparr>qa_test := handleClose (qa_test s)\<rparr>, [])"
| "quick_step d (QProtocol b) s = (s\<lparr>qa_test := (qa_test s)\<lparr>pd_https := b\<rparr>\<rparr>, [])"
| "quick_step d (QPath v) s = (s\<lparr>qa_test := (qa_test s)\<lparr>pd_path := v\<rparr>\<rparr>, [])"
| "quick_step d QTest s =
     (if pd_open (qa_test s)
      then case handleTest (d_host d) (qa_test s) of (t, ms) \<Rightarrow> (s\<lparr>qa_test := t\<rparr>, ms)
      else (s, []))"
| "quick_step d (QTestAnswered r) s =
     (if pd_loading (qa_test s) then s\<lparr>qa_test := test_answered r (qa_test s)\<rparr> else s, [])"
| "quick_step d QPurge s = (if isInactive d then s else s\<lparr>qa_purge := dialog_show (qa_purge s)\<rparr>, [])"
| "quick_step d QPurgeClose s = (s\<lparr>qa_purge := dialog_close (qa_purge s)\<rparr>, [])"
| "quick_step d QPurgeConfirm s =
     (case dialog_confirm (qa_purge s) of (c, sent) \<Rightarrow> (s\<lparr>qa_purge := c\<rparr>, if sent then [MPurgeDomain (d_host d)] else []))"
| "quick_step d (QPurgeSettled ok) s =
     (if cd_pending (qa_purge s) then s\<lparr>qa_purge := dialog_settled (\<not> ok) (qa_purge s)\<rparr> else s, [])"
| "quick_step d QRenew s =
     (if qa_renewing s \<or> isInactive d then (s, []) else (s\<lparr>qa_renewing := True\<rparr>, [MTlsRenew (d_host d)]))"
| "quick_step d QRenewSettled s = (s\<lparr>qa_renewing := False\<rparr>, [])"
| "quick_step d QSync s =
     (if qa_syncing s \<or> isInactive d then (s, []) else (s\<lparr>qa_syncing := True\<rparr>, [MSync (d_host d)]))"
| "quick_step d QSyncSettled s = (s\<lparr>qa_syncing := False\<rparr>, [])"

fun quick_run :: "(domain \<times> quick_event) list \<Rightarrow> quick_actions \<Rightarrow> quick_actions \<times> client_mutation list" where
  "quick_run [] s = (s, [])"
| "quick_run ((d, e) # es) s =
     (let (s1, ms) = quick_step d e s; (s2, ms') = quick_run es s1 in (s2, ms @ ms'))"

definition quick_mount :: quick_actions where
  "quick_mount = \<lparr>qa_test = proxy_dialog_mount, qa_purge = \<lparr>cd_open = False, cd_pending = False\<rparr>, qa_renewing = False, qa_syncing = False\<rparr>"

text \<open>As long as the domain is not enabled nothing is sent and no dialog opens.\<close>

definition quick_shut :: "quick_actions \<Rightarrow> bool" where
  "quick_shut s = (\<not> pd_open (qa_test s) \<and> \<not> cd_open (qa_purge s))"

lemma quick_inactive:
  assumes "quick_run es s = (s', ms)" and "list_all (\<lambda>(d, e). isInactive d) es" and "quick_shut s"
  shows "ms = [] \<and> quick_shut s'"
  using assms
proof (induction es arbitrary: s ms)
  case (Cons x es)
  obtain d e where x: "x = (d, e)" by fastforce
  obtain s1 ms1 ms2 where r: "quick_step d e s = (s1, ms1)" "quick_run es s1 = (s', ms2)" "ms = ms1 @ ms2"
    using Cons.prems(1) x by (auto simp: Let_def split: prod.splits)
  have "ms1 = [] \<and> quick_shut s1"
    using r(1) Cons.prems(2,3) x
    by (cases e) (auto simp: quick_shut_def handleClose_def dialog_close_def dialog_confirm_def dialog_settled_def test_answered_def
        split: if_splits)
  with Cons r x show ?case by auto
qed simp

text \<open>
  The answer to a test whose dialog was closed is shown in the dialog opened next, beside a path that was not tested.
\<close>

lemma late_test_result:
  assumes "d_enabled d = 1"
  shows "pd_result (qa_test (fst (quick_run
      [(d, QTestOpen), (d, QPath ''/slow''), (d, QTest), (d, QTestClose), (d, QTestOpen), (d, QTestAnswered (Ok 200 (TestOk 200 [])))] quick_mount)))
    = Some (Answered (TestOk 200 [])) \<and>
    pd_path (qa_test (fst (quick_run
      [(d, QTestOpen), (d, QPath ''/slow''), (d, QTest), (d, QTestClose), (d, QTestOpen), (d, QTestAnswered (Ok 200 (TestOk 200 [])))] quick_mount))) = ''/''"
proof -
  have "js_trim ''/slow'' \<noteq> []" by code_simp
  with assms show ?thesis
    by (simp add: quick_mount_def proxy_dialog_mount_def isInactive_def handleTest_def handleClose_def test_answered_def)
qed

text \<open>The body of a test as the server reads it, and a path the dialog lets pass but the server does not.\<close>

definition read_test :: "json option \<Rightarrow> test_body option" where
  "read_test b =
     (case b of
        Some (JObject fs) \<Rightarrow>
          Some \<lparr>tb_domain = body_field ''domain'' b, tb_path = body_field ''path'' b, tb_protocol = body_field ''protocol'' b\<rparr>
      | _ \<Rightarrow> None)"

lemma read_test_call:
  "read_test (hc_body (mutation_call (MTestProxy host path (Some protocol)))) =
     Some \<lparr>tb_domain = Str host, tb_path = Str path, tb_protocol = Str protocol\<rparr>"
  by (simp add: read_test_def testProxy_def send_call_def body_field_def)

lemma dialog_test_answered:
  assumes "handleTest host s = (s', [m])" and "findByHost t host \<noteq> None" and "normalizeHost host = host" and "host \<noteq> []"
  shows "proxy_test sql_text (Some t) send (read_test (hc_body (mutation_call m))) =
    (if bad_path (pd_path s) then (Reject 400 ''invalid_path'', [])
     else let rq = \<lparr>tr_https = pd_https s, tr_host = Str host, tr_path = pd_path s\<rparr> in (Ok 200 (run_test send rq), [rq]))"
proof -
  have m: "m = MTestProxy host (pd_path s) (Some (if pd_https s then ''https'' else ''http''))" and p: "js_trim (pd_path s) \<noteq> []"
    using assms(1) by (auto simp: handleTest_def split: if_splits)
  have "pd_path s \<noteq> []" using p by (auto simp: js_trim_def)
  then show ?thesis
    using assms(2-4) unfolding m read_test_call
    by (auto simp: proxy_test_def Let_def test_domain_def test_lookup_def)
qed

subsection \<open>Particles\<close>

text \<open>
  A name in a sentence is followed by a particle that depends on its last sound (\<open>lib/korean.ts\<close>). Words are lists of
  UTF-16 code units, the particles one unit each.
\<close>

definition unit_ws :: "nat \<Rightarrow> bool" where
  "unit_ws u = (9 \<le> u \<and> u \<le> 13 \<or> u \<in> {32, 0xA0, 0x1680, 0x2028, 0x2029, 0x202F, 0x205F, 0x3000, 0xFEFF} \<or> 0x2000 \<le> u \<and> u \<le> 0x200A)"

definition unit_punct :: "nat \<Rightarrow> bool" where
  "unit_punct u = (u \<in> of_char ` set ''.,;:!?()[]{}`/<>|'' \<union> {34, 39, 92})"

definition unit_trim :: "nat list \<Rightarrow> nat list" where
  "unit_trim s = rev (dropWhile unit_ws (rev (dropWhile unit_ws s)))"

definition lastMeaningfulChar :: "nat list \<Rightarrow> nat option" where
  "lastMeaningfulChar s =
     (case dropWhile (\<lambda>u. unit_ws u \<or> unit_punct u) (rev (unit_trim s)) of [] \<Rightarrow> None | u # us \<Rightarrow> Some u)"

definition unit_letter :: "nat \<Rightarrow> bool" where
  "unit_letter u = (65 \<le> u \<and> u \<le> 90 \<or> 97 \<le> u \<and> u \<le> 122)"

definition hasJongseong :: "nat list \<Rightarrow> bool" where
  "hasJongseong s =
     (case lastMeaningfulChar s of
        None \<Rightarrow> False
      | Some code \<Rightarrow>
          if 0xAC00 \<le> code \<and> code \<le> 0xD7A3 then (code - 0xAC00) mod 28 \<noteq> 0
          else if unit_letter code
               then (if code \<le> 90 then code + 32 else code) \<in> of_char ` set ''bcdfghjklmnpqrstxz''
          else if 48 \<le> code \<and> code \<le> 57 then code \<in> of_char ` set ''0136780''
          else False)"

definition eulReul :: "nat list \<Rightarrow> nat" where
  "eulReul s = (if hasJongseong s then 0xC744 else 0xB97C)"

definition iGa :: "nat list \<Rightarrow> nat" where
  "iGa s = (if hasJongseong s then 0xC774 else 0xAC00)"

definition eunNeun :: "nat list \<Rightarrow> nat" where
  "eunNeun s = (if hasJongseong s then 0xC740 else 0xB294)"

definition waGwa :: "nat list \<Rightarrow> nat" where
  "waGwa s = (if hasJongseong s then 0xACFC else 0xC640)"

text \<open>Blanks and punctuation behind a word change nothing; a word that ends in a syllable follows its final.\<close>

lemma last_meaningful:
  "lastMeaningfulChar s = (case dropWhile (\<lambda>u. unit_ws u \<or> unit_punct u) (rev s) of [] \<Rightarrow> None | u # us \<Rightarrow> Some u)"
proof -
  let ?P = "\<lambda>u. unit_ws u \<or> unit_punct u"
  have inner: "dropWhile ?P (dropWhile unit_ws xs) = dropWhile ?P xs" for xs
    by (induction xs) auto
  have outer: "(case dropWhile ?P (rev (dropWhile unit_ws xs)) of [] \<Rightarrow> None | u # us \<Rightarrow> Some u) =
      (case dropWhile ?P (rev xs) of [] \<Rightarrow> None | u # us \<Rightarrow> Some u)" for xs
  proof (induction xs)
    case (Cons x xs)
    show ?case
    proof (cases "unit_ws x")
      case True
      have none: "dropWhile ?P (rev xs) = [] \<longleftrightarrow> (\<forall>u \<in> set xs. ?P u)" by (simp add: dropWhile_eq_Nil_conv)
      have "(case dropWhile ?P (rev xs @ [x]) of [] \<Rightarrow> None | u # us \<Rightarrow> Some u) =
          (case dropWhile ?P (rev xs) of [] \<Rightarrow> None | u # us \<Rightarrow> Some u)"
      proof (cases "\<forall>u \<in> set xs. ?P u")
        case True
        then have "dropWhile ?P (rev xs) = []" "dropWhile ?P (rev xs @ [x]) = []" using \<open>unit_ws x\<close> none by simp_all
        then show ?thesis by (simp only: list.case)
      next
        case False
        then show ?thesis using none by (cases "dropWhile ?P (rev xs)") (auto simp: dropWhile_append)
      qed
      then show ?thesis using Cons True by simp
    qed simp
  qed simp
  show ?thesis unfolding lastMeaningfulChar_def unit_trim_def rev_rev_ident inner outer ..
qed

lemma particle_behind_punctuation:
  assumes "list_all (\<lambda>u. unit_ws u \<or> unit_punct u) us"
  shows "hasJongseong (s @ us) = hasJongseong s"
proof -
  have "dropWhile (\<lambda>u. unit_ws u \<or> unit_punct u) (rev us @ rev s) = dropWhile (\<lambda>u. unit_ws u \<or> unit_punct u) (rev s)"
    using assms by (auto simp: dropWhile_append list_all_iff)
  then show ?thesis by (simp add: hasJongseong_def last_meaningful)
qed

lemma particle_of_syllable:
  assumes "c < 19 * 21 * 28"
  shows "hasJongseong (s @ [0xAC00 + c]) \<longleftrightarrow> c mod 28 \<noteq> 0"
proof -
  have "\<not> unit_ws (0xAC00 + c)" "\<not> unit_punct (0xAC00 + c)"
    using assms by (auto simp: unit_ws_def unit_punct_def)
  with assms show ?thesis by (simp add: hasJongseong_def last_meaningful)
qed

subsection \<open>What the header and the quick actions show\<close>

text \<open>
  The name with the state and the description, the button of the purge and of the switch with whether they are disabled
  and busy, and the open dialogs: whether their buttons are held, and the particle in the question of the deletion.
\<close>

record header_view =
  hv_host :: string
  hv_active :: bool
  hv_description :: "string option"
  hv_purge :: "bool \<times> bool"
  hv_toggle :: "bool \<times> bool"
  hv_purge_dialog :: "bool option"
  hv_delete_dialog :: "(nat \<times> bool) option"

definition units :: "string \<Rightarrow> nat list" where
  "units s = map of_char s"

definition DomainDetailHeader :: "domain \<Rightarrow> header \<Rightarrow> header_view" where
  "DomainDetailHeader d s =
     \<lparr>hv_host = d_host d, hv_active = (d_enabled d = 1),
      hv_description = (if d_description d = [] then None else Some (d_description d)),
      hv_purge = (header_purge_disabled d s, cd_pending (hd_purge s)),
      hv_toggle = (hd_toggling s, hd_toggling s),
      hv_purge_dialog = (if cd_open (hd_purge s) then Some (cd_pending (hd_purge s)) else None),
      hv_delete_dialog = (if cd_open (hd_delete s) then Some (eulReul (units (d_host d)), cd_pending (hd_delete s)) else None)\<rparr>"

text \<open>The dialog of the test: host, protocols with the one pressed, path, outcome, whether its button is held.\<close>

record proxy_dialog_view =
  pv_host :: string
  pv_protocols :: "(string \<times> bool) list"
  pv_path :: string
  pv_result :: "test_view option"
  pv_busy :: bool

definition ProxyTestDialog :: "domain \<Rightarrow> proxy_dialog \<Rightarrow> proxy_dialog_view option" where
  "ProxyTestDialog d s =
     (if pd_open s
      then Some \<lparr>pv_host = d_host d, pv_protocols = [(''https'', pd_https s), (''http'', \<not> pd_https s)],
             pv_path = pd_path s, pv_result = map_option test_shown (pd_result s), pv_busy = pd_loading s\<rparr>
      else None)"

definition PurgeConfirmDialog :: "confirm \<Rightarrow> bool option" where
  "PurgeConfirmDialog c = (if cd_open c then Some (cd_pending c) else None)"

record quick_view =
  qv_notice :: bool
  qv_test_disabled :: bool
  qv_purge_disabled :: bool
  qv_renew :: "bool \<times> bool"
  qv_sync :: "bool \<times> bool"
  qv_test :: "proxy_dialog_view option"
  qv_purge :: "bool option"

definition DomainQuickActions :: "domain \<Rightarrow> quick_actions \<Rightarrow> quick_view" where
  "DomainQuickActions d s =
     \<lparr>qv_notice = isInactive d, qv_test_disabled = isInactive d, qv_purge_disabled = isInactive d,
      qv_renew = (qa_renewing s \<or> isInactive d, qa_renewing s), qv_sync = (qa_syncing s \<or> isInactive d, qa_syncing s),
      qv_test = ProxyTestDialog d (qa_test s), qv_purge = PurgeConfirmDialog (qa_purge s)\<rparr>"

text \<open>A click on a button that is shown as enabled has its effect, one on a disabled button has none.\<close>

lemma quick_buttons:
  "qv_test_disabled (DomainQuickActions d s) \<Longrightarrow> quick_step d QTestOpen s = (s, [])"
  "\<not> qv_test_disabled (DomainQuickActions d s) \<Longrightarrow> qv_test (DomainQuickActions d (fst (quick_step d QTestOpen s))) \<noteq> None"
  "qv_purge_disabled (DomainQuickActions d s) \<Longrightarrow> quick_step d QPurge s = (s, [])"
  "\<not> qv_purge_disabled (DomainQuickActions d s) \<Longrightarrow> qv_purge (DomainQuickActions d (fst (quick_step d QPurge s))) \<noteq> None"
  "snd (quick_step d QRenew s) = (if fst (qv_renew (DomainQuickActions d s)) then [] else [MTlsRenew (d_host d)])"
  "snd (quick_step d QSync s) = (if fst (qv_sync (DomainQuickActions d s)) then [] else [MSync (d_host d)])"
  by (simp_all add: DomainQuickActions_def ProxyTestDialog_def PurgeConfirmDialog_def dialog_show_def)

lemma header_buttons:
  "fst (hv_purge (DomainDetailHeader d s)) \<Longrightarrow> header_step d HPurge s = (s, [])"
  "\<not> fst (hv_purge (DomainDetailHeader d s)) \<Longrightarrow> hv_purge_dialog (DomainDetailHeader d (fst (header_step d HPurge s))) = Some False"
  "snd (header_step d HToggle s) = (if fst (hv_toggle (DomainDetailHeader d s)) then [] else [MToggle (d_host d)])"
  "hv_purge_dialog (DomainDetailHeader d s) = Some False \<Longrightarrow> snd (header_step d HPurgeConfirm s) = [MPurgeDomain (d_host d)]"
  "hv_delete_dialog (DomainDetailHeader d s) = Some (p, False) \<Longrightarrow> snd (header_step d HDeleteConfirm s) = [MDelete (d_host d)]"
  by (auto simp: DomainDetailHeader_def header_toggle_def header_purge_disabled_def dialog_show_def dialog_confirm_def
      split: if_splits)

subsection \<open>Deletion of several, purge of everything\<close>

text \<open>
  The dialog of the deletion: a success empties the selection and closes it, a failure keeps it open. The card of the
  system page asks as well; its dialog closes in any case.
\<close>

datatype ask_event = AskOpen | AskClose | AskConfirm | AskSettled bool

fun bulk_delete_step :: "string list \<Rightarrow> ask_event \<Rightarrow> confirm \<Rightarrow> confirm \<times> client_mutation list \<times> bool" where
  "bulk_delete_step hosts AskOpen c = (dialog_show c, [], False)"
| "bulk_delete_step hosts AskClose c = (dialog_close c, [], False)"
| "bulk_delete_step hosts AskConfirm c =
     (case dialog_confirm c of (c', sent) \<Rightarrow> (c', if sent then [MBulkDelete hosts] else [], False))"
| "bulk_delete_step hosts (AskSettled ok) c =
     (if cd_pending c then (dialog_settled (\<not> ok) c, [], ok) else (c, [], False))"

definition DomainBulkDeleteDialog :: "string list \<Rightarrow> confirm \<Rightarrow> (nat \<times> string list \<times> bool) option" where
  "DomainBulkDeleteDialog hosts c = (if cd_open c then Some (length hosts, hosts, cd_pending c) else None)"

fun danger_step :: "ask_event \<Rightarrow> confirm \<Rightarrow> confirm \<times> client_mutation list" where
  "danger_step AskOpen c = (dialog_show c, [])"
| "danger_step AskClose c = (dialog_close c, [])"
| "danger_step AskConfirm c =
     (case dialog_confirm c of (c', sent) \<Rightarrow> (c', if sent then [MPurgeCache ''all'' None] else []))"
| "danger_step (AskSettled ok) c = (if cd_pending c then dialog_settled False c else c, [])"

definition DangerZoneCard :: "confirm \<Rightarrow> bool option" where
  "DangerZoneCard c = (if cd_open c then Some (cd_pending c) else None)"

text \<open>What is sent was asked for by an open dialog that names it, and the dialog is held until the end.\<close>

lemma bulk_delete_shown:
  assumes "bulk_delete_step hosts e c = (c', ms, emptied)" and "m \<in> set ms"
  shows "m = MBulkDelete hosts \<and> DomainBulkDeleteDialog hosts c = Some (length hosts, hosts, False) \<and>
    DomainBulkDeleteDialog hosts c' = Some (length hosts, hosts, True)"
  using assms by (cases e) (auto simp: DomainBulkDeleteDialog_def dialog_confirm_def split: if_splits)

lemma danger_asked:
  assumes "danger_step e c = (c', ms)" and "m \<in> set ms"
  shows "m = MPurgeCache ''all'' None \<and> DangerZoneCard c = Some False \<and> DangerZoneCard c' = Some True"
  using assms by (cases e) (auto simp: DangerZoneCard_def dialog_confirm_def split: if_splits)

lemma ask_closes:
  "cd_pending c \<Longrightarrow> DangerZoneCard (fst (danger_step (AskSettled ok) c)) = None"
  "cd_pending c \<Longrightarrow> bulk_delete_step hosts (AskSettled ok) c = (c', ms, emptied) \<Longrightarrow>
   emptied = ok \<and> (ok \<longrightarrow> DomainBulkDeleteDialog hosts c' = None)"
  by (auto simp: DangerZoneCard_def dialog_settled_def DomainBulkDeleteDialog_def)

subsection \<open>What is said of a change of many domains\<close>

datatype toast_level = ToastSuccess | ToastWarning | ToastError

text \<open>The first of a list, and how many more there are.\<close>

definition preview :: "nat \<Rightarrow> 'a list \<Rightarrow> 'a list \<times> nat" where
  "preview n xs = (take n xs, length xs - n)"

text \<open>The level, the three numbers and, where something was not added, what it was.\<close>

record bulk_add_toast =
  bt_level :: toast_level
  bt_counts :: "int \<times> nat \<times> nat"
  bt_skipped :: "((string \<times> string) list \<times> nat) option"
  bt_failed :: "((string \<times> string) list \<times> nat) option"

definition bulk_add_toast :: "bulk_result \<Rightarrow> bulk_add_toast" where
  "bulk_add_toast r =
     \<lparr>bt_level = (if b_failed r \<noteq> [] then ToastError else if b_skipped r \<noteq> [] then ToastWarning else ToastSuccess),
      bt_counts = (b_added r, length (b_skipped r), length (b_failed r)),
      bt_skipped = (if b_skipped r = [] then None else Some (preview 5 (b_skipped r))),
      bt_failed = (if b_failed r = [] then None else Some (preview 5 (b_failed r)))\<rparr>"

definition MISSING_PREVIEW_LIMIT :: nat where
  "MISSING_PREVIEW_LIMIT = 3"

definition formatMissing :: "string list \<Rightarrow> string list \<times> nat" where
  "formatMissing missing = preview MISSING_PREVIEW_LIMIT missing"

definition bulk_delete_toast :: "nat \<Rightarrow> nat \<Rightarrow> string list \<Rightarrow> toast_level \<times> (string list \<times> nat) option" where
  "bulk_delete_toast deleted requested missing =
     (if missing \<noteq> [] \<or> deleted < requested
      then (ToastWarning, if missing \<noteq> [] then Some (formatMissing missing) else None)
      else (ToastSuccess, None))"

definition bulk_action_toast :: "string list \<Rightarrow> (string \<times> string) list \<Rightarrow> toast_level \<times> nat \<times> nat" where
  "bulk_action_toast ok failed =
     (if failed = [] then ToastSuccess else ToastWarning, length ok, length failed)"

definition sync_toast :: "bool \<Rightarrow> bool \<Rightarrow> bool \<Rightarrow> toast_level" where
  "sync_toast proxy tls dns = (if proxy \<and> tls \<and> dns then ToastSuccess else ToastWarning)"

text \<open>The three numbers of a bulk addition account for every domain that was sent.\<close>

lemma bulk_add_toast_accounts:
  assumes "run w (RBulkAdd (Some items)) c = (c', Ok 201 (BBulk r), e)"
  shows "fst (bt_counts (bulk_add_toast r)) + int (fst (snd (bt_counts (bulk_add_toast r)))) +
      int (snd (snd (bt_counts (bulk_add_toast r)))) = int (length items)"
proof -
  obtain c1 p e' where b: "bulk_add_begin w (Some items) c = (c1, Inr p)"
    and f: "finish_req w p True c1 = (c', Ok 201 (BBulk r), e')"
    using run_pending[OF assms] by auto
  obtain rows t r' where i: "bulkInsert (w_insert_err w) (w_now w) (map (\<lambda>(h, x). (h, the x)) rows) (t_domains (c_db c)) = (t, r')"
    "length rows = length items" "p = PBulkAdd r' (map fst rows)"
    using b by (auto simp: bulk_add_begin_def reject_def Let_def simp del: map_map split: if_splits prod.splits)
  have "r = r'" using f i(3) by (simp add: bulk_add_finish_def)
  with bulk_loop_count[OF i(1)[unfolded bulkInsert_def]] i(2) show ?thesis by (simp add: bulk_add_toast_def)
qed

text \<open>A deletion is reported as complete only when every host was registered, and then none of them is afterwards.\<close>

lemma bulk_delete_toast_complete:
  assumes "run w (RBulkDelete (Some raw)) c = (c', Ok 200 (BDeleted n k missing), e)"
    and "distinct (hosts_of (t_domains (c_db c)))" and "fst (bulk_delete_toast n k missing) = ToastSuccess"
  shows "set (map (normalizeHost \<circ> str_of) raw) \<subseteq> set (hosts_of (t_domains (c_db c))) \<and>
    set (map (normalizeHost \<circ> str_of) raw) \<inter> set (hosts_of (t_domains (c_db c'))) = {}"
proof -
  have m: "missing = []" using assms(3) by (auto simp: bulk_delete_toast_def split: if_splits)
  have "status_of (Ok 200 (BDeleted n k missing)) < 400" by simp
  from run_bulk_delete_done[OF assms(1) this assms(2)] m
  have "set (map (normalizeHost \<circ> str_of) raw) - set (hosts_of (t_domains (c_db c))) = {}"
    and "t_domains (c_db c') = filter (\<lambda>d. d_host d \<notin> set (map (normalizeHost \<circ> str_of) raw)) (t_domains (c_db c))"
    by auto
  then show ?thesis by (auto simp: hosts_of_def) (metis image_eqI)
qed

subsection \<open>The banner of the alerts\<close>

datatype domain_alert =
    AlertTls string
  | AlertSync string
  | AlertStale string
  | AlertLagged int
  | AlertDisk rat

fun alert_of :: "summary_alert \<Rightarrow> domain_alert" where
  "alert_of (TlsExpiring h e) = AlertTls h"
| "alert_of (StaleServing h) = AlertStale h"
| "alert_of (CoalescerLagged n) = AlertLagged n"
| "alert_of (DiskHigh r used maxb) = AlertDisk r"

definition MAX_VISIBLE_LINKS :: nat where
  "MAX_VISIBLE_LINKS = 5"

definition AlertLinks :: "string list \<Rightarrow> string list \<times> nat" where
  "AlertLinks hosts = preview MAX_VISIBLE_LINKS hosts"

record alert_banner =
  bn_tls :: "string list"
  bn_sync :: "string list"
  bn_stale :: "string list"
  bn_lag :: "int option"
  bn_disk :: "rat option"

definition first_of :: "('a \<Rightarrow> 'b option) \<Rightarrow> 'a list \<Rightarrow> 'b option" where
  "first_of f xs = (case List.map_filter f xs of [] \<Rightarrow> None | x # ys \<Rightarrow> Some x)"

definition DomainAlertBanner :: "domain_alert list \<Rightarrow> alert_banner option" where
  "DomainAlertBanner alerts =
     (if alerts = [] then None
      else Some \<lparr>
        bn_tls = List.map_filter (\<lambda>a. case a of AlertTls h \<Rightarrow> Some h | _ \<Rightarrow> None) alerts,
        bn_sync = List.map_filter (\<lambda>a. case a of AlertSync h \<Rightarrow> Some h | _ \<Rightarrow> None) alerts,
        bn_stale = List.map_filter (\<lambda>a. case a of AlertStale h \<Rightarrow> Some h | _ \<Rightarrow> None) alerts,
        bn_lag = first_of (\<lambda>a. case a of AlertLagged n \<Rightarrow> Some n | _ \<Rightarrow> None) alerts,
        bn_disk = first_of (\<lambda>a. case a of AlertDisk r \<Rightarrow> Some r | _ \<Rightarrow> None) alerts\<rparr>)"

text \<open>The second line of the banner: the links to the domains, and the one to the system page.\<close>

definition banner_links :: "alert_banner \<Rightarrow> ((string list \<times> nat) list \<times> bool) option" where
  "banner_links b =
     (if bn_tls b \<noteq> [] \<or> bn_sync b \<noteq> [] \<or> bn_stale b \<noteq> [] \<or> bn_disk b \<noteq> None
      then Some (map AlertLinks (filter (\<lambda>hs. hs \<noteq> []) [bn_tls b, bn_sync b, bn_stale b]), bn_disk b \<noteq> None)
      else None)"

text \<open>The server has no alert for a failed synchronization: that part of the banner is never shown.\<close>

lemma banner_never_sync: "DomainAlertBanner (map alert_of xs) = Some b \<Longrightarrow> bn_sync b = []"
proof -
  have "List.map_filter (\<lambda>a. case a of AlertSync h \<Rightarrow> Some h | _ \<Rightarrow> None) (map alert_of xs) = []"
  proof (induction xs)
    case (Cons x xs)
    then show ?case by (cases x) (simp_all add: map_filter_simps)
  qed (simp add: map_filter_simps)
  then show "DomainAlertBanner (map alert_of xs) = Some b \<Longrightarrow> bn_sync b = []"
    by (auto simp: DomainAlertBanner_def split: if_splits)
qed

end
