(* ===== verification/Spec2Isabelle.thy ===== *)
theory Spec2Isabelle
  imports Domain_Concurrency Accounts Tls_Health Route_Properties Maintenance Detail_Tabs User_Pages Domains_Page
    Log_View Auth_Client Edit_Guard Lock_Progress Server_Shell Rebuild Query_Cache Detail_Actions
begin

text \<open>
  A verification library for the two TypeScript programs of Smart School CDN: the admin server under
  \<open>src/services/admin-server/src\<close> and its web client under \<open>src/services/admin-web/src\<close>. The server keeps
  the domains, accounts, statistics, events and audit entries in one SQLite database, answers the HTTP
  routes of the dashboard, and pushes every change of the domains to the proxy, the TLS service and the DNS
  service. The client is the dashboard: pages whose state is in the address, forms, tables and a log viewer.

  \<^bold>\<open>How the program is modelled.\<close>
  \<^item> A table is a list of row records; an SQL statement is an operation on lists (\<open>Tables\<close>: update, sort,
    group, page). The database is \<open>db\<close>, a connection with its open transaction is \<open>conn\<close> (\<open>Database\<close>).
  \<^item> A handler is a function from its input and the state to the new state, the reply and the calls to
    other services. A reply is a status with a body, a status with the error code, or an exception
    (\<open>Throw\<close>, answered 500; \<open>UriError\<close>, answered 400 by \<open>error-handlers.ts\<close>). Messages for people and
    the issue lists of the validator are left out.
  \<^item> A write handler awaits the proxy between its change and its decision to keep it. It is therefore
    given in two halves, \<open>begin\<close> and \<open>finish\<close>; \<open>server_step\<close> interleaves the halves of any number of
    requests, as the event loop does (\<open>Domain_Concurrency\<close>).
  \<^item> A JSON value in a scalar place is a \<open>jsprim\<close>, a number from outside a \<open>jsnum\<close> (finite, infinite or
    \<open>NaN\<close>). Arithmetic is exact. Strings are over the Latin-1 range.
  \<^item> A page of the client is a record of its state with one function for each of its handlers; where the
    order of the events matters, a run is a list of events or a step relation. The query of the address is an
    association list (\<open>Url_State\<close>). What a page renders is modelled where it decides something: which rows,
    which buttons are enabled, which text stands for an empty list.
  \<^item> What is not code of the repository is an argument: the URL parser, \<open>Date.parse\<close>, SHA-256, argon2 and
    the JWT library, the outcome of every call to another service, driver errors, the text of a number,
    UTF-8 decoding and \<open>JSON.parse\<close> of log lines, and whether SQLite divides \<open>timestamp / ?\<close> as integers or
    reals (\<open>bucket\<close>). What a property needs of them is a hypothesis of it.

  \<^bold>\<open>The theories.\<close>
  \<^item> \<open>Prelude\<close>, \<open>Tables\<close>, \<open>Pagination\<close>: JavaScript strings and numbers, SQL \<open>LIKE\<close>, dates, tables and
    the contracts of keyed, prunable and accumulating stores as locales, the clamps of
    \<open>db/pagination.ts\<close>.
  \<^item> \<open>Domain_Repo\<close>, \<open>Stats_Repo\<close>, \<open>User_Repo\<close>, \<open>Events_Repo\<close>, \<open>Audit_Dns\<close>: the repositories of \<open>db/\<close>
    with the collectors and pruners (\<open>stats-collector.ts\<close>, \<open>domain-stats-pruner.ts\<close>,
    \<open>optimization-events-pruner.ts\<close>, \<open>dns-metrics-collector.ts\<close>). Each interprets the locales it provides.
  \<^item> \<open>Database\<close>, \<open>Domain_Input\<close>, \<open>Domain_Write\<close>, \<open>Domain_Safe\<close>, \<open>Domain_Promises\<close>,
    \<open>Domain_Concurrency\<close>: the write half of \<open>routes/domains.ts\<close>; what each route promises; the host lock
    and the interleavings.
  \<^item> \<open>Domain_Query\<close>, \<open>Events_Routes\<close>: the reading half of \<open>routes/domains.ts\<close> and
    \<open>routes/optimization-events.ts\<close>.
  \<^item> \<open>Auth\<close>, \<open>Accounts\<close>: \<open>auth/\<close>, \<open>routes/auth.ts\<close>, \<open>routes/users.ts\<close>; runs of account requests.
  \<^item> \<open>Tls_Health\<close>: \<open>routes/tls.ts\<close>, \<open>tls-expiry-scanner.ts\<close>, \<open>health-monitor.ts\<close>.
  \<^item> \<open>Cache_Routes\<close>, \<open>Service_Routes\<close>, \<open>Log_Stream\<close>: \<open>routes/cache.ts\<close>; \<open>dns.ts\<close>, \<open>optimizer.ts\<close>,
    \<open>audit.ts\<close>, \<open>internal.ts\<close>, \<open>diagnose.ts\<close>, \<open>proxy.ts\<close>; \<open>logs.ts\<close>.
  \<^item> \<open>Server_Shell\<close>, \<open>Startup\<close>, \<open>Maintenance\<close>: \<open>error-handlers.ts\<close>, \<open>rate-limit-config.ts\<close> and the hooks,
    health checks and settings of \<open>index.ts\<close>; its migrations, one by one (\<open>Startup\<close>) and as the sequence of a
    start over tables of any age (\<open>Rebuild\<close>); \<open>sqlite-maintenance.ts\<close>. \<open>Lock_Progress\<close>: the host lock comes to
    an end.
  \<^item> \<open>Url_State\<close>, \<open>Detail_Tabs\<close>, \<open>User_Pages\<close>, \<open>Domains_Page\<close>: the address and its correction, with
    \<open>pages/DnsPage.tsx\<close>; the detail tabs of a domain; \<open>UsersPage.tsx\<close> and \<open>AuditPage.tsx\<close>; \<open>DomainsPage.tsx\<close>
    with its table, toolbar and dialogs. \<open>corrected_page\<close> is the contract of a page that corrects its address;
    three pages interpret it.
  \<^item> \<open>Auth_Client\<close>, \<open>Edit_Guard\<close>, \<open>Log_View\<close>: \<open>components/auth\<close>, \<open>App.tsx\<close>, \<open>lib/api.ts\<close> and the login; the
    settings of a domain with \<open>useUnsavedChangesPrompt.ts\<close>; \<open>useLogStream.ts\<close> and the viewer.
  \<^item> \<open>Api_Client\<close>, \<open>Query_Cache\<close>: the functions of \<open>api/\<close> as the requests they make, matched against the routes
    the server registers and what its handlers read; the hooks under \<open>hooks/\<close> with their keys, and what each
    change marks as stale.
  \<^item> \<open>Diagnose_Tab\<close>, \<open>System_Page\<close>, \<open>Detail_Actions\<close>: \<open>DomainDiagnoseTab.tsx\<close>; \<open>SystemPage.tsx\<close> with
    \<open>lib/format.ts\<close> and \<open>lib/theme.ts\<close>, and the frame of the page of a domain; the buttons and dialogs that
    change domains, what is said of their outcome, and the banner of the alerts.
  \<^item> \<open>Route_Properties\<close> has properties of the reading routes, each theory of the client its own, this theory
    those that span the components of the server.

  \<^bold>\<open>What is shown.\<close> C1 to C3: errors restore the database, successes push the enabled rows, the tables stay
  well formed under every interleaving. C4 to C6: the host lock is first come first served and every call
  gets its turn, and yet a rollback takes back what another host's request has changed. C7 to C10: what the
  bulk routes and the deletion do, and that the search of the list is a literal one without case. C11 to
  C16: sessions, the guards, the account invariant, the setup, and a start that brings any old table of
  accounts to that invariant. C17 to C20: statistics, events and DNS metrics lose nothing that was reported
  and keep what retention promises. C21: alerts. C22 to C26: what the ingest lets in, what a purge, a proxy
  test and a diagnosis may do, the log frames. C27 to C30: the page of the domains sends only what the
  server accepts, and its texts come back as they were. C31 to C33: redirects end, a login leads back, a
  logout reaches every tab. C34 to C36 join the two programs: every request of the client reaches the
  handler meant for it, what the client keeps after a change is what the server would answer, and a purge
  is of the URL that was shown. C37 to C40: unsaved edits, the log viewer, the pages of the accounts, the
  table of the URLs. Some properties state behaviour that a reader of the code would not expect (C6, C15,
  C17, C25); they are listed as findings beside the development.

  \<^bold>\<open>Recursion.\<close> Loops over lists are structural; \<open>decodeURIComponent\<close>, \<open>frames\<close>, \<open>strip_ansi\<close>, \<open>stripAnsi\<close>,
  \<open>split_ws\<close> and \<open>form_decode\<close> have a measure. The digits of \<open>int_text\<close> use fuel, one more than the number,
  which is never used up. The correction of an address (\<open>effect_loop\<close>) and the redirects of the guards
  (\<open>settle\<close>) might run for ever as far as their code tells, so they are partial functions with \<open>None\<close> for an
  endless run; that they end is shown (\<open>loop_ends\<close>, C31).

  \<^bold>\<open>Limits of the model.\<close> Arrays and objects in scalar places of a body, repeated query parameters and
  SQLite's limit on the number of bound variables do not occur. Rows that SQL returns in no particular
  order come in the order of the table. A percent escape of a character beyond Latin-1 stands with the
  malformed ones.

  \<^bold>\<open>Not modelled.\<close> Timers as such (a timer of the client is an event), cookie attributes, the counting of the
  rate limits and the loading of the gRPC clients, the CA downloads, the routes that only pass on an answer
  of the proxy, the sinks of the alerts; the markup of the client and the words it uses, its charts, and
  pages that only show an answer; the services written in Rust, of which \<open>tls_sync_domains\<close>
  alone is given, since the renewal depends on it.
\<close>

section \<open>Concrete inputs for the witnesses\<close>

definition sample_url :: url_parser where
  "sample_url s =
     (if starts_with ''http'' s
      then Some \<lparr>url_protocol = ''http:'', url_hostname = ''o'', url_pathname = ''/'', url_search = [],
                 url_hash = [], url_origin = s\<rparr>
      else None)"

definition sample_world :: "bool \<Rightarrow> world" where
  "sample_world proxy_ok =
     \<lparr>w_now = 100, w_later = 200, w_proxy_ok = proxy_ok, w_tls_ok = True, w_dns_ok = True,
      w_profile_ok = (\<lambda>_. True), w_remove_ok = (\<lambda>_. True), w_purge_ok = (\<lambda>_. True), w_audit_ok = True,
      w_url = sample_url, w_insert_err = (\<lambda>_ _. None), w_num_text = (\<lambda>_. ''0''), w_sub = Some ''1'',
      w_ip = ''::1''\<rparr>"

definition sample_row :: "string \<Rightarrow> domain" where
  "sample_row h = new_domain 10 h ''http://o'' []"

definition sample_db :: db where
  "sample_db =
     \<lparr>t_domains = [sample_row ''a.com'', sample_row ''b.com''], t_stats = [],
      t_events = \<lparr>ev_rows = [], ev_seq = 0\<rparr>, t_users = \<lparr>us_rows = [], us_seq = 0\<rparr>,
      t_audit = \<lparr>au_rows = [], au_seq = 0\<rparr>\<rparr>"

definition sample_conn :: conn where
  "sample_conn = \<lparr>c_db = sample_db, c_saved = None\<rparr>"

section \<open>The domain routes\<close>





text \<open>
  C3. However the write handlers interleave at their calls to the proxy, and whatever those calls
  answer, the tables keep their invariant: one row per host, every host a normalized name of the
  accepted form, every origin the normalization of an accepted URL, the numeric columns in range, and
  every statistics row of a registered host; the content a rollback would restore keeps it too.
\<close>

theorem interleaving_keeps_tables:
  assumes "(server_step parse)\<^sup>*\<^sup>* s s'" and "server_ok parse s"
  shows "db_ok parse (c_db (sv_conn s')) \<and>
     (\<forall>saved. c_saved (sv_conn s') = Some saved \<longrightarrow> db_ok parse saved) \<and>
     (\<forall>(w, p) \<in> set (sv_flight s'). pending_ok parse p)"
  using server_ok_reachable[OF assms] by (auto simp: server_ok_def conn_ok_def)

definition empty_conn :: conn where
  "empty_conn = \<lparr>c_db = sample_db\<lparr>t_domains := []\<rparr>, c_saved = None\<rparr>"

lemma sample_world_ok: "world_ok sample_url (sample_world b)"
  by (simp add: world_ok_def sample_world_def js_lower_def lower_char_def)

lemma interleaving_keeps_tables_witness:
  "\<exists>s' :: server. hosts_of (t_domains (c_db (sv_conn s'))) = [''a.com''] \<and> length (sv_flight s') = 1 \<and>
     db_ok sample_url (c_db (sv_conn s'))"
proof -
  let ?w = "sample_world True" and ?r = "RPost (Str ''A.com'') (Str ''http://o'')"
  let ?s = "\<lparr>sv_conn = empty_conn, sv_flight = []\<rparr>"
  have "(case begin_req ?w ?r empty_conn of
      (c, Inr p) \<Rightarrow> hosts_of (t_domains (c_db c)) = [''a.com''] | _ \<Rightarrow> False)"
    by code_simp
  then obtain c p where b: "begin_req ?w ?r empty_conn = (c, Inr p)"
    and h: "hosts_of (t_domains (c_db c)) = [''a.com'']"
    by (cases "begin_req ?w ?r empty_conn") (auto split: sum.splits)
  have "server_step sample_url ?s (?s\<lparr>sv_conn := c, sv_flight := sv_flight ?s @ [(?w, p)]\<rparr>)"
    by (rule server_step.Suspend[where req = ?r, OF sample_world_ok]) (simp only: b server.select_convs)
  then have "(server_step sample_url)\<^sup>*\<^sup>* ?s \<lparr>sv_conn = c, sv_flight = [(?w, p)]\<rparr>" by simp
  moreover have "server_ok sample_url ?s"
    by (simp add: server_ok_def conn_ok_def db_ok_def domains_ok_def stats_ok_def empty_conn_def sample_db_def)
  ultimately have "db_ok sample_url (c_db c)" using interleaving_keeps_tables by fastforce
  with h show ?thesis by (intro exI[of _ "\<lparr>sv_conn = c, sv_flight = [(?w, p)]\<rparr>"]) simp
qed

text \<open>
  A POST that succeeds answers 201 with the row the table now has for the normalized host, whose
  origin is the parsed origin of the URL given; the other rows, the statistics, the events and the
  accounts are as before, and no transaction is left open.
\<close>

theorem post_creates_row:
  assumes "run w (RPost (Str s) (Str ori)) c = (c', r, e)" and "status_of r < 400"
  shows "\<exists>u d. w_url w ori = Some u \<and> r = Ok 201 (BDomain (Some d)) \<and>
     findByHost (t_domains (c_db c')) (normalizeHost s) = Some d \<and> d_origin d = url_origin u \<and>
     good_host (normalizeHost s) \<and> c_saved c' = None \<and>
     (\<forall>h. h \<noteq> normalizeHost s \<longrightarrow>
        findByHost (t_domains (c_db c')) h = findByHost (t_domains (c_db c)) h) \<and>
     t_stats (c_db c') = t_stats (c_db c) \<and> t_events (c_db c') = t_events (c_db c) \<and>
     t_users (c_db c') = t_users (c_db c)"
  using assms by (rule run_post_created)

lemma post_creates_row_witness:
  "(case run (sample_world True) (RPost (Str '' C.com'') (Str ''http://n'')) sample_conn of
      (c', r, e) \<Rightarrow> (\<exists>d. r = Ok 201 (BDomain (Some d)) \<and>
        findByHost (t_domains (c_db c')) (normalizeHost '' C.com'') = Some d))"
proof -
  obtain c' r e where x: "run (sample_world True) (RPost (Str '' C.com'') (Str ''http://n'')) sample_conn = (c', r, e)"
    by (metis prod_cases3)
  have "(case run (sample_world True) (RPost (Str '' C.com'') (Str ''http://n'')) sample_conn of
      (c', r, e) \<Rightarrow> status_of r) = 201" by code_simp
  with x have "status_of r < 400" by simp
  from post_creates_row[OF x this] x show ?thesis by auto
qed

text \<open>
  C9. A DELETE that succeeds names a host that was registered and removes exactly what belongs to it:
  its row, its statistics and its events; apart from the audit log nothing else changes.
\<close>

theorem delete_removes_host:
  assumes "run w (RDelete raw) c = (c', r, e)" and "status_of r < 400"
  shows "\<exists>h log. host_param raw = Some h \<and> h \<in> set (hosts_of (t_domains (c_db c))) \<and>
     c' = c\<lparr>c_db := (without_host h (c_db c))\<lparr>t_audit := log\<rparr>\<rparr> \<and> r = Ok 204 BNone"
  using assms by (rule run_delete_done)

lemma delete_removes_host_witness:
  "(case run (sample_world True) (RDelete ''A.com'') sample_conn of
      (c', r, e) \<Rightarrow> r = Ok 204 BNone)"
proof -
  obtain c' r e where x: "run (sample_world True) (RDelete ''A.com'') sample_conn = (c', r, e)"
    by (metis prod_cases3)
  have "(case run (sample_world True) (RDelete ''A.com'') sample_conn of (c', r, e) \<Rightarrow> status_of r) = 204"
    by code_simp
  with x have "status_of r < 400" by simp
  from delete_removes_host[OF x this] x show ?thesis by auto
qed

text \<open>
  C7. A bulk addition that succeeds accounts for every item once, as added, skipped or failed; the table
  is the old one with exactly the added hosts behind it, in the order of the request; and an optimizer
  profile is set for exactly these hosts.
\<close>

theorem bulk_add_accounts:
  assumes "run w (RBulkAdd ds) c = (c', r, e)" and "status_of r < 400"
  shows "\<exists>items res hosts. ds = Some items \<and> length items \<le> BULK_MAX_DOMAINS \<and> r = Ok 201 (BBulk res) \<and>
     hosts = map (normalizeHost \<circ> str_of \<circ> fst \<circ> the) items \<and>
     b_added res + int (length (b_skipped res)) + int (length (b_failed res)) = int (length items) \<and>
     (\<exists>new. t_domains (c_db c') = t_domains (c_db c) @ new \<and> int (length new) = b_added res \<and>
        map d_host new = added_hosts res hosts) \<and>
     filter (\<lambda>x. \<exists>h ok. x = SetProfile h ok) e = map (set_profile w) (added_hosts res hosts)"
  using assms by (rule run_bulk_add_created)

lemma bulk_add_accounts_witness:
  "(case run (sample_world True)
       (RBulkAdd (Some [Some (Str ''b.com'', Str ''http://n''), Some (Str ''C.com'', Str ''http://n'')])) sample_conn of
      (c', r, e) \<Rightarrow> \<exists>new. t_domains (c_db c') = t_domains (c_db sample_conn) @ new)"
proof -
  let ?r = "RBulkAdd (Some [Some (Str ''b.com'', Str ''http://n''), Some (Str ''C.com'', Str ''http://n'')])"
  obtain c' r e where x: "run (sample_world True) ?r sample_conn = (c', r, e)" by (metis prod_cases3)
  have "(case run (sample_world True) ?r sample_conn of (c', r, e) \<Rightarrow> status_of r) = 201" by code_simp
  with x have "status_of r < 400" by simp
  from bulk_add_accounts[OF x this] x show ?thesis by auto
qed

text \<open>
  C8. A bulk deletion that succeeds removes the rows, the statistics and the events of the requested
  hosts and no other, and reports each requested host, duplicates apart, as deleted or as missing.
\<close>

theorem bulk_delete_accounts:
  assumes "run w (RBulkDelete hs) c = (c', r, e)" and "status_of r < 400"
    and "distinct (hosts_of (t_domains (c_db c)))"
  shows "\<exists>raw hosts n missing. hs = Some raw \<and> hosts = map (normalizeHost \<circ> str_of) raw \<and>
     r = Ok 200 (BDeleted n (length raw) missing) \<and> n + length missing = length (uniq hosts) \<and>
     set missing = set hosts - set (hosts_of (t_domains (c_db c))) \<and>
     t_domains (c_db c') = filter (\<lambda>d. d_host d \<notin> set hosts) (t_domains (c_db c)) \<and>
     t_stats (c_db c') = filter (\<lambda>x. st_host x \<notin> set hosts) (t_stats (c_db c)) \<and>
     ev_rows (t_events (c_db c')) = filter (\<lambda>v. e_host v \<notin> set hosts) (ev_rows (t_events (c_db c))) \<and>
     t_users (c_db c') = t_users (c_db c) \<and> t_audit (c_db c') = t_audit (c_db c)"
  using run_bulk_delete_done[OF assms] .

lemma bulk_delete_accounts_witness:
  "(case run (sample_world True) (RBulkDelete (Some [Str ''A.com'', Str ''x.com'', Str ''a.com''])) sample_conn of
      (c', r, e) \<Rightarrow> \<exists>n missing. r = Ok 200 (BDeleted n 3 missing) \<and> n + length missing = 2)"
proof -
  let ?r = "RBulkDelete (Some [Str ''A.com'', Str ''x.com'', Str ''a.com''])"
  obtain c' r e where x: "run (sample_world True) ?r sample_conn = (c', r, e)" by (metis prod_cases3)
  have "(case run (sample_world True) ?r sample_conn of (c', r, e) \<Rightarrow> status_of r) = 200" by code_simp
  with x have "status_of r < 400" by simp
  moreover have "distinct (hosts_of (t_domains (c_db sample_conn)))" by code_simp
  moreover have "length (uniq (map (normalizeHost \<circ> str_of) [Str ''A.com'', Str ''x.com'', Str ''a.com''])) = 2"
    by code_simp
  ultimately show ?thesis using bulk_delete_accounts[OF x] x by auto
qed

text \<open>
  C10. The domain list: without a page it has exactly the rows whose host or origin contains the search
  text (taken literally, letters without case) and whose state is the one asked for, sorted by the
  order chosen; a page is a section of that list. The column and the direction that go into the SQL
  text are always from the white lists.
\<close>

theorem list_is_sorted_search:
  "let all = findAll (fo\<lparr>f_limit := None, f_offset := None\<rparr>) t
   in mset all = filter_mset (\<lambda>d.
        (case f_q fo of None \<Rightarrow> True
         | Some q \<Rightarrow> js_includes (nocase q) (nocase (d_host d)) \<or> js_includes (nocase q) (nocase (d_origin d))) \<and>
        (case f_enabled fo of None \<Rightarrow> True | Some b \<Rightarrow> d_enabled d = (if b then 1 else 0))) (mset t) \<and>
      sorted_wrt (row_le fo) all \<and>
      findAll fo t = sql_page (positive (f_limit fo)) (or_else (positive (f_offset fo)) 0) all \<and>
      sort_col fo \<in> {''host'', ''created_at'', ''updated_at''} \<and> sort_dir fo \<in> {''ASC'', ''DESC''}"
proof -
  let ?fo = "fo\<lparr>f_limit := None, f_offset := None\<rparr>"
  have le: "row_le ?fo = row_le fo"
    by (intro ext) (simp add: row_le_def sort_dir_def sort_col_def)
  have m: "matches ?fo = matches fo" by (intro ext) (simp add: matches_def)
  have "mset (findAll ?fo t) = filter_mset (matches fo) (mset t)"
    using mset_findAll[of ?fo t] m by (simp add: positive_def)
  moreover have "findAll fo t = sql_page (positive (f_limit fo)) (or_else (positive (f_offset fo)) 0) (findAll ?fo t)"
    by (simp add: findAll_def le m positive_def or_else_def sql_page_def)
  moreover have "sorted_wrt (row_le fo) (findAll ?fo t)" using sorted_findAll[of ?fo t] le by simp
  ultimately show ?thesis
    unfolding Let_def matches_search[symmetric]
    using sort_col_safe[of fo] sort_dir_safe[of fo] by (simp add: SORT_WHITELIST_def)
qed

text \<open>
  C4. The host lock is first come, first served: whenever a handler of a host runs under the lock,
  every earlier call for that host has returned or thrown, so no two run at once.
\<close>

theorem host_lock_fifo:
  assumes "lock_step\<^sup>*\<^sup>* lock_init s" and "k < i" and "i < lk_next s" and "lk_host s k = lk_host s i"
    and "lk_phase s i = Running"
  shows "settled s k"
  using assms by (rule lock_fifo)

lemma host_lock_fifo_witness:
  "\<exists>s. lock_step\<^sup>*\<^sup>* lock_init s \<and> lk_phase s 1 = Running \<and> settled s 0"
proof -
  let ?s2 = "lock_enter ''h'' (lock_enter ''h'' lock_init)"
  let ?s3 = "set_phase 0 Settled (set_phase 0 Running ?s2)"
  let ?s4 = "set_phase 1 Running ?s3"
  have a: "lock_step lock_init (lock_enter ''h'' lock_init)" "lock_step (lock_enter ''h'' lock_init) ?s2"
    by (rule lock_step.Enter)+
  have b: "lock_step ?s2 (set_phase 0 Running ?s2)"
    by (rule lock_step.Start) (simp add: may_start_def lock_enter_def lock_init_def Let_def)
  have c: "lock_step (set_phase 0 Running ?s2) ?s3"
    by (rule lock_step.Settle) (simp_all add: lock_enter_def lock_init_def Let_def set_phase_def)
  have d: "lock_step ?s3 ?s4"
    by (rule lock_step.Start)
      (simp add: may_start_def lock_enter_def lock_init_def Let_def set_phase_def settled_def)
  have r: "lock_step\<^sup>*\<^sup>* lock_init ?s4" using a b c d by (meson converse_rtranclp_into_rtranclp rtranclp.rtrancl_refl)
  have f: "1 < lk_next ?s4" "lk_host ?s4 0 = lk_host ?s4 1" "lk_phase ?s4 1 = Running"
    by (simp_all add: lock_enter_def lock_init_def Let_def set_phase_def)
  from host_lock_fifo[OF r zero_less_one f] r f(3) show ?thesis by blast
qed

text \<open>
  C6. What the lock does not cover, since it is per host and the connection is one: while the deletion
  of one host awaits the proxy inside its transaction, a toggle of another host is answered with 200;
  when the proxy then refuses the deletion, its rollback takes the toggle back too. A second
  transactional request in that time ends with an error.
\<close>

theorem rollback_takes_other_hosts_back:
  assumes "c_saved c = None" and "delete_begin w1 h1 c = (c1, Inr (PDelete x))"
    and "toggle_begin w2 h2 c1 = (c2, Inr (PToggle y d u))"
    and "toggle_finish w2 y d u True c2 = (c3, Ok 200 b, e2)"
  shows "delete_finish w1 x False c3 = (c, Reject 502 ''proxy_sync_failed'', []) \<and>
     (transactional_req req \<longrightarrow> (\<exists>r. begin_req w req c1 = (c1, Inl r) \<and> 400 \<le> status_of r))"
proof -
  obtain c0 where "begin_tx c = Some c0" "c_saved c1 = c_saved c0"
    using begin_transactional[of "RDelete h1" w1 c c1 "Inr (PDelete x)"] assms(2)
    by (auto simp: transactional_req_def)
  then have "c_saved c1 \<noteq> None" by (auto dest: begin_tx_db)
  then show ?thesis using transactional_in_tx delete_rollback_loses[OF assms] by blast
qed

lemma rollback_takes_other_hosts_back_witness:
  "\<exists>c1 c2 c3 d u b e2. delete_begin (sample_world False) ''a.com'' sample_conn = (c1, Inr (PDelete ''a.com'')) \<and>
     toggle_begin (sample_world True) ''b.com'' c1 = (c2, Inr (PToggle ''b.com'' d u)) \<and>
     toggle_finish (sample_world True) ''b.com'' d u True c2 = (c3, Ok 200 b, e2) \<and>
     delete_finish (sample_world False) ''a.com'' False c3 = (sample_conn, Reject 502 ''proxy_sync_failed'', [])"
proof -
  let ?w = "sample_world False" and ?v = "sample_world True"
  have "(case delete_begin ?w ''a.com'' sample_conn of (c1, Inr (PDelete x)) \<Rightarrow> x = ''a.com'' | _ \<Rightarrow> False)"
    by code_simp
  then obtain c1 where a: "delete_begin ?w ''a.com'' sample_conn = (c1, Inr (PDelete ''a.com''))"
    by (cases "delete_begin ?w ''a.com'' sample_conn") (auto split: sum.splits pending.splits)
  have "(case toggle_begin ?v ''b.com'' (fst (delete_begin ?w ''a.com'' sample_conn)) of
      (c2, Inr (PToggle y d u)) \<Rightarrow> y = ''b.com'' | _ \<Rightarrow> False)" by code_simp
  with a obtain c2 d u where t: "toggle_begin ?v ''b.com'' c1 = (c2, Inr (PToggle ''b.com'' d u))"
    by (cases "toggle_begin ?v ''b.com'' c1") (auto split: sum.splits pending.splits)
  obtain c3 b e2 where f: "toggle_finish ?v ''b.com'' d u True c2 = (c3, Ok 200 b, e2)"
    by (simp add: toggle_finish_def)
  have "c_saved sample_conn = None" by (simp add: sample_conn_def)
  from rollback_takes_other_hosts_back[OF this a t f] a t f show ?thesis by blast
qed

section \<open>Accounts and sessions\<close>

text \<open>
  Keys for the witnesses: a token is the claims in a self-delimiting form behind a letter.
\<close>

definition unary :: "string \<Rightarrow> string" where
  "unary s = replicate (length s) (CHR ''a'') @ CHR ''b'' # s"

definition sample_sign :: "string \<Rightarrow> claims \<Rightarrow> string" where
  "sample_sign s c = unary (cl_sub c) @ unary (cl_username c) @
     (case cl_tv c of None \<Rightarrow> []
      | Some v \<Rightarrow> (if v < 0 then CHR ''-'' else CHR ''+'') # replicate (nat \<bar>v\<bar>) (CHR ''a''))"

definition read_unary :: "string \<Rightarrow> string \<times> string" where
  "read_unary s =
     (let n = length (takeWhile (\<lambda>c. c = CHR ''a'') s); r = drop (Suc n) s in (take n r, drop n r))"

definition sample_verify :: "string \<Rightarrow> string \<Rightarrow> claims option" where
  "sample_verify s t =
     (let (sub, r) = read_unary t; (name, v) = read_unary r
      in Some \<lparr>cl_sub = sub, cl_username = name,
               cl_tv = (case v of [] \<Rightarrow> None
                        | c # as \<Rightarrow> Some ((if c = CHR ''-'' then -1 else 1) * int (length as)))\<rparr>)"

definition sample_keys :: keys where
  "sample_keys = \<lparr>k_secret = Some (replicate 32 (CHR ''s'')), k_sign = sample_sign, k_verify = sample_verify,
     k_hash = (\<lambda>p. CHR ''#'' # p), k_check = (\<lambda>h p. h = CHR ''#'' # p)\<rparr>"

lemma takeWhile_unary:
  "takeWhile (\<lambda>c. c = CHR ''a'') (replicate n (CHR ''a'') @ CHR ''b'' # r) = replicate n (CHR ''a'')"
  by (induction n) simp_all

lemma read_unary [simp]: "read_unary (unary s @ r) = (s, r)"
  by (simp add: read_unary_def unary_def takeWhile_unary Let_def)

lemma sample_keys_sound: "sound_keys sample_keys"
  by (auto simp: sound_keys_def sample_keys_def sample_sign_def sample_verify_def split: option.splits)
    (simp_all add: unary_def)

definition sample_user :: user where
  "sample_user = \<lparr>u_id = 1, u_username = ''a@b.cd'', u_password_hash = ''#password1'', u_created_at = 1,
     u_updated_at = 1, u_disabled_at = None, u_last_login_at = None, u_token_version = 0\<rparr>"

definition sample_users :: users where
  "sample_users = \<lparr>us_rows = [sample_user], us_seq = 1\<rparr>"

lemma sample_users_ok: "users_ok sample_users"
  by (simp add: users_ok_def sample_users_def sample_user_def ids_of_def)

text \<open>
  C11. A login that succeeds was given the password of an enabled account of that name, case apart,
  and the session it sets is one the guard lets through, for every guarded path, as long as the
  signature library verifies what it signed.
\<close>

theorem login_session_accepted:
  assumes "login k now name pass s = (s', Ok n b, ck)" and "users_ok s" and "us_seq s \<le> MAX_SAFE"
    and "sound_keys k" and "\<not> auth_exempt url"
  shows "\<exists>nm p u tok. credentialSchema 3 name pass = Some (nm, p) \<and> findByUsername s nm = Some u \<and>
     u_disabled_at u = None \<and> k_check k (u_password_hash u) p \<and>
     signSessionToken k (session_claims u (int_text (u_id u))) = Some tok \<and>
     ck = Some (SetSession (session_claims u (int_text (u_id u)))) \<and>
     requireAuth k s' url (Some tok) = Allow (session_claims u (int_text (u_id u)))"
proof -
  obtain nm p u tok where l: "credentialSchema 3 name pass = Some (nm, p)" "findByUsername s nm = Some u"
    "u_disabled_at u = None" "k_check k (u_password_hash u) p"
    "ck = Some (SetSession (session_claims u (int_text (u_id u))))" "findById s (u_id u) = Some u"
    "s' = updateLastLogin now (u_id u) s"
    "signSessionToken k (session_claims u (int_text (u_id u))) = Some tok"
    using login_done[OF assms(1,2)] by blast
  have "u_id u \<in> set (ids_of s)" using findById_mem[OF l(6)] by (auto simp: ids_of_def)
  then have i: "0 \<le> u_id u" "u_id u \<le> MAX_SAFE" using assms(2,3) by (force simp: users_ok_def)+
  have "requireAuth k s' url (Some tok) = Allow (session_claims u (int_text (u_id u)))"
    by (rule fresh_session_allowed[OF assms(4) l(8),
          where v = "u\<lparr>u_last_login_at := Some now, u_updated_at := now\<rparr>"])
      (simp_all add: l i assms(5))
  with l show ?thesis by blast
qed

lemma login_session_accepted_witness:
  "\<exists>tok. requireAuth sample_keys (fst (login sample_keys 5 (Str ''A@b.cd'') (Str ''password1'') sample_users))
     ''/api/users'' (Some tok) = Allow (session_claims sample_user (int_text 1))"
proof -
  obtain s' r ck where l: "login sample_keys 5 (Str ''A@b.cd'') (Str ''password1'') sample_users = (s', r, ck)"
    by (metis prod_cases3)
  have "(case login sample_keys 5 (Str ''A@b.cd'') (Str ''password1'') sample_users of (s', r, ck) \<Rightarrow> status_of r) = 200"
    by code_simp
  with l have "status_of r = 200" by simp
  moreover have "(case login sample_keys 5 (Str ''A@b.cd'') (Str ''password1'') sample_users of
      (s', Ok n b, ck) \<Rightarrow> True | _ \<Rightarrow> False)" by code_simp
  ultimately obtain n b where o: "r = Ok n b" using l by (cases r) auto
  have u: "us_seq sample_users \<le> MAX_SAFE" "\<not> auth_exempt ''/api/users''" by code_simp+
  have f: "findByUsername sample_users nm = Some u \<Longrightarrow> u = sample_user \<and> u_id u = 1" for nm u
    by (auto simp: findByUsername_def sample_users_def sample_user_def split: if_splits)
  from login_session_accepted[OF l[unfolded o] sample_users_ok u(1) sample_keys_sound u(2)] l f
  show ?thesis by fastforce
qed

text \<open>
  C12. A password change, and the disabling of an account that was not disabled, end every session
  issued before: whatever the account routes do afterwards (logging in again, re-enabling the account,
  further changes), a token with the version of that time or an older one is refused on every path.
\<close>

theorem old_sessions_refused:
  assumes "change_password k now ca rawId pass curr_pass s = (s1, Ok n b, ck) \<or>
      (delete_user now ca rawId s = (s1, Ok n b, ck) \<and> \<not> disabled_truthy u)"
    and "parseUserId rawId = Some i" and "findById (t_users s) i = Some u"
    and "(account_step k)\<^sup>*\<^sup>* s1 s2"
    and "cl_tv c = Some v" and "v \<le> u_token_version u"
    and "safe_integer_of (number_of_string (cl_sub c)) = Some i"
  shows "requireAuth k (t_users s2) url token \<noteq> Allow c"
proof -
  obtain u' where u: "findById (t_users s1) i = Some u'" "u_token_version u' = u_token_version u + 1"
    using assms(1)
  proof
    assume "change_password k now ca rawId pass curr_pass s = (s1, Ok n b, ck)"
    from change_password_done[OF this] assms(2,3) that show thesis by auto
  next
    assume d: "delete_user now ca rawId s = (s1, Ok n b, ck) \<and> \<not> disabled_truthy u"
    from delete_user_done[OF conjunct1[OF d]] d assms(2,3) that show thesis by auto
  qed
  with account_steps_stale[OF assms(4) u(1) assms(5) _ assms(7)] assms(6) show ?thesis by simp
qed

definition sample_caller :: caller where
  "sample_caller = \<lparr>ca_sub = Some ''2'', ca_ip = ''::1'', ca_audit_ok = True\<rparr>"

lemma old_sessions_refused_witness:
  "requireAuth sample_keys
     (t_users (fst (delete_user 50 sample_caller ''1'' (sample_db\<lparr>t_users := sample_users\<rparr>))))
     ''/api/users'' (Some (sample_sign [] (session_claims sample_user ''1''))) \<noteq>
     Allow (session_claims sample_user ''1'')"
proof -
  let ?s = "sample_db\<lparr>t_users := sample_users\<rparr>"
  obtain s1 r ck where d: "delete_user 50 sample_caller ''1'' ?s = (s1, r, ck)" by (metis prod_cases3)
  have "(case delete_user 50 sample_caller ''1'' ?s of (s1, Ok n b, ck) \<Rightarrow> True | _ \<Rightarrow> False)" by code_simp
  with d obtain n b where o: "r = Ok n b" by (cases r) auto
  have p: "parseUserId ''1'' = Some 1" by code_simp
  have f: "findById (t_users ?s) 1 = Some sample_user" by code_simp
  have t: "cl_tv (session_claims sample_user ''1'') = Some 0" "(0::int) \<le> u_token_version sample_user"
    "\<not> disabled_truthy sample_user"
    by (simp_all add: session_claims_def sample_user_def disabled_truthy_def)
  have n: "safe_integer_of (number_of_string (cl_sub (session_claims sample_user ''1''))) = Some 1" by code_simp
  have "requireAuth sample_keys (t_users s1) ''/api/users''
      (Some (sample_sign [] (session_claims sample_user ''1''))) \<noteq> Allow (session_claims sample_user ''1'')"
    by (rule old_sessions_refused[OF disjI2[OF conjI[OF d[unfolded o] t(3)]] p f rtranclp.rtrancl_refl t(1,2) n])
  with d show ?thesis by simp
qed

text \<open>
  The guard lets a request through as a session exactly when the path is not exempt and its token
  verifies to claims that name, by a safe integer, an account that exists, is not disabled and has the
  token version of the claims.
\<close>

theorem guard_allows_exactly:
  "requireAuth k s url token = Allow c \<longleftrightarrow>
     \<not> auth_exempt url \<and>
     (\<exists>tok i u. token = Some tok \<and> tok \<noteq> [] \<and> verifySessionToken k tok = Some c \<and>
        safe_integer_of (number_of_string (cl_sub c)) = Some i \<and> findById s i = Some u \<and>
        u_disabled_at u = None \<and> cl_tv c = Some (u_token_version u))"
  by (rule requireAuth_Allow)

text \<open>
  C13. Account names stay unique without case, and ids stay unique and are never used again, under any
  sequence of the account routes, the two halves of concurrent setups included; every account keeps its
  row, with a token version that does not go down.
\<close>

theorem accounts_stay_consistent:
  assumes "(account_step k)\<^sup>*\<^sup>* s s'" and "users_ok (t_users s)"
  shows "users_ok (t_users s') \<and>
     (\<forall>i u. findById (t_users s) i = Some u \<longrightarrow>
        (\<exists>u'. findById (t_users s') i = Some u' \<and> u_token_version u \<le> u_token_version u'))"
  using account_steps_ok[OF assms] sessions.steps_version[OF account_steps_users[OF assms(1)]] by blast

lemma accounts_stay_consistent_witness:
  "users_ok (t_users (fst (create_user sample_keys 9 sample_caller (Str ''New@b.cd'') (Str ''password2'')
     (sample_db\<lparr>t_users := sample_users\<rparr>))))"
proof -
  let ?s = "sample_db\<lparr>t_users := sample_users\<rparr>"
  obtain s' r where c: "create_user sample_keys 9 sample_caller (Str ''New@b.cd'') (Str ''password2'') ?s = (s', r)"
    by (metis surj_pair)
  have "(account_step sample_keys)\<^sup>*\<^sup>* ?s s'" using CreateUser[OF c] by blast
  moreover have "users_ok (t_users ?s)" using sample_users_ok by simp
  ultimately show ?thesis using accounts_stay_consistent c by simp
qed

text \<open>
  C15. A setup that succeeds found no account. When the name it was given begins with the prefix of the
  archived duplicates, though, the account it creates is not counted and cannot log in, so the setup
  route stays open after it.
\<close>

theorem setup_with_archive_name:
  assumes "setup_account k now name pass s = (s', Ok n b, ck)" and "users_ok s"
    and "credentialSchema 3 name pass = Some (nm, p)"
  shows "count_users s = 0 \<and> length (us_rows s') = length (us_rows s) + 1 \<and>
     (starts_with ''__dup_'' (nocase nm) \<longrightarrow>
        count_users s' = 0 \<and> login k now name pass s' = (s', Reject 401 ''invalid_credentials'', None))"
  using setup_done[OF assms(1,2)] setup_archived[OF assms(1-3)] archive_login_fails[OF _ assms(3)]
  by (auto simp: is_archive_prefix)

lemma setup_with_archive_name_witness:
  "count_users (fst (setup_account sample_keys 5 (Str ''__dup_x@b.cd'') (Str ''password1'') \<lparr>us_rows = [], us_seq = 0\<rparr>)) = 0"
proof -
  let ?s = "\<lparr>us_rows = [], us_seq = 0\<rparr>"
  obtain s' r ck where d: "setup_account sample_keys 5 (Str ''__dup_x@b.cd'') (Str ''password1'') ?s = (s', r, ck)"
    by (metis prod_cases3)
  have "(case setup_account sample_keys 5 (Str ''__dup_x@b.cd'') (Str ''password1'') ?s of
      (s', Ok n b, ck) \<Rightarrow> True | _ \<Rightarrow> False)" by code_simp
  with d obtain n b where o: "r = Ok n b" by (cases r) auto
  have c: "credentialSchema 3 (Str ''__dup_x@b.cd'') (Str ''password1'') = Some (''__dup_x@b.cd'', ''password1'')"
    by code_simp
  have w: "starts_with ''__dup_'' (nocase ''__dup_x@b.cd'')" "users_ok ?s"
    by (code_simp, simp add: users_ok_def ids_of_def)
  from setup_with_archive_name[OF d[unfolded o] w(2) c] w(1) d show ?thesis by simp
qed

text \<open>
  For tokens of ASCII characters, an internal path is let through exactly when a token is
  configured and the header is that token.
\<close>

theorem internal_token_required:
  assumes "list_all (\<lambda>c. (of_char c :: nat) < 128) (or_else env [])"
    and "list_all (\<lambda>c. (of_char c :: nat) < 128) (or_else header [])" and "starts_with ''/internal/'' url"
  shows "requireInternalToken env url header = IPass \<longleftrightarrow>
     or_else env [] \<noteq> [] \<and> or_else header [] = or_else env []"
  using internal_token_ascii[of env header url] assms by (simp add: list_all_iff)

lemma internal_token_required_witness:
  "requireInternalToken (Some ''secret'') ''/internal/x'' (Some ''Secret'') \<noteq> IPass"
proof -
  have "list_all (\<lambda>c. (of_char c :: nat) < 128) (or_else (Some ''secret'') [])"
    "list_all (\<lambda>c. (of_char c :: nat) < 128) (or_else (Some ''Secret'') [])"
    "starts_with ''/internal/'' ''/internal/x''" by code_simp+
  from internal_token_required[OF this] show ?thesis by (simp add: or_else_def)
qed

section \<open>Statistics, events, metrics\<close>

definition sample_stat :: "string \<Rightarrow> int \<Rightarrow> proxy_stat" where
  "sample_stat h n = \<lparr>px_host = h, px_requests = n, px_cache_hits = 1, px_cache_misses = 1, px_bandwidth = 10,
     px_avg_response_time = 5, px_l1_hits = Some 1, px_l2_hits = None, px_bypass_method = None,
     px_bypass_nocache = None, px_bypass_size = None, px_bypass_other = None\<rparr>"

text \<open>
  C17. The collector loses and doubles nothing: over any set of hosts and times, each counter of the
  table grows by exactly what the proxy reported for hosts with requests, whether a row for the second
  exists or not; this for a report in which every host is registered. The first unregistered host with
  requests, however, ends the round: the rows behind it are not stored.
\<close>

theorem collector_accumulates:
  assumes "stats_ok hosts t" and "list_all (\<lambda>s. px_host s \<in> set hosts) ss"
  shows "stat_total c P (fst (collect hosts now (Some ss) t)) =
       stat_total c P t +
       sum_of (\<lambda>s. counter_of c (stat_of_proxy now s))
         (filter (\<lambda>s. px_requests s \<noteq> 0 \<and> P (px_host s, now)) ss) \<and>
     \<not> snd (collect hosts now (Some ss) t) \<and>
     (px_host s \<notin> set hosts \<and> px_requests s \<noteq> 0 \<longrightarrow>
        collect hosts now (Some (ss @ s # rest)) t = (fst (collect hosts now (Some ss) t), True))"
  using assms collect_loop_all[of ss hosts now t] collect_loop_abort[of ss hosts s t now rest]
    collect_total[of t c P now "filter (\<lambda>s. px_requests s \<noteq> 0) ss"]
  by (simp add: collect_def stats_ok_def list_all_iff conj_commute)

lemma collector_accumulates_witness:
  "stat_total CRequests (\<lambda>_. True)
     (fst (collect [''a.com''] 60 (Some [sample_stat ''a.com'' 3, sample_stat ''a.com'' 4]) [])) = 7"
proof -
  have "stats_ok [''a.com''] []" by (simp add: stats_ok_def)
  moreover have "list_all (\<lambda>s. px_host s \<in> set [''a.com'']) [sample_stat ''a.com'' 3, sample_stat ''a.com'' 4]"
    by code_simp
  ultimately show ?thesis
    using collector_accumulates[of "[''a.com'']" "[]" "[sample_stat ''a.com'' 3, sample_stat ''a.com'' 4]"
        CRequests "\<lambda>_. True" 60]
    by (simp add: stat_total_def sample_stat_def stat_of_proxy_def sum_of_def)
qed

text \<open>
  C18. The totals of the period query are the sums over the rows of the period, and the buckets of the
  time series split them: their requests add up to the total, and their times increase strictly.
\<close>

theorem period_totals_conserved:
  assumes "getStats bucket now h p rng t = Inr (sm, rows)"
    and "stats_bounds now p (or_else rng (0, 0)) = (since, until, bsz)"
  shows "ss_total_requests sm = sum_of st_requests (filter (in_window h since until) t) \<and>
     ss_total_cache_hits sm = sum_of st_cache_hits (filter (in_window h since until) t) \<and>
     ss_total_cache_misses sm = sum_of st_cache_misses (filter (in_window h since until) t) \<and>
     ss_total_bandwidth sm = sum_of st_bandwidth (filter (in_window h since until) t) \<and>
     sum_of ts_requests rows = ss_total_requests sm \<and>
     sorted_wrt (\<lambda>x y. ts_timestamp x < ts_timestamp y) rows"
  using assms by (rule getStats_totals)

definition sample_stat_row :: "string \<Rightarrow> int \<Rightarrow> int \<Rightarrow> stat_row" where
  "sample_stat_row h ts n = \<lparr>st_host = h, st_timestamp = ts, st_requests = n, st_cache_hits = 1, st_cache_misses = 0,
     st_bandwidth = 7, st_avg_response_time = 3, st_l1_hits = 0, st_l2_hits = 0, st_bypass_method = 0,
     st_bypass_nocache = 0, st_bypass_size = 0, st_bypass_other = 0\<rparr>"

lemma period_totals_conserved_witness:
  "(case getStats (\<lambda>n s. of_int (sql_quot s n * n)) 7200 ''a.com'' P1h None
       [sample_stat_row ''a.com'' 7000 5, sample_stat_row ''a.com'' 100 9] of
      Inr (sm, rows) \<Rightarrow> sum_of ts_requests rows = 5 | Inl _ \<Rightarrow> False)"
proof -
  let ?b = "\<lambda>n s. of_int (sql_quot s n * n) :: rat"
  let ?t = "[sample_stat_row ''a.com'' 7000 5, sample_stat_row ''a.com'' 100 9]"
  obtain sm rows where g: "getStats ?b 7200 ''a.com'' P1h None ?t = Inr (sm, rows)"
    by (simp add: getStats_def validateRange_def stats_bounds_def Let_def)
  have b: "stats_bounds 7200 P1h (or_else None (0, 0)) = (3600, 7200, 60)"
    by (simp add: stats_bounds_def Let_def)
  from period_totals_conserved[OF g b] g show ?thesis
    by (simp add: in_window_def sample_stat_row_def sum_of_def)
qed

text \<open>
  The summary of one host and the summary of all hosts are computed by different queries and agree:
  the one is the entry of the other.
\<close>

theorem host_summary_is_entry:
  "getSummaryForHost now h t = List.find (\<lambda>s. su_host s = h) (getSummaryAll now t)"
  by (rule summary_host_eq)

text \<open>
  The dashboard's counts by decision partition the matching events: each decision appears once,
  the counts add up to the number of matching events, and the most frequent come first.
\<close>

theorem decision_counts_partition:
  "sum_of ds_count (statsByDecision now q s) = int (length (filter (stats_query_matches now q) (ev_rows s))) \<and>
   distinct (map ds_decision (statsByDecision now q s)) \<and>
   sorted_wrt (\<lambda>a b. ds_count b \<le> ds_count a) (statsByDecision now q s)"
proof -
  have "sorted_wrt (\<lambda>a b. ds_count b \<le> ds_count a) (statsByDecision now q s)"
    unfolding statsByDecision_def by (rule sorted_order_by) auto
  with statsByDecision_total[of now q s] statsByDecision_distinct[of now q s] show ?thesis by simp
qed

text \<open>
  C19. One tick of the events pruner keeps exactly the events of registered hosts whose time is not
  before the limit, and reports how many it removed; \<open>Date.parse\<close> is assumed to read back the text that
  \<open>toISOString\<close> wrote.
\<close>

theorem events_pruner_keeps:
  assumes "parse (toISOString (now_ms - days * 24 * 60 * 60 * 1000)) = Some (now_ms - days * 24 * 60 * 60 * 1000)"
    and "events_pruner_tick parse now_ms days hosts s = (s', n)"
  shows "ev_rows s' = filter (\<lambda>e. (now_ms - days * 86400000) div 1000 \<le> e_ts e \<and> e_host e \<in> set hosts) (ev_rows s) \<and>
     n + length (ev_rows s') = length (ev_rows s) \<and> ev_seq s' = ev_seq s"
  using assms by (rule events_pruner_result)

definition sample_event :: "string \<Rightarrow> int \<Rightarrow> event" where
  "sample_event h ts = \<lparr>e_id = ts, e_ts = ts, e_event_type = ''media_cache'', e_host = h, e_url_hash = [],
     e_url = ''/x'', e_decision = ''served_200'', e_orig_size = None, e_out_size = None, e_range_header = None,
     e_content_type = None, e_elapsed_ms = 1\<rparr>"

lemma events_pruner_keeps_witness:
  "map e_ts (ev_rows (fst (events_pruner_tick (\<lambda>_. Some 1000) 86401000 1 [''a'']
     \<lparr>ev_rows = [sample_event ''a'' 0, sample_event ''a'' 5, sample_event ''b'' 5], ev_seq = 5\<rparr>))) = [5]"
proof -
  let ?s = "\<lparr>ev_rows = [sample_event ''a'' 0, sample_event ''a'' 5, sample_event ''b'' 5], ev_seq = 5\<rparr>"
  obtain s' n where t: "events_pruner_tick (\<lambda>_. Some 1000) 86401000 1 [''a''] ?s = (s', n)" by fastforce
  from events_pruner_keeps[OF _ t] t show ?thesis by (simp add: sample_event_def)
qed


definition sample_metric :: "int \<Rightarrow> metric" where
  "sample_metric n = \<lparr>mt_total = n, mt_matched = n, mt_nxdomain = 0, mt_forwarded = 0\<rparr>"


section \<open>Certificates and the health monitor\<close>



text \<open>
  The threshold of an alert is the smallest one that the days left do not exceed.
\<close>

theorem threshold_is_least:
  "matchThreshold days = Some n \<longleftrightarrow>
     0 \<le> days \<and> n \<in> {30, 14, 7, 1} \<and> days \<le> n \<and> (filter (\<lambda>m. days \<le> m \<and> m < n) THRESHOLDS = [])"
  by (auto simp: matchThreshold_cases THRESHOLDS_def)

text \<open>
  Renewing the certificate of one host sends the TLS service a list of that host alone, and the
  service keeps the certificates of the list it is sent: after the renewal no other host has one.
\<close>

theorem renew_drops_other_certificates:
  assumes "tls_renew w rawHost c = (Ok 200 BNone, [TlsSync ds ok])"
  shows "\<exists>host. host_param rawHost = Some host \<and> host \<in> set (hosts_of (t_domains (c_db c))) \<and>
     set (tls_sync_domains issues (map fst ds) certs) \<subseteq> {host}"
  using assms domain_rows.lookup_None[of "t_domains (c_db c)"]
  by (auto simp: tls_renew_def tls_sync_domains_def Let_def split: option.splits if_splits)

lemma renew_drops_other_certificates_witness:
  "tls_renew (sample_world True) ''a.com'' sample_conn = (Ok 200 BNone, [TlsSync [(''a.com'', [])] True]) \<and>
   ''b.com'' \<notin> set (tls_sync_domains (\<lambda>_. True) (map fst [(''a.com'', [] :: string)]) [''a.com'', ''b.com''])"
proof -
  have r: "tls_renew (sample_world True) ''a.com'' sample_conn = (Ok 200 BNone, [TlsSync [(''a.com'', [])] True])"
    by code_simp
  have h: "host_param ''a.com'' = Some ''a.com''" by code_simp
  from renew_drops_other_certificates[OF r, of "\<lambda>_. True" "[''a.com'', ''b.com'']"] r h show ?thesis by auto
qed

text \<open>
  The health monitor pushes the domains to the other services exactly at the polls where the proxy
  answers and did not answer at the poll before, the first poll counting as after an outage.
\<close>

theorem monitor_pushes_on_recovery:
  assumes "monitor_run w c polls monitor_init = (m', effs)"
  shows "map (\<lambda>e. e \<noteq> []) effs = rising False (map (\<lambda>p. po_proxy p \<noteq> None) polls)"
  using monitor_run_rising[OF assms] by (simp add: monitor_init_def)

definition sample_poll :: "bool \<Rightarrow> poll" where
  "sample_poll up = \<lparr>po_proxy = (if up then Some \<lparr>ps_online = True, ps_uptime = 1, ps_request_count = 1,
     ps_lagged = None\<rparr> else None), po_now = 0, po_latency = 1, po_services = [], po_disk = None\<rparr>"

lemma monitor_pushes_on_recovery_witness:
  "map (\<lambda>e. e \<noteq> []) (snd (monitor_run (sample_world True) sample_conn
      (map sample_poll [True, True, False, True]) monitor_init)) = [True, False, False, True]"
proof -
  obtain m' effs where r: "monitor_run (sample_world True) sample_conn
      (map sample_poll [True, True, False, True]) monitor_init = (m', effs)" by fastforce
  from monitor_pushes_on_recovery[OF r] r show ?thesis by (simp add: rising_def sample_poll_def)
qed

section \<open>The client and the server\<close>


definition sample_env :: answer_env where
  "sample_env = \<lparr>en_now = 100, en_bucket = (\<lambda>_ x. of_int x), en_parse = (\<lambda>_. None), en_table = Some [], en_proxy = None\<rparr>"


text \<open>
  What the exceptions look like: the detail of a domain that was deleted, disabled with others or added once
  more stays, and so does a detail page that was opened under another spelling of the host.
\<close>

lemma detail_not_refreshed:
  "\<not> invalidated (MDelete ''a.com'') (QDomain ''a.com'')"
  "\<not> invalidated (MBulkToggle [''a.com''] False) (QDomain ''a.com'')"
  "\<not> invalidated (MAdd ''a.com'' ''http://n'') (QDomain ''a.com'')"
  "(case run (sample_world True) (RPost (Str ''a.com'') (Str ''http://n'')) sample_conn of
      (c', r, e) \<Rightarrow> status_of r = 201 \<and> answer sample_env (QDomain ''a.com'') c' \<noteq> answer sample_env (QDomain ''a.com'') sample_conn)"
  "\<not> invalidated (MToggle ''a.com'') (QDomain ''A.com'')"
  "(case run (sample_world True) (RToggle ''a.com'') sample_conn of
      (c', r, e) \<Rightarrow> status_of r = 200 \<and> answer sample_env (QDomain ''A.com'') c' \<noteq> answer sample_env (QDomain ''A.com'') sample_conn)"
  by code_simp+

end
